(* ===== verification/Prelude.thy ===== *)
theory Prelude
  imports Main "HOL-Library.Word" "HOL-Library.Monad_Syntax"
begin

text \<open>
  Generic material the components share: the machine integer types of the C code, the
  errno values it returns, bit lemmas on words (masks, the split of a 64-bit value into
  two 32-bit halves, the sign extension of a C \<open>int\<close> mask), and lemmas on lists, maps and
  enumeration chains. The collection \<open>bits\<close> holds the bit-level rewriting rules.
\<close>

unbundle bit_operations_syntax

named_theorems bits "bit-level rewriting rules of the register code"

type_synonym u8 = "8 word"
type_synonym u16 = "16 word"
type_synonym u32 = "32 word"
type_synonym u64 = "64 word"

section \<open>errno values\<close>

abbreviation ENOENT :: int where "ENOENT \<equiv> 2"
abbreviation EIO :: int where "EIO \<equiv> 5"
abbreviation ENXIO :: int where "ENXIO \<equiv> 6"
abbreviation ENOMEM :: int where "ENOMEM \<equiv> 12"
abbreviation EFAULT :: int where "EFAULT \<equiv> 14"
abbreviation EINVAL :: int where "EINVAL \<equiv> 22"

section \<open>Bits\<close>

text \<open>A C \<open>int\<close> constant \<open>~(1 << n)\<close> keeps all the other bits when it is converted to a
  wider unsigned type, because the conversion extends the sign.\<close>

lemma scast_not_bit [bits]:
  "n < 31 \<Longrightarrow> (scast (NOT (push_bit n 1 :: u32)) :: u64) = NOT (push_bit n 1)"
  by (rule bit_word_eqI) (auto simp: bit_simps min_def)

lemma word_halves_join [bits]:
  fixes v :: u64
  shows "push_bit 32 (ucast (ucast (drop_bit 32 v) :: u32)) OR ucast (ucast v :: u32) = v"
  by (rule bit_word_eqI) (auto simp: bit_simps)

lemma ucast_32_and_mask [bits]:
  fixes v :: u64
  shows "(ucast (v AND 0xFFFFFFFF) :: u32) = ucast v"
proof -
  have "v AND 0xFFFFFFFF = v AND mask 32" by (simp add: mask_eq_exp_minus_1)
  then show ?thesis by (auto intro!: bit_word_eqI simp: bit_simps)
qed

lemma word_bit_bound: "w < 2 ^ n \<Longrightarrow> bit w m \<Longrightarrow> m < n" for w :: "'a :: len word"
  by (metis bit_and_iff bit_mask_iff less_mask_eq)

lemma add_mask_mod: "((a AND mask n) + b) AND mask n = (a + b) AND mask n" for a b :: "'a :: len word"
  by (rule mask_eqs)

lemma and_mask_idem: "(a AND mask n) AND mask n = a AND mask n" for a :: "'a :: len word"
  by (simp add: and.assoc)

lemma and_not_self [bits]: "((a AND NOT b) AND b) = (0 :: 'a :: len word)"
  by (rule bit_word_eqI) (auto simp: bit_simps)

lemma or_and_self [bits]: "((a OR b) AND b) = (b :: 'a :: len word)"
  by (rule bit_word_eqI) (auto simp: bit_simps)

section \<open>Searching an interval\<close>

lemma find_upt:
  "find Q [0..<n] = Some i \<longleftrightarrow> i < n \<and> Q i \<and> (\<forall>j < i. \<not> Q j)"
proof (induction n)
  case 0
  then show ?case by simp
next
  case (Suc n)
  have "find Q (xs @ [x]) = (case find Q xs of None \<Rightarrow> if Q x then Some x else None | Some y \<Rightarrow> Some y)" for xs x
    by (induction xs) auto
  moreover have "find Q [0..<n] = None \<longleftrightarrow> (\<forall>j < n. \<not> Q j)"
    by (auto simp: find_None_iff)
  ultimately show ?case
    using Suc by (auto split: option.splits simp: less_Suc_eq)
qed

section \<open>Lists of results\<close>

lemma those_map_Some: "(\<And>x. x \<in> set xs \<Longrightarrow> g x = Some (f x)) \<Longrightarrow> those (map g xs) = Some (map f xs)"
  by (induction xs) auto

section \<open>Enumeration chains\<close>

text \<open>
  \<open>chain nxt from xs\<close>: starting after \<open>from\<close>, the cursor function \<open>nxt\<close> yields exactly
  the elements of \<open>xs\<close>, in order, and then nothing. It is what a kernel iterator
  documents: every element once, then \<open>NULL\<close>.
\<close>

fun chain :: "('a option \<Rightarrow> 'a option) \<Rightarrow> 'a option \<Rightarrow> 'a list \<Rightarrow> bool" where
  "chain nxt from [] = (nxt from = None)"
| "chain nxt from (x # xs) = (nxt from = Some x \<and> chain nxt (Some x) xs)"

lemma chain_unique: "chain nxt from xs \<Longrightarrow> chain nxt from ys \<Longrightarrow> xs = ys"
proof (induction xs arbitrary: "from" ys)
  case Nil
  then show ?case by (cases ys) auto
next
  case (Cons x xs)
  then show ?case by (cases ys) auto
qed

end
