(* ===== verification/Platform.thy ===== *)
theory Platform
  imports Prelude
begin

text \<open>
  What the module takes from outside the repository: the Linux kernel and the hardware.
  The record \<open>platform\<close> is a parameter of every definition that uses it, and its operations
  have no definition here: \<open>'h\<close> is the state of the hardware and of the kernel's CPU hotplug
  code, which only these operations read or change. The record \<open>kern\<close> is the part of the
  kernel's state whose bookkeeping the module's correctness is about: allocations,
  reference counts of PCI devices, /proc entries, the delays that ran on each CPU. The
  kernel services at the end say what a call changes in it, as the kernel documents it.
\<close>

type_synonym pdev = nat
type_synonym cpumask = "u32 \<Rightarrow> bool"

section \<open>The parameter\<close>

text \<open>
  A read through an out parameter takes the variable's old content and returns the error
  code and the new content. The \<open>stack_junk\<close> values are the contents of an uninitialised
  64-bit, 32-bit and 16-bit local variable. \<open>kzalloc_ok n\<close> says whether the \<open>n\<close>-th allocation since
  boot succeeds, \<open>smp_status\<close> what \<open>smp_call_function_single\<close> returns for a CPU. \<open>wrmsr_gp\<close> says that
  a value sets a reserved bit of a register, so that the processor faults and writes nothing. Only
  \<open>uncore_nhmep.c\<close> writes bits that it has not chosen; the other files write constants, masked
  counts and what they have read back, and do not ask.
\<close>

record 'h platform =
  rdmsr :: "'h \<Rightarrow> u32 \<Rightarrow> u32 \<Rightarrow> u64"
  wrmsr :: "u32 \<Rightarrow> u32 \<Rightarrow> u64 \<Rightarrow> 'h \<Rightarrow> 'h"
  wrmsr_gp :: "u32 \<Rightarrow> u64 \<Rightarrow> bool"
  pci_read_config_dword :: "'h \<Rightarrow> pdev \<Rightarrow> u32 \<Rightarrow> u32 \<Rightarrow> int \<times> u32"
  pci_write_config_dword :: "pdev \<Rightarrow> u32 \<Rightarrow> u32 \<Rightarrow> 'h \<Rightarrow> 'h"
  pci_read_config_word :: "'h \<Rightarrow> pdev \<Rightarrow> u32 \<Rightarrow> u16 \<Rightarrow> int \<times> u16"
  pci_write_config_word :: "pdev \<Rightarrow> u32 \<Rightarrow> u16 \<Rightarrow> 'h \<Rightarrow> 'h"
  pcibios_err_to_errno :: "int \<Rightarrow> int"
  pci_next :: "u32 \<Rightarrow> u32 \<Rightarrow> pdev option \<Rightarrow> pdev option"
  bus_number :: "pdev \<Rightarrow> u8"
  pdev_vendor :: "pdev \<Rightarrow> u16"
  pdev_device :: "pdev \<Rightarrow> u16"
  pdev_devfn :: "pdev \<Rightarrow> u32"
  kref_at_load :: "pdev \<Rightarrow> int"
  kzalloc_ok :: "nat \<Rightarrow> bool"
  proc_create_ok :: "string \<Rightarrow> bool"
  x86_model :: nat
  x86_max_cores :: u32
  nr_cpu_ids :: u32
  nr_node_ids :: u32
  online_nodes :: "u32 list"
  cpumask_of_node :: "'h \<Rightarrow> u32 \<Rightarrow> cpumask"
  cpumask_first :: "cpumask \<Rightarrow> u32"
  cpu_to_node :: "u32 \<Rightarrow> u32"
  smp_status :: "'h \<Rightarrow> u32 \<Rightarrow> int"
  cpu_up :: "u32 \<Rightarrow> 'h \<Rightarrow> int \<times> 'h"
  cpu_down :: "u32 \<Rightarrow> 'h \<Rightarrow> int \<times> 'h"
  cpu_online :: "'h \<Rightarrow> u32 \<Rightarrow> bool"
  cpuid :: "u32 \<Rightarrow> u32 \<Rightarrow> u32 \<times> u32 \<times> u32 \<times> u32"
  apic_write :: "u32 \<Rightarrow> u32 \<Rightarrow> u32 \<Rightarrow> 'h \<Rightarrow> 'h"
  this_cpu :: u32
  stack_junk64 :: u64
  stack_junk32 :: u32
  stack_junk16 :: u16

section \<open>Kernel state\<close>

text \<open>
  \<open>krefs d\<close> is the reference count of device \<open>d\<close> relative to the module's load. \<open>procs\<close>
  lists the /proc entries that exist, \<open>proc_faults\<close> counts removals of a name that is not
  registered. \<open>panicked\<close> is set by the accesses the kernel would die on: walking a list head
  that was never initialised, using a freed object, reading past an array, a fault in \<open>wrmsr\<close>.
\<close>

record 'h kern =
  world :: 'h
  allocs :: nat
  krefs :: "pdev \<Rightarrow> int"
  procs :: "string list"
  proc_faults :: nat
  delays :: "(u32 \<times> u64) list"
  panicked :: bool

text \<open>Frame rule of the record: the machine state is reached through \<open>world\<close> only.\<close>

definition on_world :: "('h \<Rightarrow> 'h) \<Rightarrow> ('h, 'm) kern_scheme \<Rightarrow> ('h, 'm) kern_scheme" where
  "on_world f s = s\<lparr>world := f (world s)\<rparr>"

lemma on_world_sel [simp]:
  "world (on_world f s) = f (world s)"
  "allocs (on_world f s) = allocs s"
  "krefs (on_world f s) = krefs s"
  "procs (on_world f s) = procs s"
  "proc_faults (on_world f s) = proc_faults s"
  "delays (on_world f s) = delays s"
  "panicked (on_world f s) = panicked s"
  "kern.more (on_world f s) = kern.more s"
  by (simp_all add: on_world_def)

definition die :: "('h, 'm) kern_scheme \<Rightarrow> ('h, 'm) kern_scheme" where
  "die s = s\<lparr>panicked := True\<rparr>"

section \<open>Kernel services\<close>

text \<open>\<open>kzalloc\<close>: the result is a fresh address, or \<open>NULL\<close>. The address of the \<open>n\<close>-th
  allocation is \<open>n\<close>, so no two live objects share one.\<close>

definition kzalloc :: "'h platform \<Rightarrow> ('h, 'm) kern_scheme \<Rightarrow> nat option \<times> ('h, 'm) kern_scheme" where
  "kzalloc P s =
     (if kzalloc_ok P (allocs s) then Some (allocs s) else None, s\<lparr>allocs := Suc (allocs s)\<rparr>)"

text \<open>
  Reference counts: \<open>get_device\<close> takes one, \<open>pci_dev_put\<close> drops one and ignores \<open>NULL\<close>.
  \<open>pci_get_device\<close> returns the next matching device after \<open>from\<close>, takes a reference on it
  and drops the one held on \<open>from\<close>.
\<close>

definition get_device :: "pdev \<Rightarrow> ('h, 'm) kern_scheme \<Rightarrow> ('h, 'm) kern_scheme" where
  "get_device d s = s\<lparr>krefs := (krefs s)(d := krefs s d + 1)\<rparr>"

definition pci_dev_put :: "pdev option \<Rightarrow> ('h, 'm) kern_scheme \<Rightarrow> ('h, 'm) kern_scheme" where
  "pci_dev_put d s =
     (case d of None \<Rightarrow> s | Some d \<Rightarrow> s\<lparr>krefs := (krefs s)(d := krefs s d - 1)\<rparr>)"

definition pci_get_device ::
    "'h platform \<Rightarrow> u32 \<Rightarrow> u32 \<Rightarrow> pdev option \<Rightarrow> ('h, 'm) kern_scheme \<Rightarrow>
       pdev option \<times> ('h, 'm) kern_scheme" where
  "pci_get_device P vendor dev from s =
     (let r = pci_next P vendor dev from;
          s1 = (case r of None \<Rightarrow> s | Some d \<Rightarrow> get_device d s)
      in (r, pci_dev_put from s1))"

text \<open>/proc entries.\<close>

definition proc_create :: "'h platform \<Rightarrow> string \<Rightarrow> ('h, 'm) kern_scheme \<Rightarrow> bool \<times> ('h, 'm) kern_scheme" where
  "proc_create P nm s =
     (if proc_create_ok P nm then (True, s\<lparr>procs := nm # procs s\<rparr>) else (False, s))"

definition remove_proc_entry :: "string \<Rightarrow> ('h, 'm) kern_scheme \<Rightarrow> ('h, 'm) kern_scheme" where
  "remove_proc_entry nm s =
     (if nm \<in> set (procs s) then s\<lparr>procs := remove1 nm (procs s)\<rparr>
      else s\<lparr>proc_faults := Suc (proc_faults s)\<rparr>)"

text \<open>
  \<open>smp_call_function_single\<close> runs a function on a CPU and returns 0, or runs nothing and
  returns an error. \<open>udelay\<close> burns microseconds on the CPU it runs on: the log \<open>delays\<close>
  keeps each call, the last one first.
\<close>

definition smp_call_function_single ::
    "'h platform \<Rightarrow> u32 \<Rightarrow> (u32 \<Rightarrow> ('h, 'm) kern_scheme \<Rightarrow> ('h, 'm) kern_scheme) \<Rightarrow>
       ('h, 'm) kern_scheme \<Rightarrow> int \<times> ('h, 'm) kern_scheme" where
  "smp_call_function_single P cpu f s =
     (let err = smp_status P (world s) cpu in (err, if err = 0 then f cpu s else s))"

definition udelay :: "u64 \<Rightarrow> u32 \<Rightarrow> ('h, 'm) kern_scheme \<Rightarrow> ('h, 'm) kern_scheme" where
  "udelay usec cpu s = s\<lparr>delays := (cpu, usec) # delays s\<rparr>"

lemma pci_dev_put_eq:
  "pci_dev_put u s = s\<lparr>krefs := (\<lambda>x. krefs s x - (if u = Some x then 1 else 0))\<rparr>"
  by (auto simp: pci_dev_put_def fun_eq_iff intro!: kern.equality split: option.splits)

lemmas kernel_defs =
  kzalloc_def get_device_def pci_dev_put_def pci_get_device_def proc_create_def
  remove_proc_entry_def smp_call_function_single_def udelay_def die_def

section \<open>CPUs and non-maskable interrupts\<close>

text \<open>The loops over CPUs test a mask when they reach a CPU; \<open>for_each_online_cpu\<close> runs its body
  for every CPU that is online then.\<close>

definition possible_cpus :: "'h platform \<Rightarrow> u32 list" where
  "possible_cpus P = map of_nat [0..<unat (nr_cpu_ids P)]"

definition for_each_online_cpu :: "'h platform \<Rightarrow> (u32 \<Rightarrow> ('h, 'm) kern_scheme \<Rightarrow> ('h, 'm) kern_scheme) \<Rightarrow>
    ('h, 'm) kern_scheme \<Rightarrow> ('h, 'm) kern_scheme" where
  "for_each_online_cpu P f s =
     fold (\<lambda>cpu s. if cpu_online P (world s) cpu then f cpu s else s) (possible_cpus P) s"

lemma set_possible_cpus: "c \<in> set (possible_cpus P) \<longleftrightarrow> c < nr_cpu_ids P"
proof
  assume "c \<in> set (possible_cpus P)"
  then obtain i where "i < unat (nr_cpu_ids P)" "c = of_nat i" by (auto simp: possible_cpus_def)
  then show "c < nr_cpu_ids P"
    using unsigned_less [of "nr_cpu_ids P"] by (simp add: word_less_nat_alt unat_of_nat take_bit_nat_eq_self)
next
  assume "c < nr_cpu_ids P"
  then show "c \<in> set (possible_cpus P)"
    by (auto simp: possible_cpus_def word_less_nat_alt intro!: image_eqI [of _ _ "unat c"])
qed

lemma distinct_possible_cpus: "distinct (possible_cpus P)"
proof -
  have "unat (nr_cpu_ids P) < 4294967296" using unsigned_less [of "nr_cpu_ids P"] by simp
  then have "inj_on (of_nat :: nat \<Rightarrow> u32) {0..<unat (nr_cpu_ids P)}"
    by (auto intro!: inj_onI simp: word_unat_eq_iff unat_of_nat take_bit_nat_eq_self)
  then show ?thesis by (simp add: possible_cpus_def distinct_map)
qed

text \<open>The NMI handlers the kernel calls, the first one first, and how deep preemption is disabled.
  A handler registered with \<open>NMI_FLAG_FIRST\<close> goes to the head of the list.\<close>

record 'h nmi_kern = "'h kern" +
  nmi_actions :: "string list"
  preempt_count :: int

datatype nmi_result = NMI_DONE | NMI_HANDLED

definition register_nmi_handler :: "string \<Rightarrow> ('h, 'm) nmi_kern_scheme \<Rightarrow> ('h, 'm) nmi_kern_scheme" where
  "register_nmi_handler nm s = s\<lparr>nmi_actions := nm # nmi_actions s\<rparr>"

definition unregister_nmi_handler :: "string \<Rightarrow> ('h, 'm) nmi_kern_scheme \<Rightarrow> ('h, 'm) nmi_kern_scheme" where
  "unregister_nmi_handler nm s = s\<lparr>nmi_actions := remove1 nm (nmi_actions s)\<rparr>"

abbreviation APIC_LVTPC :: u32 where "APIC_LVTPC \<equiv> 0x340"
abbreviation APIC_DM_NMI :: u32 where "APIC_DM_NMI \<equiv> 0x400"

text \<open>\<open>memcpy\<close> of a register: its four bytes, the low one first.\<close>

definition le_bytes :: "u32 \<Rightarrow> u8 list" where
  "le_bytes w = map (\<lambda>i. ucast (drop_bit (8 * i) w)) [0..<4]"

section \<open>Printing\<close>

text \<open>A function that prints is modelled by the list of the values it prints. While the functions of
  the kernel run a printing function on other CPUs the list is carried in the extension of
  the kernel's state, so the same functions serve for both: \<open>with_log\<close> starts the list, \<open>print_on\<close>
  appends what a function prints on a CPU, \<open>printed\<close> is the list at the end.\<close>

definition with_log :: "('h, 'm) kern_scheme \<Rightarrow> ('h, 'a list) kern_scheme" where
  "with_log s = kern.extend (kern.truncate s) []"

definition print_on :: "('h \<Rightarrow> 'a list) \<Rightarrow> ('h, 'a list) kern_scheme \<Rightarrow> ('h, 'a list) kern_scheme" where
  "print_on f s = kern.more_update (\<lambda>log. log @ f (world s)) s"

definition printed :: "(('h, 'a list) kern_scheme \<Rightarrow> ('h, 'a list) kern_scheme) \<Rightarrow> ('h, 'm) kern_scheme \<Rightarrow> 'a list" where
  "printed f s = kern.more (f (with_log s))"

lemma with_log_sel [simp]: "world (with_log s) = world s" "kern.more (with_log s) = []"
  by (simp_all add: with_log_def kern.defs)

lemma print_on_sel [simp]:
  "world (print_on f s) = world s" "kern.more (print_on f s) = kern.more s @ f (world s)"
  by (simp_all add: print_on_def)

lemma print_call_sel [simp]:
  "world (snd (smp_call_function_single P cpu (\<lambda>cpu. print_on (f cpu)) s)) = world s"
  "kern.more (snd (smp_call_function_single P cpu (\<lambda>cpu. print_on (f cpu)) s)) =
     kern.more s @ (if smp_status P (world s) cpu = 0 then f cpu (world s) else [])"
  by (simp_all add: smp_call_function_single_def Let_def)

text \<open>Printing on every online CPU: the messages of the CPUs that answer, in the order of the CPUs.\<close>

lemma printed_each_cpu:
  "printed (for_each_online_cpu P (\<lambda>cpu s. snd (smp_call_function_single P cpu (\<lambda>cpu. print_on (f cpu)) s))) s =
     concat (map (\<lambda>cpu. if smp_status P (world s) cpu = 0 then f cpu (world s) else [])
       (filter (cpu_online P (world s)) (possible_cpus P)))"
proof -
  have "world (fold (\<lambda>cpu s. if cpu_online P (world s) cpu
            then snd (smp_call_function_single P cpu (\<lambda>cpu. print_on (f cpu)) s) else s) cpus t) = world t \<and>
      kern.more (fold (\<lambda>cpu s. if cpu_online P (world s) cpu
            then snd (smp_call_function_single P cpu (\<lambda>cpu. print_on (f cpu)) s) else s) cpus t) =
        kern.more t @ concat (map (\<lambda>cpu. if smp_status P (world t) cpu = 0 then f cpu (world t) else [])
          (filter (cpu_online P (world t)) cpus))" for cpus t
  proof (induction cpus arbitrary: t)
    case (Cons cpu cpus)
    then show ?case by (simp cong: if_cong)
  qed simp
  from this [of "possible_cpus P" "with_log s"] show ?thesis
    by (simp add: printed_def for_each_online_cpu_def cong: if_cong)
qed

section \<open>The device scan\<close>

text \<open>
  \<open>while (1) { pdev = pci_get_device(vendor, device, pdev); if (!pdev) break; ... }\<close>, the
  loop of the PCI and IMC initialisation: it takes a second reference on each device and
  hands it to \<open>new\<close>, and stops at the first error. Whether it ends depends on the kernel's
  iterator, so its result is an option: \<open>None\<close> is a loop that never ends.
\<close>

partial_function (option) pci_scan ::
    "'h platform \<Rightarrow> (pdev \<Rightarrow> ('h, 'm) kern_scheme \<Rightarrow> int \<times> ('h, 'm) kern_scheme) \<Rightarrow>
       u32 \<Rightarrow> u32 \<Rightarrow> pdev option \<Rightarrow> ('h, 'm) kern_scheme \<Rightarrow> (int \<times> ('h, 'm) kern_scheme) option" where
  "pci_scan P new vendor dev from s =
     (case pci_get_device P vendor dev from s of (r, s1) \<Rightarrow>
       (case r of
          None \<Rightarrow> Some (0, s1)
        | Some d \<Rightarrow>
            (case new d (get_device d s1) of (ret, s2) \<Rightarrow>
              if ret \<noteq> 0 then Some (ret, s2) else pci_scan P new vendor dev (Some d) s2)))"

text \<open>The same loop over the list of devices the iterator yields.\<close>

fun scan_list ::
    "(pdev \<Rightarrow> ('h, 'm) kern_scheme \<Rightarrow> int \<times> ('h, 'm) kern_scheme) \<Rightarrow> pdev option \<Rightarrow> pdev list \<Rightarrow>
       ('h, 'm) kern_scheme \<Rightarrow> int \<times> ('h, 'm) kern_scheme" where
  "scan_list new from [] s = (0, pci_dev_put from s)"
| "scan_list new from (d # ds) s =
     (case new d (get_device d (pci_dev_put from (get_device d s))) of (ret, s2) \<Rightarrow>
       if ret \<noteq> 0 then (ret, s2) else scan_list new (Some d) ds s2)"

lemma pci_scan_chain:
  "chain (pci_next P vendor dev) from ds \<Longrightarrow>
     pci_scan P new vendor dev from s = Some (scan_list new from ds s)"
proof (induction ds arbitrary: "from" s)
  case Nil
  then show ?case by (subst pci_scan.simps) (simp add: pci_get_device_def)
next
  case (Cons d ds)
  then show ?case
    by (subst pci_scan.simps) (auto simp: pci_get_device_def split: prod.splits)
qed

end
