(* ===== verification/Uncore_Types.thy ===== *)
theory Uncore_Types
  imports Platform
begin

text \<open>
  The data structures and inline functions of \<open>uncore_pmu.h\<close>: events, boxes, box types and
  the ops tables of a box, the packing of a PCI id's driver data, the register addresses of
  a box, and the generic box API that calls through an ops table. The locale \<open>pmon_box\<close> is
  the contract of one box's methods that the emulation relies on.
\<close>

section \<open>Constants\<close>

definition UNCORE_PMU_HRTIMER_INTERVAL :: u64 where
  "UNCORE_PMU_HRTIMER_INTERVAL = 60 * 1000000000"

definition UNCORE_MAX_SOCKET :: u32 where
  "UNCORE_MAX_SOCKET = 8"

definition UNCORE_PCI_DEV_DATA :: "u64 \<Rightarrow> u64 \<Rightarrow> u64" where
  "UNCORE_PCI_DEV_DATA type idx = push_bit 8 type OR idx"

definition UNCORE_PCI_DEV_TYPE :: "u64 \<Rightarrow> u64" where
  "UNCORE_PCI_DEV_TYPE data = drop_bit 8 data AND 0xFF"

definition UNCORE_PCI_DEV_IDX :: "u64 \<Rightarrow> u64" where
  "UNCORE_PCI_DEV_IDX data = data AND 0xFF"

text \<open>The two anonymous enums: indices into the arrays of box types.\<close>

definition UNCORE_PCI_HA_ID :: nat where "UNCORE_PCI_HA_ID = 0"
definition UNCORE_PCI_IMC_ID :: nat where "UNCORE_PCI_IMC_ID = 1"
definition UNCORE_PCI_IRP_ID :: nat where "UNCORE_PCI_IRP_ID = 2"
definition UNCORE_PCI_QPI_ID :: nat where "UNCORE_PCI_QPI_ID = 3"
definition UNCORE_PCI_R2PCIE_ID :: nat where "UNCORE_PCI_R2PCIE_ID = 4"
definition UNCORE_PCI_R3QPI_ID :: nat where "UNCORE_PCI_R3QPI_ID = 5"

definition UNCORE_MSR_UBOX_ID :: nat where "UNCORE_MSR_UBOX_ID = 0"
definition UNCORE_MSR_PCUBOX_ID :: nat where "UNCORE_MSR_PCUBOX_ID = 1"
definition UNCORE_MSR_SBOX_ID :: nat where "UNCORE_MSR_SBOX_ID = 2"
definition UNCORE_MSR_CBOX_ID :: nat where "UNCORE_MSR_CBOX_ID = 3"

lemmas pci_id_defs =
  UNCORE_PCI_HA_ID_def UNCORE_PCI_IMC_ID_def UNCORE_PCI_IRP_ID_def
  UNCORE_PCI_QPI_ID_def UNCORE_PCI_R2PCIE_ID_def UNCORE_PCI_R3QPI_ID_def

lemmas msr_id_defs =
  UNCORE_MSR_UBOX_ID_def UNCORE_MSR_PCUBOX_ID_def UNCORE_MSR_SBOX_ID_def UNCORE_MSR_CBOX_ID_def

section \<open>Structures\<close>

text \<open>
  A pointer to a box is the address of its allocation, a pointer to a box type a \<open>type_ref\<close>
  (its array and index: the types are static), a pointer to a constant ops table the name of
  the table. \<open>box_list\<close> is the list of the linked boxes, in order, or \<open>None\<close> while the list
  head still holds the zeroes of a static variable. The list links of an event are not used
  by any code and are left out.
\<close>

type_synonym box_ptr = nat

datatype type_ref = Pci_type nat | Msr_type nat

text \<open>The order in which the types are reported: those of the MSR array, then those of the PCI array.\<close>

instantiation type_ref :: linorder
begin

fun less_eq_type_ref :: "type_ref \<Rightarrow> type_ref \<Rightarrow> bool" where
  "less_eq_type_ref (Msr_type i) (Msr_type j) = (i \<le> j)"
| "less_eq_type_ref (Pci_type i) (Pci_type j) = (i \<le> j)"
| "less_eq_type_ref (Msr_type i) (Pci_type j) = True"
| "less_eq_type_ref (Pci_type i) (Msr_type j) = False"

definition less_type_ref :: "type_ref \<Rightarrow> type_ref \<Rightarrow> bool" where
  "less_type_ref s t \<longleftrightarrow> s \<le> t \<and> \<not> t \<le> s"

instance
proof
  fix r s t :: type_ref
  show "s < t \<longleftrightarrow> s \<le> t \<and> \<not> t \<le> s" by (rule less_type_ref_def)
  show "t \<le> t" "s \<le> t \<or> t \<le> s" by (cases s; cases t; auto)+
  show "r \<le> t" if "r \<le> s" "s \<le> t" using that by (cases r; cases s; cases t) auto
  show "s = t" if "s \<le> t" "t \<le> s" using that by (cases s; cases t) auto
qed

end

datatype ops_ref =
    HSWEP_UNCORE_UBOX_OPS | HSWEP_UNCORE_PCUBOX_OPS | HSWEP_UNCORE_SBOX_OPS
  | HSWEP_UNCORE_CBOX_OPS | HSWEP_UNCORE_HABOX_OPS | HSWEP_UNCORE_IMCBOX_OPS
  | HSWEP_UNCORE_IRPBOX_OPS | HSWEP_UNCORE_QPIBOX_OPS | HSWEP_UNCORE_R2PCIEBOX_OPS
  | HSWEP_UNCORE_R3QPIBOX_OPS

datatype hrtimer_fn = Uncore_box_hrtimer_def | Emulate_nvm_hrtimer

datatype hrtimer_restart = HRTIMER_NORESTART | HRTIMER_RESTART

text \<open>The kernel's timer: its callback, and the interval it was started or forwarded with
  while it is queued.\<close>

record hrtimer =
  hr_function :: "hrtimer_fn option"
  hr_queued :: "u64 option"

record uncore_event =
  ev_enable :: u64
  ev_disable :: u64
  ev_desc :: string

record uncore_box =
  idx :: u32
  nodeid :: u32
  hrtimer_duration :: u64
  hrtimer :: hrtimer
  event :: "uncore_event option"
  box_type :: type_ref
  pdev :: "pdev option"

record uncore_box_type =
  ty_name :: string
  num_counters :: u32
  num_boxes :: u32
  perf_ctr_bits :: u32
  perf_ctr :: u32
  perf_ctl :: u32
  event_mask :: u32
  fixed_ctr_bits :: u32
  fixed_ctr :: u32
  fixed_ctl :: u32
  box_ctl :: u32
  box_status :: u32
  box_filter0 :: u32
  box_filter1 :: u32
  msr_offset :: u32
  box_list :: "box_ptr list option"
  ops :: ops_ref

text \<open>
  The methods of a box. A method runs on a CPU (the MSR methods access the registers of the
  CPU they run on), gets the box with its type, and reads or changes the hardware; a table
  may leave a method out (\<open>NULL\<close>). \<open>show_box\<close> only prints and is given by the list of the
  register values it prints.
\<close>

record 'h uncore_box_ops =
  show_box :: "(u32 \<Rightarrow> uncore_box_type \<Rightarrow> uncore_box \<Rightarrow> 'h \<Rightarrow> u64 list) option"
  init_box :: "(u32 \<Rightarrow> uncore_box_type \<Rightarrow> uncore_box \<Rightarrow> 'h \<Rightarrow> 'h) option"
  clear_box :: "(u32 \<Rightarrow> uncore_box_type \<Rightarrow> uncore_box \<Rightarrow> 'h \<Rightarrow> 'h) option"
  enable_box :: "(u32 \<Rightarrow> uncore_box_type \<Rightarrow> uncore_box \<Rightarrow> 'h \<Rightarrow> 'h) option"
  disable_box :: "(u32 \<Rightarrow> uncore_box_type \<Rightarrow> uncore_box \<Rightarrow> 'h \<Rightarrow> 'h) option"
  enable_event :: "(u32 \<Rightarrow> uncore_box_type \<Rightarrow> uncore_box \<Rightarrow> uncore_event \<Rightarrow> 'h \<Rightarrow> 'h) option"
  disable_event :: "(u32 \<Rightarrow> uncore_box_type \<Rightarrow> uncore_box \<Rightarrow> uncore_event \<Rightarrow> 'h \<Rightarrow> 'h) option"
  write_counter :: "(u32 \<Rightarrow> uncore_box_type \<Rightarrow> uncore_box \<Rightarrow> u64 \<Rightarrow> 'h \<Rightarrow> 'h) option"
  read_counter :: "(u32 \<Rightarrow> uncore_box_type \<Rightarrow> uncore_box \<Rightarrow> 'h \<Rightarrow> u64) option"
  write_filter :: "(u32 \<Rightarrow> uncore_box_type \<Rightarrow> uncore_box \<Rightarrow> u64 \<Rightarrow> 'h \<Rightarrow> 'h) option"
  read_filter :: "(u32 \<Rightarrow> uncore_box_type \<Rightarrow> uncore_box \<Rightarrow> 'h \<Rightarrow> u64) option"

record uncore_pmu =
  pmu_name :: string
  n_node :: u32
  pmu_pci_type :: "type_ref list"
  pmu_msr_type :: "type_ref list"
  global_ctl :: u32
  global_status :: u32
  global_config :: u32

text \<open>An entry of a PCI id table (the fields the code uses).\<close>

record pci_device_id =
  vendor :: u32
  device :: u32
  driver_data :: u64

section \<open>Inline functions\<close>

definition uncore_box_ctr_mask :: "uncore_box_type \<Rightarrow> u64" where
  "uncore_box_ctr_mask ty = push_bit (unat (perf_ctr_bits ty)) 1 - 1"

definition uncore_pci_box_status :: "uncore_box_type \<Rightarrow> u32" where
  "uncore_pci_box_status ty = box_status ty"

definition uncore_pci_box_ctl :: "uncore_box_type \<Rightarrow> u32" where
  "uncore_pci_box_ctl ty = box_ctl ty"

definition uncore_pci_box_filter :: "uncore_box_type \<Rightarrow> u32" where
  "uncore_pci_box_filter ty = box_filter0 ty"

definition uncore_pci_perf_ctl :: "uncore_box_type \<Rightarrow> u32" where
  "uncore_pci_perf_ctl ty = perf_ctl ty"

definition uncore_pci_perf_ctr :: "uncore_box_type \<Rightarrow> u32" where
  "uncore_pci_perf_ctr ty = perf_ctr ty"

definition uncore_msr_box_offset :: "uncore_box_type \<Rightarrow> uncore_box \<Rightarrow> u32" where
  "uncore_msr_box_offset ty box = idx box * msr_offset ty"

definition uncore_msr_box_status :: "uncore_box_type \<Rightarrow> uncore_box \<Rightarrow> u32" where
  "uncore_msr_box_status ty box = box_status ty + uncore_msr_box_offset ty box"

definition uncore_msr_box_ctl :: "uncore_box_type \<Rightarrow> uncore_box \<Rightarrow> u32" where
  "uncore_msr_box_ctl ty box = box_ctl ty + uncore_msr_box_offset ty box"

definition uncore_msr_box_filter :: "uncore_box_type \<Rightarrow> uncore_box \<Rightarrow> u32" where
  "uncore_msr_box_filter ty box = box_filter0 ty + uncore_msr_box_offset ty box"

definition uncore_msr_perf_ctl :: "uncore_box_type \<Rightarrow> uncore_box \<Rightarrow> u32" where
  "uncore_msr_perf_ctl ty box = perf_ctl ty + uncore_msr_box_offset ty box"

definition uncore_msr_perf_ctr :: "uncore_box_type \<Rightarrow> uncore_box \<Rightarrow> u32" where
  "uncore_msr_perf_ctr ty box = perf_ctr ty + uncore_msr_box_offset ty box"

lemmas pci_addr_defs =
  uncore_pci_box_status_def uncore_pci_box_ctl_def uncore_pci_box_filter_def
  uncore_pci_perf_ctl_def uncore_pci_perf_ctr_def

lemmas msr_addr_defs =
  uncore_msr_box_offset_def uncore_msr_box_status_def uncore_msr_box_ctl_def
  uncore_msr_box_filter_def uncore_msr_perf_ctl_def uncore_msr_perf_ctr_def

section \<open>The generic box API\<close>

text \<open>
  Each function calls the method of the box's table, \<open>T (ops ty)\<close>, when there is one. An out
  parameter keeps its old content when there is none.
\<close>

type_synonym 'h ops_tables = "ops_ref \<Rightarrow> 'h uncore_box_ops"

definition uncore_box_bind_event :: "uncore_event option \<Rightarrow> uncore_box \<Rightarrow> uncore_box" where
  "uncore_box_bind_event ev box =
     (case ev of None \<Rightarrow> box | Some e \<Rightarrow> box\<lparr>event := Some e\<rparr>)"

definition uncore_show_box ::
    "'h ops_tables \<Rightarrow> u32 \<Rightarrow> uncore_box_type \<Rightarrow> uncore_box \<Rightarrow> 'h \<Rightarrow> u64 list" where
  "uncore_show_box T cpu ty box h =
     (case show_box (T (ops ty)) of None \<Rightarrow> [] | Some f \<Rightarrow> f cpu ty box h)"

definition uncore_init_box ::
    "'h ops_tables \<Rightarrow> u32 \<Rightarrow> uncore_box_type \<Rightarrow> uncore_box \<Rightarrow> 'h \<Rightarrow> 'h" where
  "uncore_init_box T cpu ty box h =
     (case init_box (T (ops ty)) of None \<Rightarrow> h | Some f \<Rightarrow> f cpu ty box h)"

definition uncore_clear_box ::
    "'h ops_tables \<Rightarrow> u32 \<Rightarrow> uncore_box_type \<Rightarrow> uncore_box \<Rightarrow> 'h \<Rightarrow> 'h" where
  "uncore_clear_box T cpu ty box h =
     (case clear_box (T (ops ty)) of None \<Rightarrow> h | Some f \<Rightarrow> f cpu ty box h)"

definition uncore_enable_box ::
    "'h ops_tables \<Rightarrow> u32 \<Rightarrow> uncore_box_type \<Rightarrow> uncore_box \<Rightarrow> 'h \<Rightarrow> 'h" where
  "uncore_enable_box T cpu ty box h =
     (case enable_box (T (ops ty)) of None \<Rightarrow> h | Some f \<Rightarrow> f cpu ty box h)"

definition uncore_disable_box ::
    "'h ops_tables \<Rightarrow> u32 \<Rightarrow> uncore_box_type \<Rightarrow> uncore_box \<Rightarrow> 'h \<Rightarrow> 'h" where
  "uncore_disable_box T cpu ty box h =
     (case disable_box (T (ops ty)) of None \<Rightarrow> h | Some f \<Rightarrow> f cpu ty box h)"

definition uncore_enable_event ::
    "'h ops_tables \<Rightarrow> u32 \<Rightarrow> uncore_box_type \<Rightarrow> uncore_box \<Rightarrow> uncore_event \<Rightarrow> 'h \<Rightarrow> 'h" where
  "uncore_enable_event T cpu ty box ev h =
     (case enable_event (T (ops ty)) of None \<Rightarrow> h | Some f \<Rightarrow> f cpu ty box ev h)"

definition uncore_disable_event ::
    "'h ops_tables \<Rightarrow> u32 \<Rightarrow> uncore_box_type \<Rightarrow> uncore_box \<Rightarrow> uncore_event \<Rightarrow> 'h \<Rightarrow> 'h" where
  "uncore_disable_event T cpu ty box ev h =
     (case disable_event (T (ops ty)) of None \<Rightarrow> h | Some f \<Rightarrow> f cpu ty box ev h)"

definition uncore_write_counter ::
    "'h ops_tables \<Rightarrow> u32 \<Rightarrow> uncore_box_type \<Rightarrow> uncore_box \<Rightarrow> u64 \<Rightarrow> 'h \<Rightarrow> 'h" where
  "uncore_write_counter T cpu ty box v h =
     (case write_counter (T (ops ty)) of None \<Rightarrow> h | Some f \<Rightarrow> f cpu ty box v h)"

definition uncore_read_counter ::
    "'h ops_tables \<Rightarrow> u32 \<Rightarrow> uncore_box_type \<Rightarrow> uncore_box \<Rightarrow> 'h \<Rightarrow> u64 \<Rightarrow> u64" where
  "uncore_read_counter T cpu ty box h old =
     (case read_counter (T (ops ty)) of None \<Rightarrow> old | Some f \<Rightarrow> f cpu ty box h)"

definition uncore_write_filter ::
    "'h ops_tables \<Rightarrow> u32 \<Rightarrow> uncore_box_type \<Rightarrow> uncore_box \<Rightarrow> u64 \<Rightarrow> 'h \<Rightarrow> 'h" where
  "uncore_write_filter T cpu ty box v h =
     (case write_filter (T (ops ty)) of None \<Rightarrow> h | Some f \<Rightarrow> f cpu ty box v h)"

definition uncore_read_filter ::
    "'h ops_tables \<Rightarrow> u32 \<Rightarrow> uncore_box_type \<Rightarrow> uncore_box \<Rightarrow> 'h \<Rightarrow> u64 \<Rightarrow> u64" where
  "uncore_read_filter T cpu ty box h old =
     (case read_filter (T (ops ty)) of None \<Rightarrow> old | Some f \<Rightarrow> f cpu ty box h)"

lemmas box_api_defs =
  uncore_show_box_def uncore_init_box_def uncore_clear_box_def uncore_enable_box_def
  uncore_disable_box_def uncore_enable_event_def uncore_disable_event_def
  uncore_write_counter_def uncore_read_counter_def uncore_write_filter_def
  uncore_read_filter_def

section \<open>Counter masks and driver data\<close>

lemma uncore_box_ctr_mask_eq: "uncore_box_ctr_mask ty = mask (unat (perf_ctr_bits ty))"
  by (simp add: uncore_box_ctr_mask_def mask_eq_exp_minus_1 push_bit_eq_mult)

lemma uncore_box_ctr_mask_48 [bits]:
  "perf_ctr_bits ty = 48 \<Longrightarrow> uncore_box_ctr_mask ty = mask 48"
  by (simp add: uncore_box_ctr_mask_eq)

lemma pci_dev_type_data:
  assumes "t < 256" "i < 256"
  shows "UNCORE_PCI_DEV_TYPE (UNCORE_PCI_DEV_DATA t i) = t"
    and "UNCORE_PCI_DEV_IDX (UNCORE_PCI_DEV_DATA t i) = i"
proof -
  have m: "(0xFF :: u64) = mask 8" by (simp add: mask_eq_exp_minus_1)
  have b: "bit w n \<Longrightarrow> n < 8" if "w < 256" for w :: u64 and n
    using that word_bit_bound [of w 8 n] by simp
  show "UNCORE_PCI_DEV_TYPE (UNCORE_PCI_DEV_DATA t i) = t"
    unfolding UNCORE_PCI_DEV_TYPE_def UNCORE_PCI_DEV_DATA_def m
    by (rule bit_word_eqI) (auto simp: bit_simps dest: b [OF assms(1)] b [OF assms(2)])
  show "UNCORE_PCI_DEV_IDX (UNCORE_PCI_DEV_DATA t i) = i"
    unfolding UNCORE_PCI_DEV_IDX_def UNCORE_PCI_DEV_DATA_def m
    by (rule bit_word_eqI) (auto simp: bit_simps dest: b [OF assms(1)] b [OF assms(2)])
qed

end
