(* ===== verification/Box_Contract.thy ===== *)
theory Box_Contract
  imports Uncore_Types
begin

text \<open>
  The contract of one monitoring box: what a client of the generic box API relies on. The
  locale \<open>pmon_box\<close> fixes the methods of a box as functions on the hardware state and an
  observation \<open>frozen\<close>; its laws say what freezing, unfreezing, resetting and writing do to
  the counter. \<open>pmon_counting\<close> adds the hardware's counting of events. The lemmas are the
  client's: what one sampling period (freeze, read, clear, unfreeze) does, and that over any
  interleaving of counting and sampling no event is lost or charged twice.
\<close>

section \<open>The interface\<close>

locale pmon_box =
  fixes initb :: "'h \<Rightarrow> 'h"
    and enableb :: "'h \<Rightarrow> 'h"
    and disableb :: "'h \<Rightarrow> 'h"
    and eventb :: "uncore_event \<Rightarrow> 'h \<Rightarrow> 'h"
    and writec :: "u64 \<Rightarrow> 'h \<Rightarrow> 'h"
    and readc :: "'h \<Rightarrow> u64"
    and frozen :: "'h \<Rightarrow> bool"
  assumes frozen_disable: "frozen (disableb h)"
    and frozen_enable: "\<not> frozen (enableb h)"
    and frozen_write: "frozen (writec v h) = frozen h"
    and frozen_event: "frozen (eventb e h) = frozen h"
    and read_disable: "readc (disableb h) = readc h"
    and read_enable: "readc (enableb h) = readc h"
    and read_event: "readc (eventb e h) = readc h"
    and read_write: "readc (writec v h) = v AND mask 48"
    and read_init: "readc (initb h) = 0"
    and read_bound: "readc h AND mask 48 = readc h"
begin

lemmas box_laws = frozen_disable frozen_enable frozen_write frozen_event read_disable
  read_enable read_event read_write read_init read_bound

text \<open>One sampling period of the timer: freeze, read, clear, unfreeze.\<close>

definition sample :: "'h \<Rightarrow> u64 \<times> 'h" where
  "sample h = (readc (disableb h), enableb (writec 0 (disableb h)))"

text \<open>The start of a monitoring session: reset, freeze, select the event, unfreeze.\<close>

definition session :: "uncore_event \<Rightarrow> 'h \<Rightarrow> 'h" where
  "session e h = enableb (eventb e (disableb (initb h)))"

lemma sample_reads: "fst (sample h) = readc h"
  by (simp add: sample_def read_disable)

lemma sample_clears: "readc (snd (sample h)) = 0"
  by (simp add: sample_def read_enable read_write)

lemma sample_runs: "\<not> frozen (snd (sample h))"
  by (simp add: sample_def frozen_enable)

lemma session_starts: "readc (session e h) = 0" "\<not> frozen (session e h)"
  by (simp_all add: session_def box_laws)

lemma read_less: "unat (readc h) < 2 ^ 48"
proof -
  have "readc h = take_bit 48 (readc h)"
    using read_bound [of h] by (simp add: take_bit_eq_mask)
  then have "unat (readc h) = take_bit 48 (unat (readc h))"
    by (metis unsigned_take_bit_eq)
  then show ?thesis by (metis take_bit_nat_less_exp)
qed

end

section \<open>Counting\<close>

text \<open>
  \<open>tick n\<close> is the hardware counting \<open>n\<close> events: a frozen counter keeps its value, a running
  one counts modulo its 48 bits.
\<close>

datatype box_step = Count nat | Sample

text \<open>The events that the running counter has seen since the last sample, at most
  \<open>2 ^ 48 - 1\<close> in every period: no period overflows the counter.\<close>

fun no_overflow :: "box_step list \<Rightarrow> nat \<Rightarrow> bool" where
  "no_overflow [] a = (a < 2 ^ 48)"
| "no_overflow (Count n # xs) a = no_overflow xs (a + n)"
| "no_overflow (Sample # xs) a = (a < 2 ^ 48 \<and> no_overflow xs 0)"

fun counted :: "box_step list \<Rightarrow> nat" where
  "counted [] = 0"
| "counted (Count n # xs) = n + counted xs"
| "counted (Sample # xs) = counted xs"

text \<open>The events of each completed period, the first with \<open>a\<close> events before it, and those after the
  last sample.\<close>

fun periods :: "box_step list \<Rightarrow> nat \<Rightarrow> nat list" where
  "periods [] a = []"
| "periods (Count n # xs) a = periods xs (a + n)"
| "periods (Sample # xs) a = a # periods xs 0"

fun unsampled :: "box_step list \<Rightarrow> nat \<Rightarrow> nat" where
  "unsampled [] a = a"
| "unsampled (Count n # xs) a = unsampled xs (a + n)"
| "unsampled (Sample # xs) a = unsampled xs 0"

lemma periods_account: "sum_list (periods xs a) + unsampled xs a = a + counted xs"
  by (induction xs a rule: periods.induct) simp_all

text \<open>When no period overflows the counter, reducing the events of a period changes nothing.\<close>

lemma no_overflow_periods:
  "no_overflow xs a \<Longrightarrow> (\<forall>n \<in> set (periods xs a). n < 2 ^ 48) \<and> unsampled xs a < 2 ^ 48"
  by (induction xs a rule: periods.induct) simp_all

locale pmon_counting = pmon_box +
  fixes tick :: "nat \<Rightarrow> 'a \<Rightarrow> 'a"
  assumes tick_frozen: "frozen h \<Longrightarrow> readc (tick n h) = readc h"
    and tick_running: "\<not> frozen h \<Longrightarrow> readc (tick n h) = (readc h + of_nat n) AND mask 48"
    and frozen_tick: "frozen (tick n h) = frozen h"
begin

text \<open>A run of counting and sampling: the final state and the sampled counts, in order.\<close>

fun box_run :: "box_step list \<Rightarrow> 'a \<Rightarrow> u64 list \<times> 'a" where
  "box_run [] h = ([], h)"
| "box_run (Count n # xs) h = box_run xs (tick n h)"
| "box_run (Sample # xs) h =
     (case sample h of (c, h1) \<Rightarrow> (case box_run xs h1 of (cs, h2) \<Rightarrow> (c # cs, h2)))"

lemma tick_wraps:
  assumes "\<not> frozen h"
  shows "unat (readc (tick n h)) = (unat (readc h) + n) mod 2 ^ 48"
proof -
  have "unat (readc (tick n h)) = take_bit 48 (unat (readc h + of_nat n))"
    using tick_running [OF assms, of n] by (simp add: unsigned_take_bit_eq flip: take_bit_eq_mask)
  also have "unat (readc h + of_nat n) = take_bit 64 (unat (readc h) + n)"
    by (simp add: unat_word_ariths unat_of_nat take_bit_eq_mod mod_simps)
  finally show ?thesis by (simp add: take_bit_eq_mod mod_mod_cancel)
qed

text \<open>Without any bound: a sample is what its period counted, modulo the width of the counter.\<close>

lemma run_wraps:
  "\<not> frozen h \<Longrightarrow> unat (readc h) = a mod 2 ^ 48 \<Longrightarrow>
     map unat (fst (box_run xs h)) = map (\<lambda>n. n mod 2 ^ 48) (periods xs a) \<and>
     unat (readc (snd (box_run xs h))) = unsampled xs a mod 2 ^ 48"
proof (induction xs a arbitrary: h rule: periods.induct)
  case (2 n xs a)
  have "unat (readc (tick n h)) = (a + n) mod 2 ^ 48"
    using tick_wraps [OF 2(2), of n] 2(3) by (simp add: mod_simps)
  with 2 show ?case by (simp add: frozen_tick)
next
  case (3 xs a)
  have "sample h = (readc h, snd (sample h))" by (simp add: prod_eq_iff sample_reads)
  with 3(1) [of "snd (sample h)"] 3(3) show ?case
    by (auto simp: sample_runs sample_clears split: prod.splits)
qed simp

end

end
