(* ===== verification/Hswep_Regs.thy ===== *)
theory Hswep_Regs
  imports Prelude
begin

text \<open>
  The register layout of the Haswell-EP uncore PMU, the \<open>#define\<close> block of
  \<open>uncore_hswep.c\<close>: control bits, MSR addresses and PCI configuration offsets. The
  collection \<open>regs\<close> unfolds them.
\<close>

unbundle bit_operations_syntax

named_theorems regs "definitions of the register constants"

section \<open>MSR box-level control\<close>

definition HSWEP_MSR_BOX_CTL_RST_CTRL :: u32 where [regs]:
  "HSWEP_MSR_BOX_CTL_RST_CTRL =
     push_bit 0 1"
definition HSWEP_MSR_BOX_CTL_RST_CTRS :: u32 where [regs]:
  "HSWEP_MSR_BOX_CTL_RST_CTRS =
     push_bit 1 1"
definition HSWEP_MSR_BOX_CTL_FRZ :: u32 where [regs]: "HSWEP_MSR_BOX_CTL_FRZ = push_bit 8 1"
definition HSWEP_MSR_BOX_CTL_INIT :: u32 where [regs]:
  "HSWEP_MSR_BOX_CTL_INIT =
     HSWEP_MSR_BOX_CTL_RST_CTRL OR
     HSWEP_MSR_BOX_CTL_RST_CTRS"

section \<open>MSR counter-level control\<close>

definition HSWEP_MSR_EVNTSEL_EVENT :: u32 where [regs]: "HSWEP_MSR_EVNTSEL_EVENT = 0x000000FF"
definition HSWEP_MSR_EVNTSEL_UMASK :: u32 where [regs]: "HSWEP_MSR_EVNTSEL_UMASK = 0x0000FF00"
definition HSWEP_MSR_EVNTSEL_RST :: u32 where [regs]: "HSWEP_MSR_EVNTSEL_RST = push_bit 17 1"
definition HSWEP_MSR_EVNTSEL_EDGE_DET :: u32 where [regs]:
  "HSWEP_MSR_EVNTSEL_EDGE_DET =
     push_bit 18 1"
definition HSWEP_MSR_EVNTSEL_TID_EN :: u32 where [regs]:
  "HSWEP_MSR_EVNTSEL_TID_EN =
     push_bit 19 1"
definition HSWEP_MSR_EVNTSEL_EN :: u32 where [regs]: "HSWEP_MSR_EVNTSEL_EN = push_bit 22 1"
definition HSWEP_MSR_EVNTSEL_INVERT :: u32 where [regs]:
  "HSWEP_MSR_EVNTSEL_INVERT =
     push_bit 23 1"
definition HSWEP_MSR_EVNTSEL_THRESHOLD :: u32 where [regs]:
  "HSWEP_MSR_EVNTSEL_THRESHOLD =
     0xFF000000"
definition HSWEP_MSR_RAW_EVNTSEL_MASK :: u32 where [regs]:
  "HSWEP_MSR_RAW_EVNTSEL_MASK =
     HSWEP_MSR_EVNTSEL_EVENT OR
     HSWEP_MSR_EVNTSEL_UMASK OR
     HSWEP_MSR_EVNTSEL_EDGE_DET OR
     HSWEP_MSR_EVNTSEL_INVERT OR
     HSWEP_MSR_EVNTSEL_THRESHOLD"

section \<open>PCI box-level control\<close>

definition HSWEP_PCI_BOX_CTL_FRZ :: u32 where [regs]:
  "HSWEP_PCI_BOX_CTL_FRZ =
     HSWEP_MSR_BOX_CTL_FRZ"
definition HSWEP_PCI_BOX_CTL_INIT :: u32 where [regs]:
  "HSWEP_PCI_BOX_CTL_INIT =
     HSWEP_MSR_BOX_CTL_INIT"

section \<open>PCI counter-level control\<close>

definition HSWEP_PCI_EVNTSEL_EVENT :: u32 where [regs]: "HSWEP_PCI_EVNTSEL_EVENT = 0x000000FF"
definition HSWEP_PCI_EVNTSEL_UMASK :: u32 where [regs]: "HSWEP_PCI_EVNTSEL_UMASK = 0x0000FF00"
definition HSWEP_PCI_EVNTSEL_RST :: u32 where [regs]: "HSWEP_PCI_EVNTSEL_RST = push_bit 17 1"
definition HSWEP_PCI_EVNTSEL_EDGE_DET :: u32 where [regs]:
  "HSWEP_PCI_EVNTSEL_EDGE_DET =
     push_bit 18 1"
definition HSWEP_PCI_EVNTSEL_OV_EN :: u32 where [regs]: "HSWEP_PCI_EVNTSEL_OV_EN = push_bit 20 1"
definition HSWEP_PCI_EVNTSEL_EN :: u32 where [regs]: "HSWEP_PCI_EVNTSEL_EN = push_bit 22 1"
definition HSWEP_PCI_EVNTSEL_INVERT :: u32 where [regs]:
  "HSWEP_PCI_EVNTSEL_INVERT =
     push_bit 23 1"
definition HSWEP_PCI_EVNTSEL_THRESHOLD :: u32 where [regs]:
  "HSWEP_PCI_EVNTSEL_THRESHOLD =
     0xFF000000"
definition HSWEP_PCI_RAW_EVNTSEL_MASK :: u32 where [regs]:
  "HSWEP_PCI_RAW_EVNTSEL_MASK =
     HSWEP_PCI_EVNTSEL_EVENT OR
     HSWEP_PCI_EVNTSEL_UMASK OR
     HSWEP_PCI_EVNTSEL_EDGE_DET OR
     HSWEP_PCI_EVNTSEL_OV_EN OR
     HSWEP_PCI_EVNTSEL_INVERT OR
     HSWEP_PCI_EVNTSEL_THRESHOLD"

section \<open>Global per-socket MSRs\<close>

definition HSWEP_MSR_PMON_GLOBAL_CTL :: u32 where [regs]: "HSWEP_MSR_PMON_GLOBAL_CTL = 0x700"
definition HSWEP_MSR_PMON_GLOBAL_STATUS :: u32 where [regs]:
  "HSWEP_MSR_PMON_GLOBAL_STATUS =
     0x701"
definition HSWEP_MSR_PMON_GLOBAL_CONFIG :: u32 where [regs]:
  "HSWEP_MSR_PMON_GLOBAL_CONFIG =
     0x702"

section \<open>U-box\<close>

definition HSWEP_MSR_U_PMON_BOX_STATUS :: u32 where [regs]: "HSWEP_MSR_U_PMON_BOX_STATUS = 0x708"
definition HSWEP_MSR_U_PMON_UCLK_FIXED_CTL :: u32 where [regs]:
  "HSWEP_MSR_U_PMON_UCLK_FIXED_CTL =
     0x703"
definition HSWEP_MSR_U_PMON_UCLK_FIXED_CTR :: u32 where [regs]:
  "HSWEP_MSR_U_PMON_UCLK_FIXED_CTR =
     0x704"
definition HSWEP_MSR_U_PMON_EVNTSEL0 :: u32 where [regs]: "HSWEP_MSR_U_PMON_EVNTSEL0 = 0x705"
definition HSWEP_MSR_U_PMON_CTR0 :: u32 where [regs]: "HSWEP_MSR_U_PMON_CTR0 = 0x709"

section \<open>PCU-box\<close>

definition HSWEP_MSR_PCU_PMON_BOX_CTL :: u32 where [regs]: "HSWEP_MSR_PCU_PMON_BOX_CTL = 0x710"
definition HSWEP_MSR_PCU_PMON_BOX_FILTER :: u32 where [regs]:
  "HSWEP_MSR_PCU_PMON_BOX_FILTER =
     0x715"
definition HSWEP_MSR_PCU_PMON_BOX_STATUS :: u32 where [regs]:
  "HSWEP_MSR_PCU_PMON_BOX_STATUS =
     0x716"
definition HSWEP_MSR_PCU_PMON_EVNTSEL0 :: u32 where [regs]: "HSWEP_MSR_PCU_PMON_EVNTSEL0 = 0x711"
definition HSWEP_MSR_PCU_PMON_CTR0 :: u32 where [regs]: "HSWEP_MSR_PCU_PMON_CTR0 = 0x717"

section \<open>S-box\<close>

definition HSWEP_MSR_S_PMON_BOX_CTL :: u32 where [regs]: "HSWEP_MSR_S_PMON_BOX_CTL = 0x720"
definition HSWEP_MSR_S_PMON_BOX_STATUS :: u32 where [regs]: "HSWEP_MSR_S_PMON_BOX_STATUS = 0x725"
definition HSWEP_MSR_S_PMON_EVNTSEL0 :: u32 where [regs]: "HSWEP_MSR_S_PMON_EVNTSEL0 = 0x721"
definition HSWEP_MSR_S_PMON_CTR0 :: u32 where [regs]: "HSWEP_MSR_S_PMON_CTR0 = 0x726"
definition HSWEP_MSR_S_MSR_OFFSET :: u32 where [regs]: "HSWEP_MSR_S_MSR_OFFSET = 0xA"

section \<open>C-box\<close>

definition HSWEP_MSR_C_PMON_BOX_CTL :: u32 where [regs]: "HSWEP_MSR_C_PMON_BOX_CTL = 0xE00"
definition HSWEP_MSR_C_PMON_BOX_FILTER0 :: u32 where [regs]:
  "HSWEP_MSR_C_PMON_BOX_FILTER0 =
     0xE05"
definition HSWEP_MSR_C_PMON_BOX_FILTER1 :: u32 where [regs]:
  "HSWEP_MSR_C_PMON_BOX_FILTER1 =
     0xE06"
definition HSWEP_MSR_C_PMON_BOX_STATUS :: u32 where [regs]: "HSWEP_MSR_C_PMON_BOX_STATUS = 0xE07"
definition HSWEP_MSR_C_PMON_EVNTSEL0 :: u32 where [regs]: "HSWEP_MSR_C_PMON_EVNTSEL0 = 0xE01"
definition HSWEP_MSR_C_PMON_CTR0 :: u32 where [regs]: "HSWEP_MSR_C_PMON_CTR0 = 0xE08"
definition HSWEP_MSR_C_MSR_OFFSET :: u32 where [regs]: "HSWEP_MSR_C_MSR_OFFSET = 0x10"
definition HSWEP_MSR_C_EVENTSEL_MASK :: u32 where [regs]:
  "HSWEP_MSR_C_EVENTSEL_MASK =
     HSWEP_MSR_RAW_EVNTSEL_MASK OR
     HSWEP_MSR_EVNTSEL_TID_EN"

section \<open>Home agent\<close>

definition HSWEP_PCI_HA_PMON_BOX_STATUS :: u32 where [regs]: "HSWEP_PCI_HA_PMON_BOX_STATUS = 0xF8"
definition HSWEP_PCI_HA_PMON_BOX_CTL :: u32 where [regs]: "HSWEP_PCI_HA_PMON_BOX_CTL = 0xF4"
definition HSWEP_PCI_HA_PMON_CTL0 :: u32 where [regs]: "HSWEP_PCI_HA_PMON_CTL0 = 0xD8"
definition HSWEP_PCI_HA_PMON_CTR0 :: u32 where [regs]: "HSWEP_PCI_HA_PMON_CTR0 = 0xA0"

section \<open>Memory controller\<close>

definition HSWEP_PCI_IMC_PMON_BOX_STATUS :: u32 where [regs]:
  "HSWEP_PCI_IMC_PMON_BOX_STATUS =
     0xF8"
definition HSWEP_PCI_IMC_PMON_BOX_CTL :: u32 where [regs]: "HSWEP_PCI_IMC_PMON_BOX_CTL = 0xF4"
definition HSWEP_PCI_IMC_PMON_CTL0 :: u32 where [regs]: "HSWEP_PCI_IMC_PMON_CTL0 = 0xD8"
definition HSWEP_PCI_IMC_PMON_CTR0 :: u32 where [regs]: "HSWEP_PCI_IMC_PMON_CTR0 = 0xA0"
definition HSWEP_PCI_IMC_PMON_FIXED_CTL :: u32 where [regs]: "HSWEP_PCI_IMC_PMON_FIXED_CTL = 0xF0"
definition HSWEP_PCI_IMC_PMON_FIXED_CTR :: u32 where [regs]: "HSWEP_PCI_IMC_PMON_FIXED_CTR = 0xD0"

section \<open>IRP\<close>

definition HSWEP_PCI_IRP_PMON_BOX_STATUS :: u32 where [regs]:
  "HSWEP_PCI_IRP_PMON_BOX_STATUS =
     0xF8"
definition HSWEP_PCI_IRP_PMON_BOX_CTL :: u32 where [regs]: "HSWEP_PCI_IRP_PMON_BOX_CTL = 0xF4"

section \<open>QPI\<close>

definition HSWEP_PCI_QPI_PMON_BOX_STATUS :: u32 where [regs]:
  "HSWEP_PCI_QPI_PMON_BOX_STATUS =
     0xF8"
definition HSWEP_PCI_QPI_PMON_BOX_CTL :: u32 where [regs]: "HSWEP_PCI_QPI_PMON_BOX_CTL = 0xF4"
definition HSWEP_PCI_QPI_PMON_CTL0 :: u32 where [regs]: "HSWEP_PCI_QPI_PMON_CTL0 = 0xD8"
definition HSWEP_PCI_QPI_PMON_CTR0 :: u32 where [regs]: "HSWEP_PCI_QPI_PMON_CTR0 = 0xA0"

section \<open>R2PCIE\<close>

definition HSWEP_PCI_R2PCIE_PMON_BOX_STATUS :: u32 where [regs]:
  "HSWEP_PCI_R2PCIE_PMON_BOX_STATUS =
     0xF8"
definition HSWEP_PCI_R2PCIE_PMON_BOX_CTL :: u32 where [regs]:
  "HSWEP_PCI_R2PCIE_PMON_BOX_CTL =
     0xF4"
definition HSWEP_PCI_R2PCIE_PMON_CTL0 :: u32 where [regs]: "HSWEP_PCI_R2PCIE_PMON_CTL0 = 0xD8"
definition HSWEP_PCI_R2PCIE_PMON_CTR0 :: u32 where [regs]: "HSWEP_PCI_R2PCIE_PMON_CTR0 = 0xA0"

section \<open>R3QPI\<close>

definition HSWEP_PCI_R3QPI_PMON_BOX_STATUS :: u32 where [regs]:
  "HSWEP_PCI_R3QPI_PMON_BOX_STATUS =
     0xF8"
definition HSWEP_PCI_R3QPI_PMON_BOX_CTL :: u32 where [regs]: "HSWEP_PCI_R3QPI_PMON_BOX_CTL = 0xF4"
definition HSWEP_PCI_R3QPI_PMON_CTL0 :: u32 where [regs]: "HSWEP_PCI_R3QPI_PMON_CTL0 = 0xD8"
definition HSWEP_PCI_R3QPI_PMON_CTR0 :: u32 where [regs]: "HSWEP_PCI_R3QPI_PMON_CTR0 = 0xA0"


section \<open>The control bits, as bits\<close>

lemma bit_FRZ [bits]:
  "bit HSWEP_MSR_BOX_CTL_FRZ n \<longleftrightarrow> n = 8" "bit HSWEP_PCI_BOX_CTL_FRZ n \<longleftrightarrow> n = 8"
  unfolding regs bit_push_bit_iff bit_1_iff by auto

lemma bit_INIT [bits]:
  "bit HSWEP_MSR_BOX_CTL_INIT n \<longleftrightarrow> n < 2" "bit HSWEP_PCI_BOX_CTL_INIT n \<longleftrightarrow> n < 2"
  unfolding regs bit_or_iff bit_push_bit_iff bit_1_iff by auto

end
