(* ===== verification/Hswep_Box.thy ===== *)
theory Hswep_Box
  imports Box_Contract Hswep_Regs
begin

text \<open>
  The Haswell-EP box methods and box types of \<open>uncore_hswep.c\<close>. First the MSR methods and
  the four MSR box types, then the PCI methods and the six PCI box types, in the order of
  the file. The locales \<open>pmon_msr\<close> and \<open>pmon_pci\<close> state what the manual documents of a box's
  registers; under them the methods satisfy the contract \<open>pmon_box\<close> (two \<open>sublocale\<close>s).
\<close>

section \<open>MSR boxes\<close>

text \<open>\<open>config &= ~FRZ\<close> on a 64-bit \<open>config\<close>: the complement is taken on \<open>int\<close> and its sign
  extended. \<open>config |= FRZ\<close> and the value of the initial write are zero extended.\<close>

definition hswep_uncore_msr_show_box ::
    "'h platform \<Rightarrow> u32 \<Rightarrow> uncore_box_type \<Rightarrow> uncore_box \<Rightarrow> 'h \<Rightarrow> u64 list" where
  "hswep_uncore_msr_show_box P cpu ty box h =
     [rdmsr P h cpu (uncore_msr_box_ctl ty box),
      rdmsr P h cpu (uncore_msr_box_status ty box),
      rdmsr P h cpu (uncore_msr_perf_ctl ty box),
      rdmsr P h cpu (uncore_msr_perf_ctr ty box)]"

definition hswep_uncore_msr_init_box ::
    "'h platform \<Rightarrow> u32 \<Rightarrow> uncore_box_type \<Rightarrow> uncore_box \<Rightarrow> 'h \<Rightarrow> 'h" where
  "hswep_uncore_msr_init_box P cpu ty box h =
     (let msr = uncore_msr_box_ctl ty box
      in if msr \<noteq> 0 then wrmsr P cpu msr (ucast HSWEP_MSR_BOX_CTL_INIT) h else h)"

definition hswep_uncore_msr_enable_box ::
    "'h platform \<Rightarrow> u32 \<Rightarrow> uncore_box_type \<Rightarrow> uncore_box \<Rightarrow> 'h \<Rightarrow> 'h" where
  "hswep_uncore_msr_enable_box P cpu ty box h =
     (let msr = uncore_msr_box_ctl ty box
      in if msr \<noteq> 0
         then let config = rdmsr P h cpu msr;
                  config = config AND scast (NOT HSWEP_MSR_BOX_CTL_FRZ)
              in wrmsr P cpu msr config h
         else h)"

definition hswep_uncore_msr_disable_box ::
    "'h platform \<Rightarrow> u32 \<Rightarrow> uncore_box_type \<Rightarrow> uncore_box \<Rightarrow> 'h \<Rightarrow> 'h" where
  "hswep_uncore_msr_disable_box P cpu ty box h =
     (let msr = uncore_msr_box_ctl ty box
      in if msr \<noteq> 0
         then let config = rdmsr P h cpu msr;
                  config = config OR ucast HSWEP_MSR_BOX_CTL_FRZ
              in wrmsr P cpu msr config h
         else h)"

definition hswep_uncore_msr_enable_event ::
    "'h platform \<Rightarrow> u32 \<Rightarrow> uncore_box_type \<Rightarrow> uncore_box \<Rightarrow> uncore_event \<Rightarrow> 'h \<Rightarrow> 'h" where
  "hswep_uncore_msr_enable_event P cpu ty box ev h =
     wrmsr P cpu (uncore_msr_perf_ctl ty box) (ev_disable ev) h"

definition hswep_uncore_msr_disable_event ::
    "'h platform \<Rightarrow> u32 \<Rightarrow> uncore_box_type \<Rightarrow> uncore_box \<Rightarrow> uncore_event \<Rightarrow> 'h \<Rightarrow> 'h" where
  "hswep_uncore_msr_disable_event P cpu ty box ev h =
     wrmsr P cpu (uncore_msr_perf_ctl ty box) (ev_enable ev) h"

definition hswep_uncore_msr_write_counter ::
    "'h platform \<Rightarrow> u32 \<Rightarrow> uncore_box_type \<Rightarrow> uncore_box \<Rightarrow> u64 \<Rightarrow> 'h \<Rightarrow> 'h" where
  "hswep_uncore_msr_write_counter P cpu ty box v h =
     wrmsr P cpu (uncore_msr_perf_ctr ty box) (v AND uncore_box_ctr_mask ty) h"

definition hswep_uncore_msr_read_counter ::
    "'h platform \<Rightarrow> u32 \<Rightarrow> uncore_box_type \<Rightarrow> uncore_box \<Rightarrow> 'h \<Rightarrow> u64" where
  "hswep_uncore_msr_read_counter P cpu ty box h =
     rdmsr P h cpu (uncore_msr_perf_ctr ty box) AND uncore_box_ctr_mask ty"

definition HSWEP_UNCORE_MSR_BOX_OPS :: "'h platform \<Rightarrow> 'h uncore_box_ops" where
  "HSWEP_UNCORE_MSR_BOX_OPS P =
     \<lparr>show_box = Some (hswep_uncore_msr_show_box P),
      init_box = Some (hswep_uncore_msr_init_box P),
      clear_box = Some (hswep_uncore_msr_init_box P),
      enable_box = Some (hswep_uncore_msr_enable_box P),
      disable_box = Some (hswep_uncore_msr_disable_box P),
      enable_event = Some (hswep_uncore_msr_enable_event P),
      disable_event = Some (hswep_uncore_msr_disable_event P),
      write_counter = Some (hswep_uncore_msr_write_counter P),
      read_counter = Some (hswep_uncore_msr_read_counter P),
      write_filter = None,
      read_filter = None\<rparr>"

lemmas msr_method_defs =
  hswep_uncore_msr_init_box_def hswep_uncore_msr_enable_box_def
  hswep_uncore_msr_disable_box_def hswep_uncore_msr_enable_event_def
  hswep_uncore_msr_disable_event_def hswep_uncore_msr_write_counter_def
  hswep_uncore_msr_read_counter_def

text \<open>The members a designated initialiser leaves out are zero.\<close>

definition zeroed_box_type :: "ops_ref \<Rightarrow> uncore_box_type" where
  "zeroed_box_type t =
     \<lparr>ty_name = [], num_counters = 0, num_boxes = 0, perf_ctr_bits = 0, perf_ctr = 0,
      perf_ctl = 0, event_mask = 0, fixed_ctr_bits = 0, fixed_ctr = 0, fixed_ctl = 0,
      box_ctl = 0, box_status = 0, box_filter0 = 0, box_filter1 = 0, msr_offset = 0,
      box_list = None, ops = t\<rparr>"

definition HSWEP_UNCORE_UBOX :: uncore_box_type where
  "HSWEP_UNCORE_UBOX = (zeroed_box_type HSWEP_UNCORE_UBOX_OPS)
     \<lparr>ty_name := ''U-BOX'', num_counters := 2, num_boxes := 1, perf_ctr_bits := 48,
      perf_ctr := HSWEP_MSR_U_PMON_CTR0, perf_ctl := HSWEP_MSR_U_PMON_EVNTSEL0,
      event_mask := 0, fixed_ctr_bits := 48, fixed_ctr := HSWEP_MSR_U_PMON_UCLK_FIXED_CTR,
      fixed_ctl := HSWEP_MSR_U_PMON_UCLK_FIXED_CTL,
      box_status := HSWEP_MSR_U_PMON_BOX_STATUS\<rparr>"

definition HSWEP_UNCORE_PCUBOX :: uncore_box_type where
  "HSWEP_UNCORE_PCUBOX = (zeroed_box_type HSWEP_UNCORE_PCUBOX_OPS)
     \<lparr>ty_name := ''PCU-BOX'', num_counters := 4, num_boxes := 1, perf_ctr_bits := 48,
      perf_ctr := HSWEP_MSR_PCU_PMON_CTR0, perf_ctl := HSWEP_MSR_PCU_PMON_EVNTSEL0,
      event_mask := 0, box_ctl := HSWEP_MSR_PCU_PMON_BOX_CTL,
      box_status := HSWEP_MSR_PCU_PMON_BOX_STATUS,
      box_filter0 := HSWEP_MSR_PCU_PMON_BOX_FILTER\<rparr>"

definition HSWEP_UNCORE_SBOX :: uncore_box_type where
  "HSWEP_UNCORE_SBOX = (zeroed_box_type HSWEP_UNCORE_SBOX_OPS)
     \<lparr>ty_name := ''S-BOX'', num_counters := 4, num_boxes := 4, perf_ctr_bits := 48,
      perf_ctr := HSWEP_MSR_S_PMON_CTR0, perf_ctl := HSWEP_MSR_S_PMON_EVNTSEL0,
      event_mask := 0, box_ctl := HSWEP_MSR_S_PMON_BOX_CTL,
      box_status := HSWEP_MSR_S_PMON_BOX_STATUS, msr_offset := HSWEP_MSR_S_MSR_OFFSET\<rparr>"

definition HSWEP_UNCORE_CBOX :: uncore_box_type where
  "HSWEP_UNCORE_CBOX = (zeroed_box_type HSWEP_UNCORE_CBOX_OPS)
     \<lparr>ty_name := ''C-BOX'', num_counters := 4, num_boxes := 18, perf_ctr_bits := 48,
      perf_ctr := HSWEP_MSR_C_PMON_CTR0, perf_ctl := HSWEP_MSR_C_PMON_EVNTSEL0,
      event_mask := HSWEP_MSR_C_EVENTSEL_MASK, box_ctl := HSWEP_MSR_C_PMON_BOX_CTL,
      box_status := HSWEP_MSR_C_PMON_BOX_STATUS, box_filter0 := HSWEP_MSR_C_PMON_BOX_FILTER0,
      box_filter1 := HSWEP_MSR_C_PMON_BOX_FILTER1, msr_offset := HSWEP_MSR_C_MSR_OFFSET\<rparr>"

text \<open>The array \<open>HSWEP_UNCORE_MSR_TYPE\<close> without its terminating \<open>NULL\<close>, as the types it points
  to, and as the array of pointers.\<close>

definition HSWEP_UNCORE_MSR_BOXES :: "uncore_box_type list" where
  "HSWEP_UNCORE_MSR_BOXES =
     [HSWEP_UNCORE_UBOX, HSWEP_UNCORE_PCUBOX, HSWEP_UNCORE_SBOX, HSWEP_UNCORE_CBOX]"

definition HSWEP_UNCORE_MSR_TYPE :: "type_ref list" where
  "HSWEP_UNCORE_MSR_TYPE =
     map Msr_type [UNCORE_MSR_UBOX_ID, UNCORE_MSR_PCUBOX_ID, UNCORE_MSR_SBOX_ID,
       UNCORE_MSR_CBOX_ID]"

section \<open>PCI boxes\<close>

text \<open>A PCI method uses \<open>box->pdev\<close>, which the PCI initialisation sets in every box of a PCI
  type (\<open>box_ok\<close> in theory \<open>Uncore_Pmu\<close>).\<close>

abbreviation dev_of :: "uncore_box \<Rightarrow> pdev" where
  "dev_of box \<equiv> the (pdev box)"

definition hswep_uncore_pci_show_box ::
    "'h platform \<Rightarrow> u32 \<Rightarrow> uncore_box_type \<Rightarrow> uncore_box \<Rightarrow> 'h \<Rightarrow> u64 list" where
  "hswep_uncore_pci_show_box P cpu ty box h =
     (let d = dev_of box;
          config1 = snd (pci_read_config_dword P h d (uncore_pci_box_ctl ty) (stack_junk32 P));
          config2 = snd (pci_read_config_dword P h d (uncore_pci_box_status ty) config1);
          config3 = snd (pci_read_config_dword P h d (uncore_pci_perf_ctl ty) config2);
          low = snd (pci_read_config_dword P h d (uncore_pci_perf_ctr ty) (stack_junk32 P));
          high = snd (pci_read_config_dword P h d (uncore_pci_perf_ctr ty + 4) (stack_junk32 P))
      in [ucast config1, ucast config2, ucast config3, ucast high, ucast low,
          push_bit 32 (ucast high) OR ucast low])"

definition hswep_uncore_pci_init_box ::
    "'h platform \<Rightarrow> u32 \<Rightarrow> uncore_box_type \<Rightarrow> uncore_box \<Rightarrow> 'h \<Rightarrow> 'h" where
  "hswep_uncore_pci_init_box P cpu ty box h =
     (let h1 = pci_write_config_dword P (dev_of box) (uncore_pci_box_ctl ty) HSWEP_PCI_BOX_CTL_INIT h
      in pci_write_config_dword P (dev_of box) (uncore_pci_box_status ty) 0xf h1)"

definition hswep_uncore_pci_enable_box ::
    "'h platform \<Rightarrow> u32 \<Rightarrow> uncore_box_type \<Rightarrow> uncore_box \<Rightarrow> 'h \<Rightarrow> 'h" where
  "hswep_uncore_pci_enable_box P cpu ty box h =
     (let d = dev_of box; ctl = uncore_pci_box_ctl ty;
          (err, config) = pci_read_config_dword P h d ctl 0
      in if err = 0
         then pci_write_config_dword P d ctl (config AND NOT HSWEP_PCI_BOX_CTL_FRZ) h
         else h)"

definition hswep_uncore_pci_disable_box ::
    "'h platform \<Rightarrow> u32 \<Rightarrow> uncore_box_type \<Rightarrow> uncore_box \<Rightarrow> 'h \<Rightarrow> 'h" where
  "hswep_uncore_pci_disable_box P cpu ty box h =
     (let d = dev_of box; ctl = uncore_pci_box_ctl ty;
          (err, config) = pci_read_config_dword P h d ctl 0
      in if err = 0
         then pci_write_config_dword P d ctl (config OR HSWEP_PCI_BOX_CTL_FRZ) h
         else h)"

definition hswep_uncore_pci_enable_event ::
    "'h platform \<Rightarrow> u32 \<Rightarrow> uncore_box_type \<Rightarrow> uncore_box \<Rightarrow> uncore_event \<Rightarrow> 'h \<Rightarrow> 'h" where
  "hswep_uncore_pci_enable_event P cpu ty box ev h =
     pci_write_config_dword P (dev_of box) (uncore_pci_perf_ctl ty) (ucast (ev_enable ev)) h"

definition hswep_uncore_pci_disable_event ::
    "'h platform \<Rightarrow> u32 \<Rightarrow> uncore_box_type \<Rightarrow> uncore_box \<Rightarrow> uncore_event \<Rightarrow> 'h \<Rightarrow> 'h" where
  "hswep_uncore_pci_disable_event P cpu ty box ev h =
     pci_write_config_dword P (dev_of box) (uncore_pci_perf_ctl ty) (ucast (ev_disable ev)) h"

definition hswep_uncore_pci_write_counter ::
    "'h platform \<Rightarrow> u32 \<Rightarrow> uncore_box_type \<Rightarrow> uncore_box \<Rightarrow> u64 \<Rightarrow> 'h \<Rightarrow> 'h" where
  "hswep_uncore_pci_write_counter P cpu ty box v h =
     (let low = ucast (v AND 0xffffffff) :: u32;
          high = ucast (drop_bit 32 (v AND uncore_box_ctr_mask ty)) :: u32;
          h1 = pci_write_config_dword P (dev_of box) (uncore_pci_perf_ctr ty) low h
      in pci_write_config_dword P (dev_of box) (uncore_pci_perf_ctr ty + 4) high h1)"

definition hswep_uncore_pci_read_counter ::
    "'h platform \<Rightarrow> u32 \<Rightarrow> uncore_box_type \<Rightarrow> uncore_box \<Rightarrow> 'h \<Rightarrow> u64" where
  "hswep_uncore_pci_read_counter P cpu ty box h =
     (let low = snd (pci_read_config_dword P h (dev_of box) (uncore_pci_perf_ctr ty) (stack_junk32 P));
          high = snd (pci_read_config_dword P h (dev_of box) (uncore_pci_perf_ctr ty + 4) (stack_junk32 P));
          v = push_bit 32 (ucast high) OR ucast low
      in v AND uncore_box_ctr_mask ty)"

definition HSWEP_UNCORE_PCI_BOX_OPS :: "'h platform \<Rightarrow> 'h uncore_box_ops" where
  "HSWEP_UNCORE_PCI_BOX_OPS P =
     \<lparr>show_box = Some (hswep_uncore_pci_show_box P),
      init_box = Some (hswep_uncore_pci_init_box P),
      clear_box = Some (hswep_uncore_pci_init_box P),
      enable_box = Some (hswep_uncore_pci_enable_box P),
      disable_box = Some (hswep_uncore_pci_disable_box P),
      enable_event = Some (hswep_uncore_pci_enable_event P),
      disable_event = Some (hswep_uncore_pci_disable_event P),
      write_counter = Some (hswep_uncore_pci_write_counter P),
      read_counter = Some (hswep_uncore_pci_read_counter P),
      write_filter = None,
      read_filter = None\<rparr>"

lemmas pci_method_defs =
  hswep_uncore_pci_init_box_def hswep_uncore_pci_enable_box_def
  hswep_uncore_pci_disable_box_def hswep_uncore_pci_enable_event_def
  hswep_uncore_pci_disable_event_def hswep_uncore_pci_write_counter_def
  hswep_uncore_pci_read_counter_def

text \<open>The ten constant ops tables.\<close>

definition is_msr_ops :: "ops_ref \<Rightarrow> bool" where
  "is_msr_ops r \<longleftrightarrow>
     r \<in> {HSWEP_UNCORE_UBOX_OPS, HSWEP_UNCORE_PCUBOX_OPS, HSWEP_UNCORE_SBOX_OPS,
          HSWEP_UNCORE_CBOX_OPS}"

definition hswep_ops :: "'h platform \<Rightarrow> 'h ops_tables" where
  "hswep_ops P r =
     (case r of
        HSWEP_UNCORE_UBOX_OPS \<Rightarrow> HSWEP_UNCORE_MSR_BOX_OPS P
      | HSWEP_UNCORE_PCUBOX_OPS \<Rightarrow> HSWEP_UNCORE_MSR_BOX_OPS P
      | HSWEP_UNCORE_SBOX_OPS \<Rightarrow> HSWEP_UNCORE_MSR_BOX_OPS P
      | HSWEP_UNCORE_CBOX_OPS \<Rightarrow> HSWEP_UNCORE_MSR_BOX_OPS P
      | HSWEP_UNCORE_HABOX_OPS \<Rightarrow> HSWEP_UNCORE_PCI_BOX_OPS P
      | HSWEP_UNCORE_IMCBOX_OPS \<Rightarrow> HSWEP_UNCORE_PCI_BOX_OPS P
      | HSWEP_UNCORE_IRPBOX_OPS \<Rightarrow> HSWEP_UNCORE_PCI_BOX_OPS P
      | HSWEP_UNCORE_QPIBOX_OPS \<Rightarrow> HSWEP_UNCORE_PCI_BOX_OPS P
      | HSWEP_UNCORE_R2PCIEBOX_OPS \<Rightarrow> HSWEP_UNCORE_PCI_BOX_OPS P
      | HSWEP_UNCORE_R3QPIBOX_OPS \<Rightarrow> HSWEP_UNCORE_PCI_BOX_OPS P)"

lemma hswep_ops_eq:
  "hswep_ops P r = (if is_msr_ops r then HSWEP_UNCORE_MSR_BOX_OPS P else HSWEP_UNCORE_PCI_BOX_OPS P)"
  by (cases r) (simp_all add: hswep_ops_def is_msr_ops_def)

definition HSWEP_UNCORE_HA :: uncore_box_type where
  "HSWEP_UNCORE_HA = (zeroed_box_type HSWEP_UNCORE_HABOX_OPS)
     \<lparr>ty_name := ''HA-Box'', num_counters := 5, num_boxes := 2, perf_ctr_bits := 48,
      perf_ctr := HSWEP_PCI_HA_PMON_CTR0, perf_ctl := HSWEP_PCI_HA_PMON_CTL0,
      event_mask := 0, box_ctl := HSWEP_PCI_HA_PMON_BOX_CTL,
      box_status := HSWEP_PCI_HA_PMON_BOX_STATUS\<rparr>"

definition HSWEP_UNCORE_IMC :: uncore_box_type where
  "HSWEP_UNCORE_IMC = (zeroed_box_type HSWEP_UNCORE_IMCBOX_OPS)
     \<lparr>ty_name := ''IMC-Box'', num_counters := 5, num_boxes := 8, perf_ctr_bits := 48,
      perf_ctr := HSWEP_PCI_IMC_PMON_CTR0, perf_ctl := HSWEP_PCI_IMC_PMON_CTL0,
      event_mask := 0, fixed_ctr_bits := 48, fixed_ctr := HSWEP_PCI_IMC_PMON_FIXED_CTR,
      fixed_ctl := HSWEP_PCI_IMC_PMON_FIXED_CTL, box_ctl := HSWEP_PCI_IMC_PMON_BOX_CTL,
      box_status := HSWEP_PCI_IMC_PMON_BOX_STATUS\<rparr>"

definition HSWEP_UNCORE_IRP :: uncore_box_type where
  "HSWEP_UNCORE_IRP = (zeroed_box_type HSWEP_UNCORE_IRPBOX_OPS)
     \<lparr>ty_name := ''IRP-Box'', num_counters := 4, num_boxes := 1,
      box_ctl := HSWEP_PCI_IRP_PMON_BOX_CTL, box_status := HSWEP_PCI_IRP_PMON_BOX_STATUS\<rparr>"

definition HSWEP_UNCORE_QPI :: uncore_box_type where
  "HSWEP_UNCORE_QPI = (zeroed_box_type HSWEP_UNCORE_QPIBOX_OPS)
     \<lparr>ty_name := ''QPI-Box'', num_counters := 4, num_boxes := 3, perf_ctr_bits := 48,
      perf_ctr := HSWEP_PCI_QPI_PMON_CTR0, perf_ctl := HSWEP_PCI_QPI_PMON_CTL0,
      event_mask := 0, box_ctl := HSWEP_PCI_QPI_PMON_BOX_CTL,
      box_status := HSWEP_PCI_QPI_PMON_BOX_STATUS\<rparr>"

definition HSWEP_UNCORE_R2PCIE :: uncore_box_type where
  "HSWEP_UNCORE_R2PCIE = (zeroed_box_type HSWEP_UNCORE_R2PCIEBOX_OPS)
     \<lparr>ty_name := ''R2PCIE-Box'', num_counters := 4, num_boxes := 1, perf_ctr_bits := 48,
      perf_ctr := HSWEP_PCI_R2PCIE_PMON_CTR0, perf_ctl := HSWEP_PCI_R2PCIE_PMON_CTL0,
      event_mask := 0, box_ctl := HSWEP_PCI_R2PCIE_PMON_BOX_CTL,
      box_status := HSWEP_PCI_R2PCIE_PMON_BOX_STATUS\<rparr>"

definition HSWEP_UNCORE_R3QPI :: uncore_box_type where
  "HSWEP_UNCORE_R3QPI = (zeroed_box_type HSWEP_UNCORE_R3QPIBOX_OPS)
     \<lparr>ty_name := ''R3QPI-Box'', num_counters := 3, num_boxes := 3, perf_ctr_bits := 48,
      perf_ctr := HSWEP_PCI_R3QPI_PMON_CTR0, perf_ctl := HSWEP_PCI_R3QPI_PMON_CTL0,
      event_mask := 0, box_ctl := HSWEP_PCI_R3QPI_PMON_BOX_CTL,
      box_status := HSWEP_PCI_R3QPI_PMON_BOX_STATUS\<rparr>"

definition HSWEP_UNCORE_PCI_BOXES :: "uncore_box_type list" where
  "HSWEP_UNCORE_PCI_BOXES =
     [HSWEP_UNCORE_HA, HSWEP_UNCORE_IMC, HSWEP_UNCORE_IRP, HSWEP_UNCORE_QPI,
      HSWEP_UNCORE_R2PCIE, HSWEP_UNCORE_R3QPI]"

definition HSWEP_UNCORE_PCI_TYPE :: "type_ref list" where
  "HSWEP_UNCORE_PCI_TYPE =
     map Pci_type [UNCORE_PCI_HA_ID, UNCORE_PCI_IMC_ID, UNCORE_PCI_IRP_ID, UNCORE_PCI_QPI_ID,
       UNCORE_PCI_R2PCIE_ID, UNCORE_PCI_R3QPI_ID]"

lemmas msr_type_defs =
  HSWEP_UNCORE_UBOX_def HSWEP_UNCORE_PCUBOX_def HSWEP_UNCORE_SBOX_def HSWEP_UNCORE_CBOX_def
  zeroed_box_type_def

lemmas pci_type_defs =
  HSWEP_UNCORE_HA_def HSWEP_UNCORE_IMC_def HSWEP_UNCORE_IRP_def HSWEP_UNCORE_QPI_def
  HSWEP_UNCORE_R2PCIE_def HSWEP_UNCORE_R3QPI_def zeroed_box_type_def

end
