(* ===== verification/Hswep_Contract.thy ===== *)
theory Hswep_Contract
  imports Hswep_Box
begin

text \<open>
  The contract of the Haswell-EP boxes. \<open>pmon_pci\<close> and \<open>pmon_msr\<close> state what the uncore manual
  documents of the registers of one box: the box control register resets the control or
  counter registers when bit 0 or bit 1 is written and keeps its other bits, the event
  select and counter registers hold what is written, and no register is an alias of
  another. Under these hypotheses the methods of \<open>uncore_hswep.c\<close>, called through the
  generic API, satisfy \<open>pmon_box\<close>.
\<close>

section \<open>Documented behaviour of the registers\<close>

definition pci_val :: "'h platform \<Rightarrow> 'h \<Rightarrow> pdev \<Rightarrow> u32 \<Rightarrow> u32" where
  "pci_val P h d r = snd (pci_read_config_dword P h d r 0)"

locale pmon_pci =
  fixes P :: "'h platform" and d :: pdev and ctl sta sel ctr :: u32
  assumes rd_ok: "r \<in> {ctl, sta, sel, ctr, ctr + 4} \<Longrightarrow>
      pci_read_config_dword P h d r old = (0, pci_val P h d r)"
    and ctl_rst: "n < 2 \<Longrightarrow> \<not> bit (pci_val P h d ctl) n"
    and ctl_ctl: "pci_val P (pci_write_config_dword P d ctl v h) d ctl =
      v AND NOT HSWEP_PCI_BOX_CTL_INIT"
    and ctl_sel: "pci_val P (pci_write_config_dword P d ctl v h) d sel =
      (if bit v 0 then 0 else pci_val P h d sel)"
    and ctl_ctr: "r \<in> {ctr, ctr + 4} \<Longrightarrow> pci_val P (pci_write_config_dword P d ctl v h) d r =
      (if bit v 1 then 0 else pci_val P h d r)"
    and sel_sel: "\<not> bit v 17 \<Longrightarrow> pci_val P (pci_write_config_dword P d sel v h) d sel = v"
    and ctr_lo: "pci_val P (pci_write_config_dword P d ctr v h) d ctr = v"
    and ctr_hi: "v < 2 ^ 16 \<Longrightarrow> pci_val P (pci_write_config_dword P d (ctr + 4) v h) d (ctr + 4) = v"
    and frame: "r \<in> {sta, sel, ctr, ctr + 4} \<Longrightarrow> q \<in> {ctl, sel, ctr, ctr + 4} \<Longrightarrow> r \<noteq> q \<Longrightarrow>
      pci_val P (pci_write_config_dword P d r v h) d q = pci_val P h d q"
    and apart: "distinct [ctl, sta, sel, ctr, ctr + 4]"
begin

lemma regs_apart:
  "ctl \<noteq> sta" "ctl \<noteq> sel" "ctl \<noteq> ctr" "ctl \<noteq> ctr + 4"
  "sta \<noteq> ctl" "sta \<noteq> sel" "sta \<noteq> ctr" "sta \<noteq> ctr + 4"
  "sel \<noteq> ctl" "sel \<noteq> sta" "sel \<noteq> ctr" "sel \<noteq> ctr + 4"
  "ctr \<noteq> ctl" "ctr \<noteq> sta" "ctr \<noteq> sel"
  "ctr + 4 \<noteq> ctl" "ctr + 4 \<noteq> sta" "ctr + 4 \<noteq> sel"
  using apart by auto

end

locale pmon_msr =
  fixes P :: "'h platform" and cpu :: u32 and ctl sta sel ctr :: u32
  assumes ctl_rst: "n < 2 \<Longrightarrow> \<not> bit (rdmsr P h cpu ctl) n"
    and ctl_ctl: "rdmsr P (wrmsr P cpu ctl v h) cpu ctl =
      v AND NOT (ucast HSWEP_MSR_BOX_CTL_INIT)"
    and ctl_sel: "rdmsr P (wrmsr P cpu ctl v h) cpu sel = (if bit v 0 then 0 else rdmsr P h cpu sel)"
    and ctl_ctr: "rdmsr P (wrmsr P cpu ctl v h) cpu ctr = (if bit v 1 then 0 else rdmsr P h cpu ctr)"
    and sel_sel: "\<not> bit v 17 \<Longrightarrow> rdmsr P (wrmsr P cpu sel v h) cpu sel = v"
    and ctr_ctr: "v < 2 ^ 48 \<Longrightarrow> rdmsr P (wrmsr P cpu ctr v h) cpu ctr = v"
    and frame: "r \<in> {sel, ctr} \<Longrightarrow> q \<in> {ctl, sel, ctr} \<Longrightarrow> r \<noteq> q \<Longrightarrow>
      rdmsr P (wrmsr P cpu r v h) cpu q = rdmsr P h cpu q"
    and apart: "distinct [ctl, sta, sel, ctr]"
begin

lemma regs_apart:
  "ctl \<noteq> sel" "ctl \<noteq> ctr" "sel \<noteq> ctl" "sel \<noteq> ctr" "ctr \<noteq> ctl" "ctr \<noteq> sel"
  using apart by auto

end

text \<open>The two halves of a 48-bit value.\<close>

lemma high_half: "(ucast (drop_bit 32 (v AND mask 48)) :: u32) < 2 ^ 16" for v :: u64
proof -
  have "ucast (drop_bit 32 (v AND mask 48)) = (ucast (drop_bit 32 v) AND mask 16 :: u32)"
    by (rule bit_word_eqI) (auto simp: bit_simps)
  also have "\<dots> < 2 ^ 16"
    by (rule and_mask_less') simp
  finally show ?thesis .
qed

lemma halves_48:
  "(push_bit 32 (ucast (ucast (drop_bit 32 (v AND mask 48)) :: u32)) OR ucast (ucast v :: u32))
     AND mask 48 = v AND mask 48" for v :: u64
  by (rule bit_word_eqI) (auto simp: bit_simps)

section \<open>PCI boxes satisfy the contract\<close>

locale hswep_pci_box =
  pmon_pci P d "box_ctl ty" "box_status ty" "perf_ctl ty" "perf_ctr ty"
  for P :: "'h platform" and d :: pdev and ty :: uncore_box_type +
  fixes cpu :: u32 and box :: uncore_box
  assumes box_dev: "pdev box = Some d"
    and bits48: "perf_ctr_bits ty = 48"
    and pci_table: "\<not> is_msr_ops (ops ty)"
begin

lemma api_simps:
  "uncore_init_box (hswep_ops P) cpu ty box h = hswep_uncore_pci_init_box P cpu ty box h"
  "uncore_clear_box (hswep_ops P) cpu ty box h = hswep_uncore_pci_init_box P cpu ty box h"
  "uncore_enable_box (hswep_ops P) cpu ty box h = hswep_uncore_pci_enable_box P cpu ty box h"
  "uncore_disable_box (hswep_ops P) cpu ty box h = hswep_uncore_pci_disable_box P cpu ty box h"
  "uncore_enable_event (hswep_ops P) cpu ty box e h = hswep_uncore_pci_enable_event P cpu ty box e h"
  "uncore_write_counter (hswep_ops P) cpu ty box v h = hswep_uncore_pci_write_counter P cpu ty box v h"
  "uncore_read_counter (hswep_ops P) cpu ty box h old = hswep_uncore_pci_read_counter P cpu ty box h"
  by (simp_all add: box_api_defs hswep_ops_eq pci_table HSWEP_UNCORE_PCI_BOX_OPS_def)

definition frozen_pci :: "'h \<Rightarrow> bool" where
  "frozen_pci h = bit (pci_val P h d (box_ctl ty)) 8"

lemma read_eq:
  "hswep_uncore_pci_read_counter P cpu ty box h =
     (push_bit 32 (ucast (pci_val P h d (perf_ctr ty + 4))) OR
       ucast (pci_val P h d (perf_ctr ty))) AND mask 48"
  by (simp add: hswep_uncore_pci_read_counter_def box_dev pci_addr_defs rd_ok
      uncore_box_ctr_mask_48 [OF bits48] Let_def)

lemma enable_eq: "hswep_uncore_pci_enable_box P cpu ty box h =
    pci_write_config_dword P d (box_ctl ty)
      (pci_val P h d (box_ctl ty) AND NOT HSWEP_PCI_BOX_CTL_FRZ) h"
  by (simp add: hswep_uncore_pci_enable_box_def box_dev pci_addr_defs rd_ok Let_def)

lemma disable_eq: "hswep_uncore_pci_disable_box P cpu ty box h =
    pci_write_config_dword P d (box_ctl ty)
      (pci_val P h d (box_ctl ty) OR HSWEP_PCI_BOX_CTL_FRZ) h"
  by (simp add: hswep_uncore_pci_disable_box_def box_dev pci_addr_defs rd_ok Let_def)

lemma write_eq: "hswep_uncore_pci_write_counter P cpu ty box v h =
    pci_write_config_dword P d (perf_ctr ty + 4) (ucast (drop_bit 32 (v AND mask 48)))
      (pci_write_config_dword P d (perf_ctr ty) (ucast v) h)"
  by (simp add: hswep_uncore_pci_write_counter_def box_dev pci_addr_defs ucast_32_and_mask
      uncore_box_ctr_mask_48 [OF bits48] Let_def)

end

text \<open>The box control register as read: reset bits read as zero.\<close>

sublocale hswep_pci_box \<subseteq> pmon_box
  "uncore_init_box (hswep_ops P) cpu ty box" "uncore_enable_box (hswep_ops P) cpu ty box"
  "uncore_disable_box (hswep_ops P) cpu ty box" "uncore_enable_event (hswep_ops P) cpu ty box"
  "uncore_write_counter (hswep_ops P) cpu ty box"
  "\<lambda>h. uncore_read_counter (hswep_ops P) cpu ty box h 0" frozen_pci
proof unfold_locales
  fix h v e
  let ?T = "hswep_ops P"
  show "frozen_pci (uncore_disable_box ?T cpu ty box h)"
    by (simp add: api_simps frozen_pci_def disable_eq ctl_ctl bits bit_simps)
  show "\<not> frozen_pci (uncore_enable_box ?T cpu ty box h)"
    by (simp add: api_simps frozen_pci_def enable_eq ctl_ctl bits bit_simps)
  show "frozen_pci (uncore_write_counter ?T cpu ty box v h) = frozen_pci h"
    by (simp add: regs_apart api_simps frozen_pci_def write_eq frame)
  show "frozen_pci (uncore_enable_event ?T cpu ty box e h) = frozen_pci h"
    by (simp add: regs_apart api_simps frozen_pci_def hswep_uncore_pci_enable_event_def
        box_dev pci_addr_defs frame)
  show "uncore_read_counter ?T cpu ty box (uncore_disable_box ?T cpu ty box h) 0 =
      uncore_read_counter ?T cpu ty box h 0"
    by (simp add: api_simps read_eq disable_eq ctl_ctr ctl_rst bits bit_simps)
  show "uncore_read_counter ?T cpu ty box (uncore_enable_box ?T cpu ty box h) 0 =
      uncore_read_counter ?T cpu ty box h 0"
    by (simp add: api_simps read_eq enable_eq ctl_ctr ctl_rst bits bit_simps)
  show "uncore_read_counter ?T cpu ty box (uncore_enable_event ?T cpu ty box e h) 0 =
      uncore_read_counter ?T cpu ty box h 0"
    by (simp add: regs_apart api_simps read_eq hswep_uncore_pci_enable_event_def
        box_dev pci_addr_defs frame)
  show "uncore_read_counter ?T cpu ty box (uncore_write_counter ?T cpu ty box v h) 0 =
      v AND mask 48"
  proof -
    obtain hi where hi: "hi = (ucast (drop_bit 32 (v AND mask 48)) :: u32)" by blast
    have "hi < 2 ^ 16" unfolding hi by (rule high_half)
    then have "uncore_read_counter ?T cpu ty box (uncore_write_counter ?T cpu ty box v h) 0 =
        (push_bit 32 (ucast hi) OR ucast (ucast v :: u32)) AND mask 48"
      by (simp only: api_simps read_eq write_eq hi [symmetric] ctr_hi)
        (simp add: regs_apart frame ctr_lo)
    then show ?thesis by (simp only: hi halves_48)
  qed
  show "uncore_read_counter ?T cpu ty box (uncore_init_box ?T cpu ty box h) 0 = 0"
    by (simp add: regs_apart api_simps read_eq hswep_uncore_pci_init_box_def
        box_dev pci_addr_defs frame ctl_ctr bits)
  show "uncore_read_counter ?T cpu ty box h 0 AND mask 48 = uncore_read_counter ?T cpu ty box h 0"
    by (simp add: api_simps read_eq and.assoc)
qed

section \<open>MSR boxes satisfy the contract\<close>

locale hswep_msr_box =
  pmon_msr P cpu "uncore_msr_box_ctl ty box" "uncore_msr_box_status ty box"
    "uncore_msr_perf_ctl ty box" "uncore_msr_perf_ctr ty box"
  for P :: "'h platform" and cpu :: u32 and ty :: uncore_box_type and box :: uncore_box +
  assumes has_ctl: "uncore_msr_box_ctl ty box \<noteq> 0"
    and bits48: "perf_ctr_bits ty = 48"
    and msr_table: "is_msr_ops (ops ty)"
begin

lemma api_simps:
  "uncore_init_box (hswep_ops P) cpu ty box h = hswep_uncore_msr_init_box P cpu ty box h"
  "uncore_clear_box (hswep_ops P) cpu ty box h = hswep_uncore_msr_init_box P cpu ty box h"
  "uncore_enable_box (hswep_ops P) cpu ty box h = hswep_uncore_msr_enable_box P cpu ty box h"
  "uncore_disable_box (hswep_ops P) cpu ty box h = hswep_uncore_msr_disable_box P cpu ty box h"
  "uncore_enable_event (hswep_ops P) cpu ty box e h = hswep_uncore_msr_enable_event P cpu ty box e h"
  "uncore_write_counter (hswep_ops P) cpu ty box v h = hswep_uncore_msr_write_counter P cpu ty box v h"
  "uncore_read_counter (hswep_ops P) cpu ty box h old = hswep_uncore_msr_read_counter P cpu ty box h"
  by (simp_all add: box_api_defs hswep_ops_eq msr_table HSWEP_UNCORE_MSR_BOX_OPS_def)

definition frozen_msr :: "'h \<Rightarrow> bool" where
  "frozen_msr h = bit (rdmsr P h cpu (uncore_msr_box_ctl ty box)) 8"

lemma and_mask48: "(v AND mask 48 :: u64) < 2 ^ 48"
  by (rule and_mask_less') simp

lemmas method_simps = msr_method_defs has_ctl Let_def uncore_box_ctr_mask_48 [OF bits48]

end

text \<open>The complement of the freeze bit, sign extended to 64 bits, clears the freeze bit and no
  other.\<close>

lemma bit_not_frz_64 [bits]:
  "bit (scast (NOT HSWEP_MSR_BOX_CTL_FRZ) :: u64) n \<longleftrightarrow> n < 64 \<and> n \<noteq> 8"
  by (auto simp: bit_simps bits min_def)

sublocale hswep_msr_box \<subseteq> pmon_box
  "uncore_init_box (hswep_ops P) cpu ty box" "uncore_enable_box (hswep_ops P) cpu ty box"
  "uncore_disable_box (hswep_ops P) cpu ty box" "uncore_enable_event (hswep_ops P) cpu ty box"
  "uncore_write_counter (hswep_ops P) cpu ty box"
  "\<lambda>h. uncore_read_counter (hswep_ops P) cpu ty box h 0" frozen_msr
proof unfold_locales
  fix h v e
  let ?T = "hswep_ops P"
  show "frozen_msr (uncore_disable_box ?T cpu ty box h)"
    by (simp add: api_simps frozen_msr_def method_simps ctl_ctl bits bit_simps)
  show "\<not> frozen_msr (uncore_enable_box ?T cpu ty box h)"
    by (simp add: api_simps frozen_msr_def method_simps ctl_ctl bits bit_simps)
  show "frozen_msr (uncore_write_counter ?T cpu ty box v h) = frozen_msr h"
    by (simp add: api_simps frozen_msr_def method_simps regs_apart frame)
  show "frozen_msr (uncore_enable_event ?T cpu ty box e h) = frozen_msr h"
    by (simp add: api_simps frozen_msr_def method_simps regs_apart frame)
  show "uncore_read_counter ?T cpu ty box (uncore_disable_box ?T cpu ty box h) 0 =
      uncore_read_counter ?T cpu ty box h 0"
    by (simp add: api_simps method_simps ctl_ctr ctl_rst bits bit_simps)
  show "uncore_read_counter ?T cpu ty box (uncore_enable_box ?T cpu ty box h) 0 =
      uncore_read_counter ?T cpu ty box h 0"
    by (simp add: api_simps method_simps ctl_ctr ctl_rst bits bit_simps)
  show "uncore_read_counter ?T cpu ty box (uncore_enable_event ?T cpu ty box e h) 0 =
      uncore_read_counter ?T cpu ty box h 0"
    by (simp add: api_simps method_simps regs_apart frame)
  show "uncore_read_counter ?T cpu ty box (uncore_write_counter ?T cpu ty box v h) 0 =
      v AND mask 48"
    by (simp add: api_simps method_simps ctr_ctr [OF and_mask48] and.assoc)
  show "uncore_read_counter ?T cpu ty box (uncore_init_box ?T cpu ty box h) 0 = 0"
    by (simp add: api_simps method_simps ctl_ctr bits bit_simps)
  show "uncore_read_counter ?T cpu ty box h 0 AND mask 48 = uncore_read_counter ?T cpu ty box h 0"
    by (simp add: api_simps method_simps and.assoc)
qed

section \<open>The MSR boxes of the type table\<close>

text \<open>Every MSR box there can be: a type of the table and an index.\<close>

definition blank_box :: "u32 \<Rightarrow> uncore_box" where
  "blank_box i =
     \<lparr>idx = i, nodeid = 0, hrtimer_duration = 0,
      hrtimer = \<lparr>hr_function = None, hr_queued = None\<rparr>,
      event = None, box_type = Msr_type 0, pdev = None\<rparr>"

definition msr_boxes :: "(uncore_box_type \<times> u32) list" where
  "msr_boxes =
     concat (map (\<lambda>ty. map (\<lambda>i. (ty, of_nat i)) [0..<unat (num_boxes ty)]) HSWEP_UNCORE_MSR_BOXES)"

text \<open>The registers of a box: the addresses that the inline functions of \<open>uncore_pmu.h\<close> compute, and the fixed
  counter with its control that the type names. A zero in the type is a register that the box does not have.\<close>

definition msr_box_regs :: "uncore_box_type \<Rightarrow> uncore_box \<Rightarrow> u32 list" where
  "msr_box_regs ty box =
     (if fixed_ctl ty = 0 then [] else [fixed_ctl ty]) @
     (if fixed_ctr ty = 0 then [] else [fixed_ctr ty]) @
     (if box_ctl ty = 0 then [] else [uncore_msr_box_ctl ty box]) @
     [uncore_msr_perf_ctl ty box] @
     (if box_filter0 ty = 0 then [] else [uncore_msr_box_filter ty box]) @
     [uncore_msr_box_status ty box, uncore_msr_perf_ctr ty box]"

definition msr_global_regs :: "u32 list" where
  "msr_global_regs = [HSWEP_MSR_PMON_GLOBAL_CTL, HSWEP_MSR_PMON_GLOBAL_STATUS, HSWEP_MSR_PMON_GLOBAL_CONFIG]"

lemma msr_addr_blank:
  "uncore_msr_box_ctl ty b = uncore_msr_box_ctl ty (blank_box (idx b))"
  "uncore_msr_box_status ty b = uncore_msr_box_status ty (blank_box (idx b))"
  "uncore_msr_box_filter ty b = uncore_msr_box_filter ty (blank_box (idx b))"
  "uncore_msr_perf_ctl ty b = uncore_msr_perf_ctl ty (blank_box (idx b))"
  "uncore_msr_perf_ctr ty b = uncore_msr_perf_ctr ty (blank_box (idx b))"
  by (simp_all add: msr_addr_defs blank_box_def)

lemma msr_box_regs_blank: "msr_box_regs ty b = msr_box_regs ty (blank_box (idx b))"
  unfolding msr_box_regs_def by (simp only: msr_addr_blank [of ty b])

lemma msr_regs_ascend:
  "successively (<) (0 # msr_global_regs @ concat (map (\<lambda>(ty, i). msr_box_regs ty (blank_box i)) msr_boxes))"
  by code_simp

text \<open>Hence no register is one of another box, a global one, or 0.\<close>

lemma concat_map_apart:
  "distinct (concat (map f xs)) \<Longrightarrow> x \<in> set xs \<Longrightarrow> y \<in> set xs \<Longrightarrow> x \<noteq> y \<Longrightarrow> set (f x) \<inter> set (f y) = {}"
  by (induction xs) auto

lemma concat_map_member: "x \<in> set xs \<Longrightarrow> a \<in> set (f x) \<Longrightarrow> a \<in> set (concat (map f xs))"
  by auto

lemma msr_regs_apart:
  assumes "(ty, idx box) \<in> set msr_boxes" "a \<in> set (msr_box_regs ty box)"
  shows "a \<noteq> 0" "a \<notin> set msr_global_regs"
    "(ty', idx box') \<in> set msr_boxes \<Longrightarrow> (ty, idx box) \<noteq> (ty', idx box') \<Longrightarrow> a \<notin> set (msr_box_regs ty' box')"
proof -
  define f where "f = (\<lambda>(ty, i). msr_box_regs ty (blank_box i))"
  have d: "distinct (0 # msr_global_regs @ concat (map f msr_boxes))"
    using msr_regs_ascend unfolding f_def
    by (simp only: successively_conv_sorted_wrt transp_on_less strict_sorted_iff)
  have f: "f (ty, idx box) = msr_box_regs ty box" for ty box
    unfolding f_def by (simp only: prod.case msr_box_regs_blank [symmetric])
  have m: "a \<in> set (concat (map f msr_boxes))"
    by (rule concat_map_member [OF assms(1)]) (simp only: f assms(2))
  have "0 \<notin> set (concat (map f msr_boxes))" "set msr_global_regs \<inter> set (concat (map f msr_boxes)) = {}"
    using d unfolding distinct.simps distinct_append set_append Un_iff by blast+
  with m show "a \<noteq> 0" "a \<notin> set msr_global_regs" by blast+
  show "a \<notin> set (msr_box_regs ty' box')"
    if "(ty', idx box') \<in> set msr_boxes" "(ty, idx box) \<noteq> (ty', idx box')"
  proof -
    have "distinct (concat (map f msr_boxes))" using d by (simp only: distinct.simps distinct_append)
    from concat_map_apart [OF this assms(1) that] show ?thesis using assms(2) by (simp only: f) blast
  qed
qed

lemma msr_boxes_types: "(ty, i) \<in> set msr_boxes \<Longrightarrow> is_msr_ops (ops ty)"
  by (auto simp: msr_boxes_def HSWEP_UNCORE_MSR_BOXES_def msr_type_defs is_msr_ops_def)

text \<open>Without a control register the address of the control register is 0, as the code tests.\<close>

lemma msr_ctl_known:
  assumes "(ty, idx box) \<in> set msr_boxes"
  shows "uncore_msr_box_ctl ty box = 0 \<or> uncore_msr_box_ctl ty box \<in> set (msr_box_regs ty box)"
proof (cases "box_ctl ty = 0")
  case True
  then have "msr_offset ty = 0"
    using assms by (auto simp: msr_boxes_def HSWEP_UNCORE_MSR_BOXES_def msr_type_defs regs)
  with True show ?thesis by (simp add: msr_addr_defs)
qed (simp add: msr_box_regs_def)

text \<open>What the manual says of the whole space: a write to a register of a box reaches the registers of that box
  only (the control register resets others of its box).\<close>

locale msr_space =
  fixes P :: "'h platform" and cpu :: u32
  assumes own: "(ty, idx box) \<in> set msr_boxes \<Longrightarrow> a \<in> set (msr_box_regs ty box) \<Longrightarrow>
    q \<in> set (0 # msr_global_regs @ concat (map (\<lambda>(ty, i). msr_box_regs ty (blank_box i)) msr_boxes)) \<Longrightarrow>
    q \<notin> set (msr_box_regs ty box) \<Longrightarrow> rdmsr P (wrmsr P cpu a v h) cpu q = rdmsr P h cpu q"
begin

text \<open>Every method writes at most one register, and it is one of its box.\<close>

lemma method_writes:
  assumes "(ty, idx box) \<in> set msr_boxes"
    and "f \<in> {uncore_init_box (hswep_ops P) cpu ty box, uncore_clear_box (hswep_ops P) cpu ty box,
      uncore_enable_box (hswep_ops P) cpu ty box, uncore_disable_box (hswep_ops P) cpu ty box,
      uncore_enable_event (hswep_ops P) cpu ty box e, uncore_disable_event (hswep_ops P) cpu ty box e,
      uncore_write_counter (hswep_ops P) cpu ty box v}"
  shows "f h = h \<or> (\<exists>a w. a \<in> set (msr_box_regs ty box) \<and> f h = wrmsr P cpu a w h)"
proof -
  note msr_ctl_known [OF assms(1)]
  moreover have "uncore_msr_perf_ctl ty box \<in> set (msr_box_regs ty box)"
    "uncore_msr_perf_ctr ty box \<in> set (msr_box_regs ty box)" by (simp_all add: msr_box_regs_def)
  moreover have "(\<exists>w. f h = (if uncore_msr_box_ctl ty box = 0 then h else wrmsr P cpu (uncore_msr_box_ctl ty box) w h)) \<or>
      (\<exists>w. f h = wrmsr P cpu (uncore_msr_perf_ctl ty box) w h) \<or> (\<exists>w. f h = wrmsr P cpu (uncore_msr_perf_ctr ty box) w h)"
  proof -
    have m: "is_msr_ops (ops ty)" by (rule msr_boxes_types [OF assms(1)])
    note d = box_api_defs hswep_ops_eq HSWEP_UNCORE_MSR_BOX_OPS_def msr_method_defs Let_def m
    from assms(2) consider "f = uncore_init_box (hswep_ops P) cpu ty box"
      | "f = uncore_clear_box (hswep_ops P) cpu ty box" | "f = uncore_enable_box (hswep_ops P) cpu ty box"
      | "f = uncore_disable_box (hswep_ops P) cpu ty box" | "f = uncore_enable_event (hswep_ops P) cpu ty box e"
      | "f = uncore_disable_event (hswep_ops P) cpu ty box e" | "f = uncore_write_counter (hswep_ops P) cpu ty box v"
      by blast
    then show ?thesis by cases (simp add: d, metis)+
  qed
  ultimately show ?thesis by (elim disjE exE; simp split: if_splits; blast)
qed

lemma method_frame:
  assumes "(ty, idx box) \<in> set msr_boxes"
    and "f \<in> {uncore_init_box (hswep_ops P) cpu ty box, uncore_clear_box (hswep_ops P) cpu ty box,
      uncore_enable_box (hswep_ops P) cpu ty box, uncore_disable_box (hswep_ops P) cpu ty box,
      uncore_enable_event (hswep_ops P) cpu ty box e, uncore_disable_event (hswep_ops P) cpu ty box e,
      uncore_write_counter (hswep_ops P) cpu ty box v}"
    and "(ty', idx box') \<in> set msr_boxes" "(ty, idx box) \<noteq> (ty', idx box')"
    and "q \<in> set (0 # msr_global_regs @ msr_box_regs ty' box')"
  shows "rdmsr P (f h) cpu q = rdmsr P h cpu q"
proof -
  have "q \<notin> set (msr_box_regs ty box)"
    using msr_regs_apart [OF assms(1), of q] assms(3-5) by auto
  moreover have "q \<in> set (0 # msr_global_regs @ concat (map (\<lambda>(ty, i). msr_box_regs ty (blank_box i)) msr_boxes))"
    using assms(3,5) msr_box_regs_blank [of ty' box'] by fastforce
  ultimately show ?thesis using method_writes [OF assms(1,2), of h] own [OF assms(1)] by metis
qed

end

section \<open>A PCI box while the hardware counts\<close>

locale hswep_pci_counting = hswep_pci_box +
  fixes tick :: "nat \<Rightarrow> 'a \<Rightarrow> 'a"
  assumes tick_ctl: "pci_val P (tick n h) d (box_ctl ty) = pci_val P h d (box_ctl ty)"
    and tick_ctr: "uncore_read_counter (hswep_ops P) cpu ty box (tick n h) 0 =
      (if frozen_pci h then uncore_read_counter (hswep_ops P) cpu ty box h 0
       else (uncore_read_counter (hswep_ops P) cpu ty box h 0 + of_nat n) AND mask 48)"

sublocale hswep_pci_counting \<subseteq> pmon_counting
  "uncore_init_box (hswep_ops P) cpu ty box" "uncore_enable_box (hswep_ops P) cpu ty box"
  "uncore_disable_box (hswep_ops P) cpu ty box" "uncore_enable_event (hswep_ops P) cpu ty box"
  "uncore_write_counter (hswep_ops P) cpu ty box"
  "\<lambda>h. uncore_read_counter (hswep_ops P) cpu ty box h 0" frozen_pci tick
  by unfold_locales (simp_all add: tick_ctr tick_ctl frozen_pci_def)

end
