(* ===== verification/Ref_Machine.thy ===== *)
theory Ref_Machine
  imports Hswep_Contract
begin

text \<open>
  A machine that behaves as the manuals document: the instance of the parameter \<open>platform\<close>
  at which the witnesses are evaluated and the hardware locales interpreted. Two sockets
  with six CPUs each, a UBOX, a home agent and a memory controller channel per socket. The
  layout of its MSR boxes is computed from the code's own type table.
\<close>

section \<open>The hardware\<close>

text \<open>PCI configuration dwords and words, MSRs per CPU, and the CPUs that are online.\<close>

record ref_hw =
  cfg :: "pdev \<Rightarrow> u32 \<Rightarrow> u32"
  cfgw :: "pdev \<Rightarrow> u32 \<Rightarrow> u16"
  msrs :: "u32 \<Rightarrow> u32 \<Rightarrow> u64"
  online :: "u32 \<Rightarrow> bool"

definition ref_pci_write :: "pdev \<Rightarrow> u32 \<Rightarrow> u32 \<Rightarrow> ref_hw \<Rightarrow> ref_hw" where
  "ref_pci_write d r v h =
     (let c = cfg h d;
          c1 = (if r = 0xF4 then
                  (let c2 = c(0xF4 := v AND NOT HSWEP_PCI_BOX_CTL_INIT);
                       c3 = (if bit v 0 then c2(0xD8 := 0) else c2)
                   in if bit v 1 then c3(0xA0 := 0, 0xA4 := 0) else c3)
                else if r = 0xF8 then c(0xF8 := c 0xF8 AND NOT v)
                else if r = 0xD8 then c(0xD8 := v AND NOT HSWEP_PCI_EVNTSEL_RST)
                else if r = 0xA4 then c(0xA4 := v AND mask 16)
                else c(r := v))
      in h\<lparr>cfg := (cfg h)(d := c1)\<rparr>)"

definition ref_pci_read :: "ref_hw \<Rightarrow> pdev \<Rightarrow> u32 \<Rightarrow> u32 \<Rightarrow> int \<times> u32" where
  "ref_pci_read h d r old =
     (0, if r = 0xF4 then cfg h d r AND NOT HSWEP_PCI_BOX_CTL_INIT else cfg h d r)"

text \<open>The MSR box whose control register has address \<open>a\<close>: its event select and its counter.\<close>

definition msr_ctls :: "(u32 \<times> u32 \<times> u32) list" where
  "msr_ctls =
     [(0x710, 0x711, 0x717), (0x720, 0x721, 0x726), (0x72A, 0x72B, 0x730), (0x734, 0x735,
      0x73A), (0x73E, 0x73F, 0x744), (0xE00, 0xE01, 0xE08), (0xE10, 0xE11, 0xE18), (0xE20,
      0xE21, 0xE28), (0xE30, 0xE31, 0xE38), (0xE40, 0xE41, 0xE48), (0xE50, 0xE51, 0xE58),
      (0xE60, 0xE61, 0xE68), (0xE70, 0xE71, 0xE78), (0xE80, 0xE81, 0xE88), (0xE90, 0xE91,
      0xE98), (0xEA0, 0xEA1, 0xEA8), (0xEB0, 0xEB1, 0xEB8), (0xEC0, 0xEC1, 0xEC8), (0xED0,
      0xED1, 0xED8), (0xEE0, 0xEE1, 0xEE8), (0xEF0, 0xEF1, 0xEF8), (0xF00, 0xF01, 0xF08),
      (0xF10, 0xF11, 0xF18)]"

definition ref_wrmsr :: "u32 \<Rightarrow> u32 \<Rightarrow> u64 \<Rightarrow> ref_hw \<Rightarrow> ref_hw" where
  "ref_wrmsr cpu a v h =
     (let m = msrs h cpu;
          m1 = (case map_of msr_ctls a of
                  Some (sel, ctr) \<Rightarrow>
                    (let m2 = m(a := v AND NOT (ucast HSWEP_MSR_BOX_CTL_INIT));
                         m3 = (if bit v 0 then m2(sel := 0) else m2)
                     in if bit v 1 then m3(ctr := 0) else m3)
                | None \<Rightarrow>
                    if a = HSWEP_MSR_PMON_GLOBAL_STATUS then m(a := m a AND NOT v) else m(a := v))
      in h\<lparr>msrs := (msrs h)(cpu := m1)\<rparr>)"

definition ref_rdmsr :: "ref_hw \<Rightarrow> u32 \<Rightarrow> u32 \<Rightarrow> u64" where
  "ref_rdmsr h cpu a =
     (if map_of msr_ctls a = None then msrs h cpu a
      else msrs h cpu a AND NOT (ucast HSWEP_MSR_BOX_CTL_INIT))"

definition ref_tick :: "pdev \<Rightarrow> nat \<Rightarrow> ref_hw \<Rightarrow> ref_hw" where
  "ref_tick d n h =
     (let c = cfg h d;
          v = ((push_bit 32 (ucast (c 0xA4)) OR ucast (c 0xA0)) + of_nat n :: u64) AND mask 48
      in if bit (c 0xF4) 8 then h
         else h\<lparr>cfg := (cfg h)(d := c(0xA0 := ucast v, 0xA4 := ucast (drop_bit 32 v)))\<rparr>)"

section \<open>The platform\<close>

text \<open>Devices: a UBOX (0x2F1E), a home agent (0x2F30) and a memory controller channel
  (0x2FB4) on bus 127 (socket 0) and on bus 255 (socket 1).\<close>

definition ref_devices :: "(u32 \<times> pdev) list" where
  "ref_devices = [(0x2F1E, 1), (0x2F30, 2), (0x2FB4, 3), (0x2F1E, 4), (0x2F30, 5), (0x2FB4, 6)]"

definition ref_bus :: "pdev \<Rightarrow> u8" where
  "ref_bus d = (if d < 4 then 127 else 255)"

text \<open>The first device with a greater address: the devices are listed in that order.\<close>

definition ref_pci_next :: "u32 \<Rightarrow> u32 \<Rightarrow> pdev option \<Rightarrow> pdev option" where
  "ref_pci_next ven dev from =
     (if ven \<noteq> 0x8086 then None
      else map_option snd (find (\<lambda>(v, d). v = dev \<and> (case from of None \<Rightarrow> True | Some f \<Rightarrow> f < d))
             ref_devices))"

definition ref_cpumask_first :: "cpumask \<Rightarrow> u32" where
  "ref_cpumask_first m = (case find m (map of_nat [0..<12]) of Some c \<Rightarrow> c | None \<Rightarrow> 12)"

definition ref_platform :: "ref_hw platform" where
  "ref_platform =
     \<lparr>rdmsr = ref_rdmsr, wrmsr = ref_wrmsr, wrmsr_gp = (\<lambda>_ _. False),
      pci_read_config_dword = ref_pci_read, pci_write_config_dword = ref_pci_write,
      pci_read_config_word = (\<lambda>h d r old. (0, cfgw h d r)),
      pci_write_config_word = (\<lambda>d r v h. h\<lparr>cfgw := (cfgw h)(d := (cfgw h d)(r := v))\<rparr>),
      pcibios_err_to_errno = (\<lambda>e. - e),
      pci_next = ref_pci_next, bus_number = ref_bus,
      pdev_vendor = (\<lambda>_. 0x8086), pdev_device = (\<lambda>d. ucast (the (map_of (map prod.swap ref_devices) d))),
      pdev_devfn = (\<lambda>d. of_nat (8 * d)), kref_at_load = (\<lambda>_. 4),
      kzalloc_ok = (\<lambda>_. True), proc_create_ok = (\<lambda>_. True),
      x86_model = 63, x86_max_cores = 6, nr_cpu_ids = 12, nr_node_ids = 2,
      online_nodes = [0, 1],
      cpumask_of_node = (\<lambda>h n c. online h c \<and> c < 12 \<and> c div 6 = n),
      cpumask_first = ref_cpumask_first,
      cpu_to_node = (\<lambda>c. c div 6),
      smp_status = (\<lambda>h c. if c < 12 \<and> online h c then 0 else - ENXIO),
      cpu_up = (\<lambda>c h. (0, h\<lparr>online := (online h)(c := True)\<rparr>)),
      cpu_down = (\<lambda>c h. (0, h\<lparr>online := (online h)(c := False)\<rparr>)),
      cpu_online = online, cpuid = (\<lambda>c op. (0, 0, 0, 0)), apic_write = (\<lambda>c a v h. h),
      this_cpu = 6, stack_junk64 = 0, stack_junk32 = 0, stack_junk16 = 0\<rparr>"

lemma ref_platform_sel [simp]:
  "rdmsr ref_platform = ref_rdmsr" "wrmsr ref_platform = ref_wrmsr" "\<not> wrmsr_gp ref_platform a w64"
  "pci_read_config_dword ref_platform = ref_pci_read"
  "pci_write_config_dword ref_platform = ref_pci_write"
  "pci_read_config_word ref_platform h d r old = (0, cfgw h d r)"
  "pci_write_config_word ref_platform d r v h = h\<lparr>cfgw := (cfgw h)(d := (cfgw h d)(r := v))\<rparr>"
  "pcibios_err_to_errno ref_platform e = - e"
  "pci_next ref_platform = ref_pci_next" "bus_number ref_platform = ref_bus"
  "pdev_vendor ref_platform d = 0x8086" "kref_at_load ref_platform d = 4" "pdev_devfn ref_platform d = of_nat (8 * d)"
  "kzalloc_ok ref_platform k" "proc_create_ok ref_platform nm"
  "x86_model ref_platform = 63" "x86_max_cores ref_platform = 6"
  "nr_cpu_ids ref_platform = 12" "nr_node_ids ref_platform = 2"
  "online_nodes ref_platform = [0, 1]"
  "cpumask_of_node ref_platform h n c \<longleftrightarrow> online h c \<and> c < 12 \<and> c div 6 = n"
  "cpumask_first ref_platform = ref_cpumask_first"
  "cpu_to_node ref_platform c = c div 6"
  "smp_status ref_platform h c = (if c < 12 \<and> online h c then 0 else - ENXIO)"
  "cpu_up ref_platform c h = (0, h\<lparr>online := (online h)(c := True)\<rparr>)"
  "cpu_down ref_platform c h = (0, h\<lparr>online := (online h)(c := False)\<rparr>)"
  "cpu_online ref_platform = online" "cpuid ref_platform c op = (0, 0, 0, 0)" "apic_write ref_platform c a w h = h"
  "this_cpu ref_platform = 6" "stack_junk64 ref_platform = 0" "stack_junk32 ref_platform = 0" "stack_junk16 ref_platform = 0"
  by (simp_all add: ref_platform_def)

lemmas ref_pci_defs = ref_pci_write_def ref_pci_read_def pci_val_def

text \<open>The UBOXes of the reference machine number their socket (offset 0x40) and map node \<open>i\<close> to
  the 3-bit field \<open>i\<close> of offset 0x54.\<close>

definition ref_hw0 :: ref_hw where
  "ref_hw0 =
     \<lparr>cfg = (\<lambda>d r. if r = 0x40 then (if d < 4 then 0 else 1)
                    else if r = 0x54 then 8 else 0),
      cfgw = (\<lambda>d r. 0x8fff), msrs = (\<lambda>c a. 0), online = (\<lambda>c. c < 12)\<rparr>"

section \<open>The reference machine provides the interfaces\<close>

lemma evntsel_no_rst: "\<not> bit v 17 \<Longrightarrow> v AND NOT HSWEP_PCI_EVNTSEL_RST = v"
proof -
  assume v: "\<not> bit v 17"
  have r: "bit HSWEP_PCI_EVNTSEL_RST n \<longleftrightarrow> n = 17" for n
    unfolding regs bit_push_bit_iff bit_1_iff by auto
  show ?thesis using v by (auto intro!: bit_word_eqI simp: bit_simps r)
qed

lemma ref_pmon_pci: "pmon_pci ref_platform d 0xF4 0xF8 0xD8 0xA0"
  by unfold_locales
    (auto simp: ref_pci_defs Let_def bits bit_simps evntsel_no_rst less_mask_eq [where n = 16, simplified])

text \<open>Every PCI box type but the IRP has this layout.\<close>

definition monitored :: "uncore_box_type \<Rightarrow> bool" where
  "monitored ty \<longleftrightarrow>
     box_ctl ty = 0xF4 \<and> box_status ty = 0xF8 \<and> perf_ctl ty = 0xD8 \<and> perf_ctr ty = 0xA0 \<and>
     perf_ctr_bits ty = 48 \<and> \<not> is_msr_ops (ops ty)"

lemma monitored_types:
  "monitored HSWEP_UNCORE_HA" "monitored HSWEP_UNCORE_IMC" "monitored HSWEP_UNCORE_QPI"
  "monitored HSWEP_UNCORE_R2PCIE" "monitored HSWEP_UNCORE_R3QPI"
  by (simp_all add: monitored_def pci_type_defs regs is_msr_ops_def)

lemma ref_hswep_pci_box:
  "monitored ty \<Longrightarrow> hswep_pci_box ref_platform d ty (box\<lparr>pdev := Some d\<rparr>)"
  using ref_pmon_pci [of d] by (simp add: hswep_pci_box_def hswep_pci_box_axioms_def monitored_def)

interpretation ref_ha: hswep_pci_box ref_platform d HSWEP_UNCORE_HA cpu "box\<lparr>pdev := Some d\<rparr>"
  for d cpu box
  by (rule ref_hswep_pci_box) (rule monitored_types)

lemma ref_tick_ctl: "pci_val ref_platform (ref_tick d n h) d 0xF4 = pci_val ref_platform h d 0xF4"
  by (simp add: ref_pci_defs ref_tick_def Let_def)

interpretation ref_ha_counting:
  hswep_pci_counting ref_platform d HSWEP_UNCORE_HA cpu "box\<lparr>pdev := Some d\<rparr>" "ref_tick d"
  for d cpu box
proof unfold_locales
  fix n h
  let ?b = "box\<lparr>pdev := Some d\<rparr>"
  have ha: "box_ctl HSWEP_UNCORE_HA = 0xF4" "perf_ctr HSWEP_UNCORE_HA = 0xA0"
    using monitored_types(1) by (simp_all add: monitored_def)
  show "pci_val ref_platform (ref_tick d n h) d (box_ctl HSWEP_UNCORE_HA) =
      pci_val ref_platform h d (box_ctl HSWEP_UNCORE_HA)"
    by (simp add: ha ref_tick_ctl)
  let ?raw = "push_bit 32 (ucast (cfg h d 0xA4)) OR ucast (cfg h d 0xA0) :: u64"
  have old: "uncore_read_counter (hswep_ops ref_platform) cpu HSWEP_UNCORE_HA ?b h 0 =
      ?raw AND mask 48"
    by (simp add: ref_ha.api_simps ref_ha.read_eq ha ref_pci_defs)
  let ?v = "(?raw + of_nat n) AND mask 48"
  have new: "uncore_read_counter (hswep_ops ref_platform) cpu HSWEP_UNCORE_HA ?b (ref_tick d n h) 0 =
      (if bit (cfg h d 0xF4) 8 then ?raw AND mask 48
       else (push_bit 32 (ucast (ucast (drop_bit 32 ?v) :: u32)) OR ucast (ucast ?v :: u32)) AND mask 48)"
    by (simp only: ref_ha.api_simps ref_ha.read_eq ha) (simp add: ref_pci_defs ref_tick_def Let_def)
  have frz: "ref_ha.frozen_pci d h = bit (cfg h d 0xF4) 8"
    by (simp add: ref_ha.frozen_pci_def ha ref_pci_defs bit_simps bits)
  show "uncore_read_counter (hswep_ops ref_platform) cpu HSWEP_UNCORE_HA ?b (ref_tick d n h) 0 =
      (if ref_ha.frozen_pci d h
       then uncore_read_counter (hswep_ops ref_platform) cpu HSWEP_UNCORE_HA ?b h 0
       else (uncore_read_counter (hswep_ops ref_platform) cpu HSWEP_UNCORE_HA ?b h 0 + of_nat n) AND
         mask 48)"
    by (simp only: new old frz word_halves_join add_mask_mod and_mask_idem)
qed

section \<open>MSR boxes\<close>

lemma msr_layout:
  "list_all (\<lambda>(ty, i). box_ctl ty \<noteq> 0 \<longrightarrow>
     (let b = blank_box i; c = uncore_msr_box_ctl ty b; t = uncore_msr_box_status ty b;
          s = uncore_msr_perf_ctl ty b; r = uncore_msr_perf_ctr ty b
      in map_of msr_ctls c = Some (s, r) \<and> map_of msr_ctls s = None \<and> map_of msr_ctls r = None \<and>
         distinct [c, t, s, r] \<and> c \<noteq> 0 \<and> s \<noteq> 0x701 \<and> r \<noteq> 0x701 \<and>
         perf_ctr_bits ty = 48 \<and> is_msr_ops (ops ty))) msr_boxes"
  by code_simp

lemma ref_hswep_msr_box:
  assumes "(ty, idx box) \<in> set msr_boxes" "box_ctl ty \<noteq> 0"
  shows "hswep_msr_box ref_platform cpu ty box"
proof -
  let ?c = "uncore_msr_box_ctl ty box" and ?t = "uncore_msr_box_status ty box"
  let ?s = "uncore_msr_perf_ctl ty box" and ?r = "uncore_msr_perf_ctr ty box"
  have l: "map_of msr_ctls ?c = Some (?s, ?r)" "map_of msr_ctls ?s = None"
      "map_of msr_ctls ?r = None" "distinct [?c, ?t, ?s, ?r]" "?c \<noteq> 0" "?s \<noteq> 0x701" "?r \<noteq> 0x701"
      "perf_ctr_bits ty = 48" "is_msr_ops (ops ty)"
    using msr_layout assms by (auto simp: list_all_iff Let_def msr_addr_blank [of ty box])
  have "pmon_msr ref_platform cpu ?c ?t ?s ?r"
    using l by unfold_locales
      (auto simp: ref_rdmsr_def ref_wrmsr_def Let_def HSWEP_MSR_PMON_GLOBAL_STATUS_def
        bits bit_simps)
  with l show ?thesis
    by (simp add: hswep_msr_box_def hswep_msr_box_axioms_def)
qed

interpretation ref_cbox0: hswep_msr_box ref_platform cpu HSWEP_UNCORE_CBOX "blank_box 17" for cpu
  by (rule ref_hswep_msr_box) (code_simp, simp add: msr_type_defs regs)

interpretation ref_pcu: hswep_msr_box ref_platform cpu HSWEP_UNCORE_PCUBOX "blank_box 0" for cpu
  by (rule ref_hswep_msr_box) (code_simp, simp add: msr_type_defs regs)

text \<open>A write to a control register reaches the event select and the counter of the same box.\<close>

lemma msr_ctls_own:
  "list_all (\<lambda>(ty, i). let rs = msr_box_regs ty (blank_box i)
     in list_all (\<lambda>a. case map_of msr_ctls a of None \<Rightarrow> True | Some (s, r) \<Rightarrow> s \<in> set rs \<and> r \<in> set rs) rs) msr_boxes"
  by code_simp

lemma ref_wrmsr_other:
  assumes "q \<noteq> a" "case map_of msr_ctls a of None \<Rightarrow> True | Some (s, r) \<Rightarrow> q \<noteq> s \<and> q \<noteq> r"
  shows "msrs (ref_wrmsr cpu a v h) cpu q = msrs h cpu q"
  using assms by (cases "map_of msr_ctls a") (auto simp: ref_wrmsr_def Let_def)

interpretation ref_msrs: msr_space ref_platform cpu for cpu
proof
  fix ty box a q v h
  assume b: "(ty, idx box) \<in> set msr_boxes" and a: "a \<in> set (msr_box_regs ty box)"
    and q: "q \<notin> set (msr_box_regs ty box)"
  have "list_all (\<lambda>a. case map_of msr_ctls a of None \<Rightarrow> True
      | Some (s, r) \<Rightarrow> s \<in> set (msr_box_regs ty box) \<and> r \<in> set (msr_box_regs ty box)) (msr_box_regs ty box)"
    using bspec [OF iffD1 [OF list_all_iff msr_ctls_own] b]
    by (simp only: prod.case Let_def msr_box_regs_blank [of ty box, symmetric])
  from bspec [OF iffD1 [OF list_all_iff this] a]
  have "case map_of msr_ctls a of None \<Rightarrow> True
      | Some (s, r) \<Rightarrow> s \<in> set (msr_box_regs ty box) \<and> r \<in> set (msr_box_regs ty box)" .
  with q have "case map_of msr_ctls a of None \<Rightarrow> True | Some (s, r) \<Rightarrow> q \<noteq> s \<and> q \<noteq> r"
    by (cases "map_of msr_ctls a") auto
  moreover have "q \<noteq> a" using a q by blast
  ultimately have "msrs (ref_wrmsr cpu a v h) cpu q = msrs h cpu q" by (rule ref_wrmsr_other [rotated])
  then show "rdmsr ref_platform (wrmsr ref_platform cpu a v h) cpu q = rdmsr ref_platform h cpu q"
    by (simp add: ref_rdmsr_def)
qed

end
