(* ===== verification/Box_Properties.thy ===== *)
theory Box_Properties
  imports Ref_Machine
begin

text \<open>
  Properties of the boxes: what the contract \<open>pmon_box\<close> gives for the PCI and the MSR boxes
  of Haswell-EP, the layout of the MSR boxes, and the packing of a PCI id's driver data.
\<close>

section \<open>Facts of the contract on the Haswell-EP boxes\<close>

context hswep_pci_box
begin

lemmas pci_sample_facts = sample_reads sample_clears sample_runs
lemmas pci_sample_def = sample_def
lemmas pci_read_write = read_write
lemmas pci_read_less = read_less
lemmas pci_frozen_laws = frozen_disable

end

context hswep_msr_box
begin

lemmas msr_sample_facts = sample_reads sample_clears sample_runs
lemmas msr_sample_def = sample_def
lemmas msr_read_write = read_write
lemmas msr_read_less = read_less
lemmas msr_frozen_laws = frozen_disable

lemma msr_event_regs:
  assumes "\<not> bit (ev_disable e) 17" "\<not> bit (ev_enable e) 17"
  shows "rdmsr P (uncore_enable_event (hswep_ops P) cpu ty box e h) cpu (uncore_msr_perf_ctl ty box) = ev_disable e"
    "rdmsr P (uncore_disable_event (hswep_ops P) cpu ty box e h) cpu (uncore_msr_perf_ctl ty box) = ev_enable e"
  using assms
  by (simp_all add: sel_sel box_api_defs hswep_ops_eq msr_table HSWEP_UNCORE_MSR_BOX_OPS_def
      hswep_uncore_msr_enable_event_def hswep_uncore_msr_disable_event_def)

end

section \<open>Properties\<close>

text \<open>C26: one sampling period through the generic API (freeze, read, clear, unfreeze) of a PCI box
  and of an MSR box: the box is frozen when it is read, the sample is what the counter held
  before, and the counter is left at zero and counting.\<close>

theorem box_sample:
  assumes "hswep_pci_box P d ty box \<or> hswep_msr_box P cpu ty box"
  shows "let h1 = uncore_disable_box (hswep_ops P) cpu ty box h;
             c = uncore_read_counter (hswep_ops P) cpu ty box h1 0;
             h2 = uncore_enable_box (hswep_ops P) cpu ty box
                    (uncore_write_counter (hswep_ops P) cpu ty box 0 h1);
             frozen = (\<lambda>h. if hswep_pci_box P d ty box then bit (pci_val P h d (box_ctl ty)) 8
                           else bit (rdmsr P h cpu (uncore_msr_box_ctl ty box)) 8)
    in frozen h1 \<and> c = uncore_read_counter (hswep_ops P) cpu ty box h 0 \<and> unat c < 2 ^ 48 \<and>
       uncore_read_counter (hswep_ops P) cpu ty box h2 0 = 0 \<and> \<not> frozen h2"
proof (cases "hswep_pci_box P d ty box")
  case True
  then show ?thesis
    using hswep_pci_box.pci_sample_facts [OF True, of cpu h] hswep_pci_box.pci_frozen_laws(1) [OF True, of cpu h]
      hswep_pci_box.pci_read_less [OF True, of cpu h]
    by (simp add: Let_def hswep_pci_box.pci_sample_def [OF True] hswep_pci_box.frozen_pci_def [OF True])
next
  case False
  with assms have m: "hswep_msr_box P cpu ty box" by simp
  with False show ?thesis
    using hswep_msr_box.msr_sample_facts [OF m, of h] hswep_msr_box.msr_frozen_laws(1) [OF m, of h]
      hswep_msr_box.msr_read_less [OF m, of h]
    by (simp add: Let_def hswep_msr_box.msr_sample_def [OF m] hswep_msr_box.frozen_msr_def [OF m])
qed

lemma ref_cbox: "hswep_msr_box ref_platform 6 HSWEP_UNCORE_CBOX (blank_box 17)"
  by (rule ref_cbox0.hswep_msr_box_axioms)

lemma box_sample_witness:
  "(let h1 = uncore_disable_box (hswep_ops ref_platform) 6 HSWEP_UNCORE_CBOX (blank_box 17) ref_hw0;
       h2 = uncore_enable_box (hswep_ops ref_platform) 6 HSWEP_UNCORE_CBOX (blank_box 17)
              (uncore_write_counter (hswep_ops ref_platform) 6 HSWEP_UNCORE_CBOX (blank_box 17) 0 h1)
   in uncore_read_counter (hswep_ops ref_platform) 6 HSWEP_UNCORE_CBOX (blank_box 17) h2 0 = 0) \<and>
  (let b = (blank_box 0)\<lparr>pdev := Some 2\<rparr>;
       h = ref_tick 2 77 (uncore_enable_box (hswep_ops ref_platform) 6 HSWEP_UNCORE_HA b ref_hw0);
       h1 = uncore_disable_box (hswep_ops ref_platform) 6 HSWEP_UNCORE_HA b h
   in bit (pci_val ref_platform h1 2 (box_ctl HSWEP_UNCORE_HA)) 8)"
  using box_sample [of ref_platform _ HSWEP_UNCORE_CBOX "blank_box 17" 6 ref_hw0] ref_cbox
    box_sample [OF disjI1, OF ref_hswep_pci_box [OF monitored_types(1), of 2 "blank_box 0"], of 6]
    ref_hswep_pci_box [OF monitored_types(1), of 2 "blank_box 0"]
  by (simp add: Let_def)

text \<open>C27: a counter written through the generic API is read back modulo \<open>2 ^ 48\<close>, in two 32-bit
  halves on a PCI box and in one register on an MSR box.\<close>

theorem counter_roundtrip:
  assumes "hswep_pci_box P d ty box" "hswep_msr_box P cpu mty mbox"
  shows "uncore_read_counter (hswep_ops P) cpu ty box
      (uncore_write_counter (hswep_ops P) cpu ty box v h) 0 = v AND mask 48 \<and>
    uncore_read_counter (hswep_ops P) cpu mty mbox
      (uncore_write_counter (hswep_ops P) cpu mty mbox v h) 0 = v AND mask 48"
  by (simp add: hswep_pci_box.pci_read_write [OF assms(1)] hswep_msr_box.msr_read_write [OF assms(2)])

lemma counter_roundtrip_witness:
  "uncore_read_counter (hswep_ops ref_platform) 6 HSWEP_UNCORE_CBOX (blank_box 17)
      (uncore_write_counter (hswep_ops ref_platform) 6 HSWEP_UNCORE_CBOX (blank_box 17) (2 ^ 48 + 5) ref_hw0) 0 = 5"
  using counter_roundtrip [OF ref_hswep_pci_box [OF monitored_types(1), of 2 "blank_box 0"] ref_cbox, where v = "2 ^ 48 + 5" and h = ref_hw0]
  by (simp add: mask_eq_exp_minus_1)

text \<open>C28: the two event methods of an MSR box are exchanged: enabling an event writes its disable
  value to the event select register, disabling it writes its enable value.\<close>

theorem msr_events_exchanged:
  assumes "hswep_msr_box P cpu ty box" "\<not> bit (ev_disable e) 17" "\<not> bit (ev_enable e) 17"
  shows "rdmsr P (uncore_enable_event (hswep_ops P) cpu ty box e h) cpu (uncore_msr_perf_ctl ty box) = ev_disable e \<and>
    rdmsr P (uncore_disable_event (hswep_ops P) cpu ty box e h) cpu (uncore_msr_perf_ctl ty box) = ev_enable e"
  using hswep_msr_box.msr_event_regs [OF assms] by simp

lemma msr_events_exchanged_witness:
  "rdmsr ref_platform (uncore_enable_event (hswep_ops ref_platform) 6 HSWEP_UNCORE_CBOX (blank_box 17)
     \<lparr>ev_enable = 0x400001, ev_disable = 0, ev_desc = ''clock''\<rparr> ref_hw0) 6
     (uncore_msr_perf_ctl HSWEP_UNCORE_CBOX (blank_box 17)) = 0"
  using msr_events_exchanged [OF ref_cbox, of "\<lparr>ev_enable = 0x400001, ev_disable = 0, ev_desc = ''clock''\<rparr>" ref_hw0]
  by simp

text \<open>C29: an MSR box is controlled without touching another one: whatever method of the generic API runs on a box
  of the table, every other box of the table still shows the same registers, reads the same counter and has the
  same filter and fixed counter, and the global registers of the socket are as before.\<close>

theorem msr_boxes_isolated:
  assumes "msr_space P cpu" "(ty, idx box) \<in> set msr_boxes" "(ty', idx box') \<in> set msr_boxes"
    and "(ty, idx box) \<noteq> (ty', idx box')"
    and "f \<in> {uncore_init_box (hswep_ops P) cpu ty box, uncore_clear_box (hswep_ops P) cpu ty box,
      uncore_enable_box (hswep_ops P) cpu ty box, uncore_disable_box (hswep_ops P) cpu ty box,
      uncore_enable_event (hswep_ops P) cpu ty box e, uncore_disable_event (hswep_ops P) cpu ty box e,
      uncore_write_counter (hswep_ops P) cpu ty box v}"
  shows "uncore_show_box (hswep_ops P) cpu ty' box' (f h) = uncore_show_box (hswep_ops P) cpu ty' box' h \<and>
    uncore_read_counter (hswep_ops P) cpu ty' box' (f h) old = uncore_read_counter (hswep_ops P) cpu ty' box' h old \<and>
    (\<forall>q \<in> set (msr_global_regs @ msr_box_regs ty' box'). rdmsr P (f h) cpu q = rdmsr P h cpu q)"
proof -
  have r: "rdmsr P (f h) cpu q = rdmsr P h cpu q" if "q \<in> set (0 # msr_global_regs @ msr_box_regs ty' box')" for q
    by (rule msr_space.method_frame [OF assms(1,2,5,3,4) that])
  have c: "rdmsr P (f h) cpu (uncore_msr_box_ctl ty' box') = rdmsr P h cpu (uncore_msr_box_ctl ty' box')"
    by (rule r) (use msr_ctl_known [OF assms(3)] in auto)
  have "uncore_msr_box_status ty' box' \<in> set (msr_box_regs ty' box')"
    "uncore_msr_perf_ctl ty' box' \<in> set (msr_box_regs ty' box')"
    "uncore_msr_perf_ctr ty' box' \<in> set (msr_box_regs ty' box')" by (simp_all add: msr_box_regs_def)
  then show ?thesis
    using r c msr_boxes_types [OF assms(3)]
    by (simp add: box_api_defs hswep_ops_eq HSWEP_UNCORE_MSR_BOX_OPS_def hswep_uncore_msr_show_box_def
        hswep_uncore_msr_read_counter_def)
qed

lemma msr_boxes_isolated_witness:
  "uncore_read_counter (hswep_ops ref_platform) 6 HSWEP_UNCORE_CBOX (blank_box 16)
     (uncore_init_box (hswep_ops ref_platform) 6 HSWEP_UNCORE_CBOX (blank_box 17)
       (uncore_write_counter (hswep_ops ref_platform) 6 HSWEP_UNCORE_CBOX (blank_box 16) 77 ref_hw0)) 0 = 77"
proof -
  have b: "(HSWEP_UNCORE_CBOX, idx (blank_box 17)) \<in> set msr_boxes" "(HSWEP_UNCORE_CBOX, idx (blank_box 16)) \<in> set msr_boxes"
    by code_simp+
  have m: "hswep_msr_box ref_platform 6 HSWEP_UNCORE_CBOX (blank_box 16)"
    by (rule ref_hswep_msr_box [OF b(2)]) (simp add: msr_type_defs regs)
  have ne: "(HSWEP_UNCORE_CBOX, idx (blank_box 17)) \<noteq> (HSWEP_UNCORE_CBOX, idx (blank_box 16))"
    by (simp add: blank_box_def)
  have k: "(77 :: u64) AND mask 48 = 77" by code_simp
  from msr_boxes_isolated [OF ref_msrs.msr_space_axioms [of 6] b ne insertI1,
      where h = "uncore_write_counter (hswep_ops ref_platform) 6 HSWEP_UNCORE_CBOX (blank_box 16) 77 ref_hw0" and old = 0]
  show ?thesis by (simp only: hswep_msr_box.msr_read_write [OF m] k)
qed

text \<open>The driver data of a PCI id gives back the type and the index that were packed in it.\<close>

lemma driver_data_roundtrip:
  assumes "t < 256" "i < 256"
  shows "UNCORE_PCI_DEV_TYPE (UNCORE_PCI_DEV_DATA t i) = t \<and> UNCORE_PCI_DEV_IDX (UNCORE_PCI_DEV_DATA t i) = i"
  using pci_dev_type_data [OF assms] by simp

end
