(* ===== verification/Hswep_Init.thy ===== *)
theory Hswep_Init
  imports Ref_Machine
begin

text \<open>
  The state of the uncore module (the globals of \<open>uncore_pmu.c\<close>) and the Haswell-EP
  initialisation of \<open>uncore_hswep.c\<close>: the PCI id table, the mapping of PCI buses to NUMA
  nodes read from the UBOX devices, \<open>hswep_cpu_init\<close> and \<open>hswep_pci_init\<close>, and the
  monitoring events.
\<close>

section \<open>The globals of the module\<close>

text \<open>
  \<open>box_heap\<close> holds the boxes at their addresses, \<open>types\<close> the static box types,
  \<open>uncore_pci_type\<close> and \<open>uncore_msr_type\<close> the arrays of pointers without their final
  \<open>NULL\<close> (the empty list is \<open>dummy_xxx_type\<close>).
\<close>

record pci_driver =
  drv_name :: string
  id_table :: "pci_device_id list option"

record 'h pmu_st = "'h kern" +
  box_heap :: "box_ptr \<Rightarrow> uncore_box option"
  types :: "type_ref \<Rightarrow> uncore_box_type"
  uncore_pci_type :: "type_ref list"
  uncore_msr_type :: "type_ref list"
  uncore_pci_driver :: "pci_driver option"
  uncore_pcibus_to_nodeid :: "u8 \<Rightarrow> u32"
  uncore_pmu_desc :: uncore_pmu

definition hswep_types :: "type_ref \<Rightarrow> uncore_box_type" where
  "hswep_types r =
     (case r of
        Pci_type i \<Rightarrow> if i < length HSWEP_UNCORE_PCI_BOXES then HSWEP_UNCORE_PCI_BOXES ! i
                      else zeroed_box_type HSWEP_UNCORE_HABOX_OPS
      | Msr_type i \<Rightarrow> if i < length HSWEP_UNCORE_MSR_BOXES then HSWEP_UNCORE_MSR_BOXES ! i
                      else zeroed_box_type HSWEP_UNCORE_UBOX_OPS)"

section \<open>PCI ids\<close>

definition PCI_VENDOR_ID_INTEL :: u32 where
  "PCI_VENDOR_ID_INTEL = 0x8086"

definition pci_entry :: "u32 \<Rightarrow> nat \<Rightarrow> u64 \<Rightarrow> pci_device_id" where
  "pci_entry dev type_id i =
     \<lparr>vendor = PCI_VENDOR_ID_INTEL, device = dev,
      driver_data = UNCORE_PCI_DEV_DATA (of_nat type_id) i\<rparr>"

definition null_entry :: pci_device_id where
  "null_entry = \<lparr>vendor = 0, device = 0, driver_data = 0\<rparr>"

definition HSWEP_UNCORE_PCI_IDS :: "pci_device_id list" where
  "HSWEP_UNCORE_PCI_IDS =
    [pci_entry 0x2F30 UNCORE_PCI_HA_ID 0,
     pci_entry 0x2F38 UNCORE_PCI_HA_ID 1,
     pci_entry 0x2FB0 UNCORE_PCI_IMC_ID 0,
     pci_entry 0x2FB1 UNCORE_PCI_IMC_ID 1,
     pci_entry 0x2FB4 UNCORE_PCI_IMC_ID 2,
     pci_entry 0x2FB5 UNCORE_PCI_IMC_ID 3,
     pci_entry 0x2FD0 UNCORE_PCI_IMC_ID 4,
     pci_entry 0x2FD1 UNCORE_PCI_IMC_ID 5,
     pci_entry 0x2FD4 UNCORE_PCI_IMC_ID 6,
     pci_entry 0x2FD5 UNCORE_PCI_IMC_ID 7,
     pci_entry 0x2F39 UNCORE_PCI_IRP_ID 0,
     pci_entry 0x2F32 UNCORE_PCI_QPI_ID 0,
     pci_entry 0x2F33 UNCORE_PCI_QPI_ID 1,
     pci_entry 0x2F3A UNCORE_PCI_QPI_ID 2,
     pci_entry 0x2F34 UNCORE_PCI_R2PCIE_ID 0,
     pci_entry 0x2F36 UNCORE_PCI_R3QPI_ID 0,
     pci_entry 0x2F37 UNCORE_PCI_R3QPI_ID 1,
     pci_entry 0x2F3E UNCORE_PCI_R3QPI_ID 2,
     null_entry]"

definition HSWEP_UNCORE_PCI_DRIVER :: pci_driver where
  "HSWEP_UNCORE_PCI_DRIVER =
     \<lparr>drv_name = ''E5-v3-UNCORE'', id_table = Some HSWEP_UNCORE_PCI_IDS\<rparr>"

section \<open>PCI buses and NUMA nodes\<close>

text \<open>\<open>for (i = 0; i < 8; i++) if (nodeid == ((mapping >> (i * 3)) & 0x7))\<close>: the first 3-bit
  field of \<open>mapping\<close> that holds \<open>nodeid\<close>. The shift is on an \<open>int\<close>.\<close>

definition node_of_mapping :: "u32 \<Rightarrow> u32 \<Rightarrow> nat option" where
  "node_of_mapping nid mapping =
     find (\<lambda>i. nid = signed_drop_bit (i * 3) mapping AND 7) [0..<8]"

text \<open>The loop over the UBOX devices, with its local variables \<open>ubox\<close>, \<open>err\<close>, \<open>nodeid\<close> and
  \<open>mapping\<close>; the result is the final \<open>ubox\<close> and \<open>err\<close>.\<close>

partial_function (option) pcibus_loop ::
    "'h platform \<Rightarrow> u32 \<Rightarrow> pdev option \<Rightarrow> int \<Rightarrow> u32 \<Rightarrow> u32 \<Rightarrow> ('h, 'm) pmu_st_scheme \<Rightarrow>
       (pdev option \<times> int \<times> ('h, 'm) pmu_st_scheme) option" where
  "pcibus_loop P devid ubox err nid mapping s =
     (case pci_get_device P PCI_VENDOR_ID_INTEL devid ubox s of (r, s1) \<Rightarrow>
       (case r of
          None \<Rightarrow> Some (None, err, s1)
        | Some d \<Rightarrow>
            (case pci_read_config_dword P (world s1) d 0x40 nid of (err1, nid1) \<Rightarrow>
              if err1 \<noteq> 0 then Some (Some d, err1, s1)
              else (case pci_read_config_dword P (world s1) d 0x54 mapping of (err2, mapping2) \<Rightarrow>
                if err2 \<noteq> 0 then Some (Some d, err2, s1)
                else pcibus_loop P devid (Some d) err2 nid1 mapping2
                  (case node_of_mapping nid1 mapping2 of
                     None \<Rightarrow> s1
                   | Some i \<Rightarrow> s1\<lparr>uncore_pcibus_to_nodeid :=
                       (uncore_pcibus_to_nodeid s1)(bus_number P d := of_nat i)\<rparr>)))))"

text \<open>\<open>err\<close> is not initialised before the loop: \<open>junk_err\<close> is what the variable holds.\<close>

definition hswep_pcibus_to_nodeid ::
    "'h platform \<Rightarrow> int \<Rightarrow> u32 \<Rightarrow> ('h, 'm) pmu_st_scheme \<Rightarrow> (int \<times> ('h, 'm) pmu_st_scheme) option" where
  "hswep_pcibus_to_nodeid P junk_err devid s =
     do {
       (ubox, err, s1) \<leftarrow> pcibus_loop P devid None junk_err (stack_junk32 P) (stack_junk32 P) s;
       let s2 = pci_dev_put ubox s1;
       Some (if err \<noteq> 0 then pcibios_err_to_errno P err else 0, s2)
     }"

section \<open>Initialisation\<close>

definition hswep_cpu_init :: "'h platform \<Rightarrow> ('h, 'm) pmu_st_scheme \<Rightarrow> int \<times> ('h, 'm) pmu_st_scheme" where
  "hswep_cpu_init P s =
     (let cbox = types s (Msr_type UNCORE_MSR_CBOX_ID);
          s1 = (if num_boxes cbox > x86_max_cores P
                then s\<lparr>types := (types s)(Msr_type UNCORE_MSR_CBOX_ID :=
                       cbox\<lparr>num_boxes := x86_max_cores P\<rparr>)\<rparr>
                else s);
          s2 = s1\<lparr>uncore_msr_type := HSWEP_UNCORE_MSR_TYPE\<rparr>;
          s3 = s2\<lparr>uncore_pmu_desc := (uncore_pmu_desc s2)
                 \<lparr>pmu_name := ''Intel Xeon E5 v3 Uncore PMU'',
                  pmu_msr_type := HSWEP_UNCORE_MSR_TYPE,
                  global_ctl := HSWEP_MSR_PMON_GLOBAL_CTL,
                  global_status := HSWEP_MSR_PMON_GLOBAL_STATUS,
                  global_config := HSWEP_MSR_PMON_GLOBAL_CONFIG\<rparr>\<rparr>
      in (0, s3))"

definition hswep_pci_init ::
    "'h platform \<Rightarrow> int \<Rightarrow> ('h, 'm) pmu_st_scheme \<Rightarrow> (int \<times> ('h, 'm) pmu_st_scheme) option" where
  "hswep_pci_init P junk_err s =
     do {
       (ret, s1) \<leftarrow> hswep_pcibus_to_nodeid P junk_err 0x2F1E s;
       if ret \<noteq> 0 then Some (ret, s1)
       else let s2 = s1\<lparr>uncore_pci_driver := Some HSWEP_UNCORE_PCI_DRIVER,
                       uncore_pci_type := HSWEP_UNCORE_PCI_TYPE\<rparr>;
                s3 = s2\<lparr>uncore_pmu_desc := (uncore_pmu_desc s2)\<lparr>pmu_pci_type := HSWEP_UNCORE_PCI_TYPE\<rparr>\<rparr>
            in Some (0, s3)
     }"

section \<open>Monitoring events\<close>

definition ha_requests_local_reads :: uncore_event where
  "ha_requests_local_reads =
     \<lparr>ev_enable = push_bit 22 1 OR push_bit 20 1 OR 0x0100 OR 0x0001, ev_disable = 0,
      ev_desc = ''Read requests coming from the local socket''\<rparr>"

definition ha_requests_remote_reads :: uncore_event where
  "ha_requests_remote_reads =
     \<lparr>ev_enable = push_bit 22 1 OR push_bit 20 1 OR 0x0200 OR 0x0001, ev_disable = 0,
      ev_desc = ''Read requests coming from remote sockets''\<rparr>"

definition ha_requests_reads :: uncore_event where
  "ha_requests_reads =
     \<lparr>ev_enable = push_bit 22 1 OR push_bit 20 1 OR 0x0300 OR 0x0001, ev_disable = 0,
      ev_desc = ''Incoming read requests total''\<rparr>"

definition ha_requests_local_writes :: uncore_event where
  "ha_requests_local_writes =
     \<lparr>ev_enable = push_bit 22 1 OR push_bit 20 1 OR 0x0400 OR 0x0001, ev_disable = 0,
      ev_desc = ''Write requests from local socket''\<rparr>"

definition ha_requests_remote_writes :: uncore_event where
  "ha_requests_remote_writes =
     \<lparr>ev_enable = push_bit 22 1 OR push_bit 20 1 OR 0x0800 OR 0x0001, ev_disable = 0,
      ev_desc = ''Write requests from remote socket''\<rparr>"

definition ha_requests_writes :: uncore_event where
  "ha_requests_writes =
     \<lparr>ev_enable = push_bit 22 1 OR push_bit 20 1 OR 0x0B00 OR 0x0001, ev_disable = 0,
      ev_desc = ''Incoming write requests total''\<rparr>"

definition ha_imc_reads :: uncore_event where
  "ha_imc_reads =
     \<lparr>ev_enable = push_bit 22 1 OR push_bit 20 1 OR 0x0100 OR 0x0017, ev_disable = 0,
      ev_desc = ''HA to IMC normal priority read requests''\<rparr>"

definition ha_imc_writes_full :: uncore_event where
  "ha_imc_writes_full =
     \<lparr>ev_enable = push_bit 22 1 OR push_bit 20 1 OR 0x0100 OR 0x001A, ev_disable = 0,
      ev_desc = ''HA to IMC full-line Non-ISOCH write''\<rparr>"

definition ha_imc_writes_partial :: uncore_event where
  "ha_imc_writes_partial =
     \<lparr>ev_enable = push_bit 22 1 OR push_bit 20 1 OR 0x0200 OR 0x001A, ev_disable = 0,
      ev_desc = ''HA to IMC partial-line Non-ISOCH write''\<rparr>"

end
