(* ===== verification/Uncore_Pmu.thy ===== *)
theory Uncore_Pmu
  imports Hswep_Init
begin

text \<open>
  The core of \<open>uncore_pmu.c\<close>: running a function on a node, the box timers, looking boxes up,
  the global PMU registers, and the creation and release of the PCI and MSR boxes. The
  definitions are in the order of the file; the lemmas about them are in the theories \<open>Box_Lists\<close>,
  \<open>Box_Scan\<close> and \<open>Box_Init\<close>.
\<close>

section \<open>The module as it is loaded\<close>

text \<open>The static initialisers: both arrays of types point to \<open>dummy_xxx_type\<close>, every bus is
  mapped to \<open>-1\<close>, the box types hold their tables with their list heads zeroed, and every
  other global is zero. \<open>h\<close> is the hardware, \<open>m\<close> the globals of the other components.\<close>

definition uncore_loaded :: "'h \<Rightarrow> 'm \<Rightarrow> ('h, 'm) pmu_st_scheme" where
  "uncore_loaded h m =
     \<lparr>world = h, allocs = 0, krefs = (\<lambda>_. 0), procs = [], proc_faults = 0, delays = [],
      panicked = False,
      box_heap = Map.empty, types = hswep_types, uncore_pci_type = [], uncore_msr_type = [],
      uncore_pci_driver = None, uncore_pcibus_to_nodeid = (\<lambda>_. - 1),
      uncore_pmu_desc = \<lparr>pmu_name = [], n_node = 0, pmu_pci_type = [], pmu_msr_type = [],
        global_ctl = 0, global_status = 0, global_config = 0\<rparr>,
      \<dots> = m\<rparr>"

section \<open>Nodes and CPUs\<close>

definition first_online_cpu_of_node :: "'h platform \<Rightarrow> 'h \<Rightarrow> u32 \<Rightarrow> int" where
  "first_online_cpu_of_node P h node =
     (let mask = cpumask_of_node P h node;
          cpu = uint (cpumask_first P mask)
      in if cpu > uint (nr_cpu_ids P) then - 1 else cpu)"

definition uncore_call_function_on_node ::
    "'h platform \<Rightarrow> u32 \<Rightarrow> (u32 \<Rightarrow> ('h, 'm) kern_scheme \<Rightarrow> ('h, 'm) kern_scheme) option \<Rightarrow>
       ('h, 'm) kern_scheme \<Rightarrow> int \<times> ('h, 'm) kern_scheme" where
  "uncore_call_function_on_node P node func s =
     (case func of
        None \<Rightarrow> (- EINVAL, s)
      | Some f \<Rightarrow>
          if node > nr_node_ids P then (- EINVAL, s)
          else let cpu = first_online_cpu_of_node P (world s) node
               in if cpu < 0 then (- ENXIO, s)
                  else smp_call_function_single P (word_of_int cpu) f s)"

section \<open>Box timers\<close>

definition hrtimer_forward :: "u64 \<Rightarrow> uncore_box \<Rightarrow> uncore_box" where
  "hrtimer_forward ns box = box\<lparr>hrtimer := (hrtimer box)\<lparr>hr_queued := Some ns\<rparr>\<rparr>"

definition uncore_box_hrtimer_def :: "uncore_box \<Rightarrow> hrtimer_restart \<times> uncore_box" where
  "uncore_box_hrtimer_def box = (HRTIMER_RESTART, hrtimer_forward (hrtimer_duration box) box)"

definition uncore_box_init_hrtimer :: "hrtimer_fn \<Rightarrow> uncore_box \<Rightarrow> uncore_box" where
  "uncore_box_init_hrtimer f box = box\<lparr>hrtimer := \<lparr>hr_function = Some f, hr_queued = None\<rparr>\<rparr>"

definition uncore_box_start_hrtimer :: "uncore_box \<Rightarrow> uncore_box" where
  "uncore_box_start_hrtimer box =
     box\<lparr>hrtimer := (hrtimer box)\<lparr>hr_queued := Some (hrtimer_duration box)\<rparr>\<rparr>"

definition uncore_box_cancel_hrtimer :: "uncore_box \<Rightarrow> uncore_box" where
  "uncore_box_cancel_hrtimer box = box\<lparr>hrtimer := (hrtimer box)\<lparr>hr_queued := None\<rparr>\<rparr>"

definition uncore_box_change_hrtimer :: "hrtimer_fn \<Rightarrow> uncore_box \<Rightarrow> uncore_box" where
  "uncore_box_change_hrtimer f box = box\<lparr>hrtimer := (hrtimer box)\<lparr>hr_function := Some f\<rparr>\<rparr>"

definition uncore_box_change_duration :: "u64 \<Rightarrow> uncore_box \<Rightarrow> uncore_box" where
  "uncore_box_change_duration new box = box\<lparr>hrtimer_duration := new\<rparr>"

lemmas box_timer_defs =
  hrtimer_forward_def uncore_box_hrtimer_def_def uncore_box_init_hrtimer_def
  uncore_box_start_hrtimer_def uncore_box_cancel_hrtimer_def uncore_box_change_hrtimer_def
  uncore_box_change_duration_def

section \<open>Looking a box up\<close>

text \<open>\<open>list_for_each_entry\<close> with a test: the first box on the list that passes, \<open>Some None\<close>
  when there is none, and \<open>None\<close> when the walk meets a freed box.\<close>

fun first_match :: "(box_ptr \<Rightarrow> uncore_box option) \<Rightarrow> (uncore_box \<Rightarrow> bool) \<Rightarrow> box_ptr list \<Rightarrow>
    box_ptr option option" where
  "first_match hp Q [] = Some None"
| "first_match hp Q (b # bs) =
     (case hp b of
        None \<Rightarrow> None
      | Some box \<Rightarrow> if Q box then Some (Some b) else first_match hp Q bs)"

definition walk_boxes :: "(uncore_box \<Rightarrow> bool) \<Rightarrow> type_ref \<Rightarrow> ('h, 'm) pmu_st_scheme \<Rightarrow>
    box_ptr option \<times> ('h, 'm) pmu_st_scheme" where
  "walk_boxes Q t s =
     (case Option.bind (box_list (types s t)) (first_match (box_heap s) Q) of
        None \<Rightarrow> (None, die s)
      | Some r \<Rightarrow> (r, s))"

definition uncore_get_box :: "type_ref option \<Rightarrow> u32 \<Rightarrow> u32 \<Rightarrow> ('h, 'm) pmu_st_scheme \<Rightarrow>
    box_ptr option \<times> ('h, 'm) pmu_st_scheme" where
  "uncore_get_box type i node s =
     (case type of
        None \<Rightarrow> (None, s)
      | Some t \<Rightarrow>
          if node > UNCORE_MAX_SOCKET then (None, s)
          else walk_boxes (\<lambda>box. idx box = i \<and> nodeid box = node) t s)"

definition uncore_get_first_box :: "type_ref option \<Rightarrow> u32 \<Rightarrow> ('h, 'm) pmu_st_scheme \<Rightarrow>
    box_ptr option \<times> ('h, 'm) pmu_st_scheme" where
  "uncore_get_first_box type node s =
     (case type of
        None \<Rightarrow> (None, s)
      | Some t \<Rightarrow>
          if node > UNCORE_MAX_SOCKET then (None, s)
          else walk_boxes (\<lambda>box. nodeid box = node) t s)"

section \<open>Global PMU registers\<close>

text \<open>The status is read into an \<open>unsigned int\<close> and written back (writing 1 clears).\<close>

definition clear_global_pmu_on_cpu :: "'h platform \<Rightarrow> uncore_pmu \<Rightarrow> u32 \<Rightarrow> 'h \<Rightarrow> 'h" where
  "clear_global_pmu_on_cpu P pmu cpu h =
     (let h1 = (if global_ctl pmu \<noteq> 0 then wrmsr P cpu (global_ctl pmu) 0 h else h)
      in if global_status pmu \<noteq> 0
         then let status = ucast (rdmsr P h1 cpu (global_status pmu)) :: u32
              in wrmsr P cpu (global_status pmu) (ucast status) h1
         else h1)"

definition uncore_clear_global_pmu ::
    "'h platform \<Rightarrow> uncore_pmu option \<Rightarrow> ('h, 'm) kern_scheme \<Rightarrow> ('h, 'm) kern_scheme" where
  "uncore_clear_global_pmu P pmu s =
     (case pmu of
        None \<Rightarrow> s
      | Some pm \<Rightarrow>
          fold (\<lambda>node s. snd (uncore_call_function_on_node P node
                  (Some (\<lambda>cpu. on_world (clear_global_pmu_on_cpu P pm cpu))) s))
            (online_nodes P) s)"

text \<open>The three registers a node prints, truncated to 32 bits.\<close>

definition print_global_pmu_on_cpu :: "'h platform \<Rightarrow> uncore_pmu \<Rightarrow> u32 \<Rightarrow> 'h \<Rightarrow> u32 list" where
  "print_global_pmu_on_cpu P pmu cpu h =
     (if global_ctl pmu \<noteq> 0 then [ucast (rdmsr P h cpu (global_ctl pmu))] else []) @
     (if global_status pmu \<noteq> 0 then [ucast (rdmsr P h cpu (global_status pmu))] else []) @
     (if global_config pmu \<noteq> 0 then [ucast (rdmsr P h cpu (global_config pmu))] else [])"

section \<open>Messages\<close>

text \<open>The description and, for each online node, the registers of the CPU that stands for it; a
  node that cannot be reached prints its heading only.\<close>

definition uncore_print_global_pmu ::
    "'h platform \<Rightarrow> uncore_pmu option \<Rightarrow> ('h, 'm) kern_scheme \<Rightarrow> (string \<times> (u32 \<times> u32 list) list) option" where
  "uncore_print_global_pmu P pmu s =
     (case pmu of
        None \<Rightarrow> None
      | Some pm \<Rightarrow>
          Some (pmu_name pm,
            map (\<lambda>node. (node, printed (\<lambda>s. snd (uncore_call_function_on_node P node
                    (Some (\<lambda>cpu. print_on (print_global_pmu_on_cpu P pm cpu))) s)) s))
              (online_nodes P)))"

definition uncore_print_node_info :: "'h platform \<Rightarrow> ('h, 'm) kern_scheme \<Rightarrow> (u32 \<times> u32 list) list" where
  "uncore_print_node_info P s =
     map (\<lambda>node. (node, filter (\<lambda>cpu. cpumask_of_node P (world s) node cpu \<and> cpu_online P (world s) cpu)
            (possible_cpus P))) (online_nodes P)"

text \<open>The walk over the boxes of a type: its name, the number of its boxes, and a line per box. Like
  every walk it dies (\<open>None\<close>) on a list head that was never initialised, which does not look empty,
  and on a freed box.\<close>

definition print_type :: "(uncore_box \<Rightarrow> 'a option) \<Rightarrow> ('h, 'm) pmu_st_scheme \<Rightarrow> type_ref \<Rightarrow>
    (string \<times> u32 \<times> 'a list) option" where
  "print_type line s t =
     (let ty = types s t
      in case box_list ty of
           None \<Rightarrow> None
         | Some l \<Rightarrow>
             (case those (map (\<lambda>b. Option.bind (box_heap s b) line) l) of
                None \<Rightarrow> None
              | Some ls \<Rightarrow> Some (ty_name ty, if l = [] then 0 else num_boxes ty, ls)))"

text \<open>How a PCI device is printed: bus, vendor and device, its place, and its reference count.\<close>

type_synonym pdev_info = "u8 \<times> u16 \<times> u16 \<times> u8 \<times> u32 \<times> u32 \<times> int"

definition pdev_line :: "'h platform \<Rightarrow> ('h, 'm) kern_scheme \<Rightarrow> pdev \<Rightarrow> pdev_info" where
  "pdev_line P s d =
     (bus_number P d, pdev_vendor P d, pdev_device P d,
      bus_number P d, drop_bit 3 (pdev_devfn P d) AND 0x1f, pdev_devfn P d AND 0x7,
      kref_at_load P d + krefs s d)"

definition uncore_print_pci_boxes :: "'h platform \<Rightarrow> ('h, 'm) pmu_st_scheme \<Rightarrow>
    (string \<times> u32 \<times> (u32 \<times> u32 \<times> pdev_info) list) list option" where
  "uncore_print_pci_boxes P s =
     those (map (print_type
         (\<lambda>box. map_option (\<lambda>d. (idx box, nodeid box, pdev_line P s d)) (pdev box)) s)
       (uncore_pci_type s))"

text \<open>The buses whose node is not \<open>-1\<close>.\<close>

definition uncore_print_pci_mapping :: "('h, 'm) pmu_st_scheme \<Rightarrow> (u8 \<times> u32) list" where
  "uncore_print_pci_mapping s =
     map (\<lambda>bus. (bus, uncore_pcibus_to_nodeid s bus))
       (filter (\<lambda>bus. uncore_pcibus_to_nodeid s bus \<noteq> - 1) (map of_nat [0..<256]))"

definition uncore_print_msr_boxes :: "('h, 'm) pmu_st_scheme \<Rightarrow> (string \<times> u32 \<times> (u32 \<times> u32) list) list option" where
  "uncore_print_msr_boxes s =
     those (map (print_type (\<lambda>box. Some (idx box, nodeid box)) s) (uncore_msr_type s))"

section \<open>Box lists\<close>

definition set_box_list :: "type_ref \<Rightarrow> box_ptr list option \<Rightarrow> ('h, 'm) pmu_st_scheme \<Rightarrow>
    ('h, 'm) pmu_st_scheme" where
  "set_box_list t l s = s\<lparr>types := (types s)(t := (types s t)\<lparr>box_list := l\<rparr>)\<rparr>"

definition uncore_types_init :: "type_ref list \<Rightarrow> ('h, 'm) pmu_st_scheme \<Rightarrow>
    int \<times> ('h, 'm) pmu_st_scheme" where
  "uncore_types_init arr s = (0, fold (\<lambda>t. set_box_list t (Some [])) arr s)"

text \<open>Indexing an array of pointers that ends with \<open>NULL\<close>; the indices in use never pass
  the end.\<close>

definition array_at :: "'a list \<Rightarrow> nat \<Rightarrow> 'a option" where
  "array_at xs i = (if i < length xs then Some (xs ! i) else None)"

text \<open>A box fresh from \<open>kzalloc\<close>: every member is zero.\<close>

definition zeroed_box :: "type_ref \<Rightarrow> uncore_box" where
  "zeroed_box t =
     \<lparr>idx = 0, nodeid = 0, hrtimer_duration = 0,
      hrtimer = \<lparr>hr_function = None, hr_queued = None\<rparr>,
      event = None, box_type = t, pdev = None\<rparr>"

section \<open>PCI boxes\<close>

definition uncore_pci_new_box ::
    "'h platform \<Rightarrow> pci_device_id \<Rightarrow> pdev \<Rightarrow> ('h, 'm) pmu_st_scheme \<Rightarrow>
       int \<times> ('h, 'm) pmu_st_scheme" where
  "uncore_pci_new_box P ent d s =
     (case array_at (uncore_pci_type s) (unat (UNCORE_PCI_DEV_TYPE (driver_data ent))) of
        None \<Rightarrow> (- EFAULT, s)
      | Some t \<Rightarrow>
          (case kzalloc P s of
             (None, s1) \<Rightarrow> (- ENOMEM, s1)
           | (Some a, s1) \<Rightarrow>
               (let ty = types s1 t;
                    place = (case box_list ty of
                        None \<Rightarrow> None
                      | Some l \<Rightarrow>
                          if l = [] then Some (l, 0, 1)
                          else (case box_heap s1 (last l) of
                              None \<Rightarrow> None
                            | Some lst \<Rightarrow> Some (l, idx lst + 1, num_boxes ty + 1)))
                in case place of
                     None \<Rightarrow> (0, die s1)
                   | Some (l, i, n) \<Rightarrow>
                       (let box = (zeroed_box t)\<lparr>idx := i\<rparr>;
                            box = uncore_box_init_hrtimer Uncore_box_hrtimer_def box;
                            box = box\<lparr>hrtimer_duration := UNCORE_PMU_HRTIMER_INTERVAL,
                              nodeid := uncore_pcibus_to_nodeid s1 (bus_number P d),
                              box_type := t, pdev := Some d\<rparr>
                        in (0, s1\<lparr>box_heap := (box_heap s1)(a := Some box),
                              types := (types s1)(t := ty\<lparr>num_boxes := n,
                                box_list := Some (l @ [a])\<rparr>)\<rparr>)))))"

text \<open>\<open>while (!list_empty(head))\<close>: unlink the first box, drop its device (PCI boxes only) and
  free it.\<close>

fun free_boxes :: "bool \<Rightarrow> box_ptr list \<Rightarrow> ('h, 'm) pmu_st_scheme \<Rightarrow> ('h, 'm) pmu_st_scheme" where
  "free_boxes put [] s = s"
| "free_boxes put (b # bs) s =
     (case box_heap s b of
        None \<Rightarrow> free_boxes put bs (die s)
      | Some box \<Rightarrow>
          (let s1 = (if put then pci_dev_put (pdev box) s else s)
           in free_boxes put bs (s1\<lparr>box_heap := (box_heap s1)(b := None)\<rparr>)))"

definition exit_type :: "bool \<Rightarrow> type_ref \<Rightarrow> ('h, 'm) pmu_st_scheme \<Rightarrow> ('h, 'm) pmu_st_scheme" where
  "exit_type put t s =
     (case box_list (types s t) of
        None \<Rightarrow> die s
      | Some l \<Rightarrow> set_box_list t (Some []) (free_boxes put l s))"

definition uncore_pci_exit :: "('h, 'm) pmu_st_scheme \<Rightarrow> ('h, 'm) pmu_st_scheme" where
  "uncore_pci_exit s = fold (exit_type True) (uncore_pci_type s) s"

text \<open>\<open>for (; ids->vendor || ids->device; ids++)\<close>; a table without its zero entry would be
  read past its end.\<close>

fun uncore_pci_ids :: "'h platform \<Rightarrow> pci_device_id list \<Rightarrow> ('h, 'm) pmu_st_scheme \<Rightarrow>
    (int \<times> ('h, 'm) pmu_st_scheme) option" where
  "uncore_pci_ids P [] s = Some (0, die s)"
| "uncore_pci_ids P (ent # ids) s =
     (if vendor ent \<noteq> 0 \<or> device ent \<noteq> 0
      then do {
        (ret, s1) \<leftarrow> pci_scan P (uncore_pci_new_box P ent) (vendor ent) (device ent) None s;
        if ret \<noteq> 0 then Some (ret, s1) else uncore_pci_ids P ids s1
      }
      else Some (0, s))"

definition uncore_pci_init :: "'h platform \<Rightarrow> int \<Rightarrow> ('h, 'm) pmu_st_scheme \<Rightarrow>
    (int \<times> ('h, 'm) pmu_st_scheme) option" where
  "uncore_pci_init P junk_err s =
     do {
       (ret, s1) \<leftarrow> (if x86_model P = 63 then hswep_pci_init P junk_err s else Some (- ENXIO, s));
       if ret \<noteq> 0 then Some (ret, s1)
       else (case uncore_types_init (uncore_pci_type s1) s1 of (ret, s2) \<Rightarrow>
         if ret \<noteq> 0 then Some (ret, s2)
         else (case uncore_pci_driver s2 of
             None \<Rightarrow> Some (0, die s2)
           | Some drv \<Rightarrow>
               (case id_table drv of
                  None \<Rightarrow> Some (- EFAULT, s2)
                | Some ids \<Rightarrow>
                    do {
                      (ret, s3) \<leftarrow> uncore_pci_ids P ids s2;
                      Some (if ret \<noteq> 0 then (ret, uncore_pci_exit s3) else (0, s3))
                    })))
     }"

section \<open>MSR boxes\<close>

definition uncore_msr_new_box ::
    "'h platform \<Rightarrow> type_ref option \<Rightarrow> u32 \<Rightarrow> ('h, 'm) pmu_st_scheme \<Rightarrow>
       int \<times> ('h, 'm) pmu_st_scheme" where
  "uncore_msr_new_box P type i s =
     (case type of
        None \<Rightarrow> (- EINVAL, s)
      | Some t \<Rightarrow>
          (case kzalloc P s of
             (None, s1) \<Rightarrow> (- ENOMEM, s1)
           | (Some a, s1) \<Rightarrow>
               (let box = uncore_box_init_hrtimer Uncore_box_hrtimer_def (zeroed_box t);
                    box = box\<lparr>hrtimer_duration := UNCORE_PMU_HRTIMER_INTERVAL,
                      idx := i, nodeid := 0, box_type := t\<rparr>;
                    s2 = s1\<lparr>box_heap := (box_heap s1)(a := Some box)\<rparr>
                in case box_list (types s2 t) of
                     None \<Rightarrow> (0, die s2)
                   | Some l \<Rightarrow> (0, set_box_list t (Some (l @ [a])) s2))))"

definition uncore_cpu_exit :: "('h, 'm) pmu_st_scheme \<Rightarrow> ('h, 'm) pmu_st_scheme" where
  "uncore_cpu_exit s = fold (exit_type False) (uncore_msr_type s) s"

fun msr_new_boxes :: "'h platform \<Rightarrow> type_ref \<Rightarrow> nat list \<Rightarrow> ('h, 'm) pmu_st_scheme \<Rightarrow>
    int \<times> ('h, 'm) pmu_st_scheme" where
  "msr_new_boxes P t [] s = (0, s)"
| "msr_new_boxes P t (i # is) s =
     (case uncore_msr_new_box P (Some t) (of_nat i) s of (ret, s1) \<Rightarrow>
       if ret \<noteq> 0 then (ret, s1) else msr_new_boxes P t is s1)"

fun msr_new_types :: "'h platform \<Rightarrow> type_ref list \<Rightarrow> ('h, 'm) pmu_st_scheme \<Rightarrow>
    int \<times> ('h, 'm) pmu_st_scheme" where
  "msr_new_types P [] s = (0, s)"
| "msr_new_types P (t # ts) s =
     (case msr_new_boxes P t [0..<unat (num_boxes (types s t))] s of (ret, s1) \<Rightarrow>
       if ret \<noteq> 0 then (ret, s1) else msr_new_types P ts s1)"

definition uncore_cpu_init :: "'h platform \<Rightarrow> ('h, 'm) pmu_st_scheme \<Rightarrow>
    int \<times> ('h, 'm) pmu_st_scheme" where
  "uncore_cpu_init P s =
     (case (if x86_model P = 63 then hswep_cpu_init P s else (- ENXIO, s)) of (ret, s1) \<Rightarrow>
       if ret \<noteq> 0 then (ret, s1)
       else (case uncore_types_init (uncore_msr_type s1) s1 of (ret, s2) \<Rightarrow>
         if ret \<noteq> 0 then (ret, s2)
         else (case msr_new_types P (uncore_msr_type s2) s2 of (ret, s3) \<Rightarrow>
           if ret \<noteq> 0 then (ret, uncore_cpu_exit s3) else (0, s3))))"

end
