(* ===== verification/Registry.thy ===== *)
theory Registry
  imports Platform "HOL-Library.Multiset"
begin

text \<open>
  Interface between the device scan and the code that registers a device. The PCI and the
  IMC initialisation run the same loop (\<open>pci_scan\<close>) with their own function that makes an
  object for a device; the locale states what such a function promises, and the lemmas give
  the reference counts after a scan, once for both.
\<close>

text \<open>The references a device has beyond those its registered objects account for.\<close>

definition surplus :: "(('h, 'm) kern_scheme \<Rightarrow> pdev multiset) \<Rightarrow> ('h, 'm) kern_scheme \<Rightarrow> pdev \<Rightarrow> int" where
  "surplus held s d = krefs s d - int (count (held s) d)"

locale device_registry =
  fixes new :: "pdev \<Rightarrow> ('h, 'm) kern_scheme \<Rightarrow> int \<times> ('h, 'm) kern_scheme"
    and reg_inv :: "('h, 'm) kern_scheme \<Rightarrow> bool"
    and held :: "('h, 'm) kern_scheme \<Rightarrow> pdev multiset"
  assumes inv_refs: "reg_inv (s\<lparr>krefs := f\<rparr>) = reg_inv s"
    and held_refs: "held (s\<lparr>krefs := f\<rparr>) = held s"
    and new_inv: "reg_inv s \<Longrightarrow> new d s = (ret, s') \<Longrightarrow> reg_inv s'"
    and new_held: "reg_inv s \<Longrightarrow> new d s = (ret, s') \<Longrightarrow>
      held s' = held s + (if ret = 0 then {#d#} else {#})"
    and new_refs: "reg_inv s \<Longrightarrow> new d s = (ret, s') \<Longrightarrow> krefs s' = krefs s"
begin

lemma get_put_inv [simp]:
  "reg_inv (get_device d s) = reg_inv s" "reg_inv (pci_dev_put x s) = reg_inv s"
  "held (get_device d s) = held s" "held (pci_dev_put x s) = held s"
  by (simp_all add: get_device_def pci_dev_put_def inv_refs held_refs split: option.splits)

text \<open>One iteration: the new device ends with one reference of the loop and one of its
  object, or with two references nobody drops when it could not be registered.\<close>

lemma step_surplus:
  assumes "reg_inv s" and "new d (get_device d (pci_dev_put from (get_device d s))) = (ret, s')"
  shows "reg_inv s'"
    and "surplus held s' x = surplus held s x - (if from = Some x then 1 else 0) +
      (if x = d then (if ret = 0 then 1 else 2) else 0)"
proof -
  let ?s = "get_device d (pci_dev_put from (get_device d s))"
  have i: "reg_inv ?s" using assms(1) by simp
  show "reg_inv s'" using new_inv [OF i assms(2)] .
  show "surplus held s' x = surplus held s x - (if from = Some x then 1 else 0) +
      (if x = d then (if ret = 0 then 1 else 2) else 0)"
    using new_held [OF i assms(2)] new_refs [OF i assms(2)]
    by (auto simp: surplus_def get_device_def pci_dev_put_def held_refs split: option.splits)
qed

lemma scan_ok:
  "reg_inv s \<Longrightarrow> scan_list new from ds s = (0, s') \<Longrightarrow>
     reg_inv s' \<and> (\<forall>x. surplus held s' x = surplus held s x - (if from = Some x then 1 else 0))"
proof (induction ds arbitrary: "from" s)
  case Nil
  then show ?case
    by (auto simp: surplus_def pci_dev_put_def held_refs inv_refs split: option.splits)
next
  case (Cons d ds)
  obtain ret s2 where n: "new d (get_device d (pci_dev_put from (get_device d s))) = (ret, s2)"
    by fastforce
  from Cons.prems(2) n have "ret = 0" and rest: "scan_list new (Some d) ds s2 = (0, s')"
    by (auto split: if_splits)
  note st = step_surplus [OF Cons.prems(1) n]
  from Cons.IH [OF st(1) rest] show ?case
    using st(2) \<open>ret = 0\<close> by auto
qed

text \<open>A scan that fails leaves two references on the device it failed on.\<close>

lemma scan_fails:
  "reg_inv s \<Longrightarrow> scan_list new from ds s = (ret, s') \<Longrightarrow> ret \<noteq> 0 \<Longrightarrow>
     reg_inv s' \<and> (\<exists>e \<in> set ds. \<forall>x. surplus held s' x =
       surplus held s x - (if from = Some x then 1 else 0) + (if x = e then 2 else 0))"
proof (induction ds arbitrary: "from" s)
  case Nil
  then show ?case by simp
next
  case (Cons d ds)
  obtain r s2 where n: "new d (get_device d (pci_dev_put from (get_device d s))) = (r, s2)"
    by fastforce
  note st = step_surplus [OF Cons.prems(1) n]
  show ?case
  proof (cases "r = 0")
    case True
    with Cons.prems(2) n have rest: "scan_list new (Some d) ds s2 = (ret, s')" by simp
    from Cons.IH [OF st(1) rest Cons.prems(3)] obtain e where e: "reg_inv s'" "e \<in> set ds"
        "\<And>x. surplus held s' x =
           surplus held s2 x - (if Some d = Some x then 1 else 0) + (if x = e then 2 else 0)"
      by blast
    have "surplus held s' x =
        surplus held s x - (if from = Some x then 1 else 0) + (if x = e then 2 else 0)" for x
      using e(3) [of x] st(2) [of x] True by auto
    with e(1,2) show ?thesis by auto
  next
    case False
    with Cons.prems(2) n have "s' = s2" by simp
    with st False show ?thesis by (intro conjI bexI [of _ d]) auto
  qed
qed

end

text \<open>The loop over a table of device ids, each entry with the devices it enumerates.\<close>

fun scan_ids ::
    "('e \<Rightarrow> pdev \<Rightarrow> ('h, 'm) kern_scheme \<Rightarrow> int \<times> ('h, 'm) kern_scheme) \<Rightarrow> ('e \<Rightarrow> pdev list) \<Rightarrow>
       'e list \<Rightarrow> ('h, 'm) kern_scheme \<Rightarrow> int \<times> ('h, 'm) kern_scheme" where
  "scan_ids new devs [] s = (0, s)"
| "scan_ids new devs (e # es) s =
     (case scan_list (new e) None (devs e) s of (ret, s1) \<Rightarrow>
       if ret \<noteq> 0 then (ret, s1) else scan_ids new devs es s1)"

locale device_table =
  fixes new :: "'e \<Rightarrow> pdev \<Rightarrow> ('h, 'm) kern_scheme \<Rightarrow> int \<times> ('h, 'm) kern_scheme"
    and reg_inv :: "('h, 'm) kern_scheme \<Rightarrow> bool"
    and held :: "('h, 'm) kern_scheme \<Rightarrow> pdev multiset"
  assumes registers: "device_registry (new e) reg_inv held"
begin

lemma table_ok:
  "reg_inv s \<Longrightarrow> scan_ids new devs es s = (0, s') \<Longrightarrow>
     reg_inv s' \<and> (\<forall>x. surplus held s' x = surplus held s x)"
proof (induction es arbitrary: s)
  case Nil
  then show ?case by simp
next
  case (Cons e es)
  obtain ret s1 where n: "scan_list (new e) None (devs e) s = (ret, s1)" by fastforce
  with Cons.prems(2) have "ret = 0" and rest: "scan_ids new devs es s1 = (0, s')"
    by (auto split: if_splits)
  with n device_registry.scan_ok [OF registers Cons.prems(1), of e None "devs e" s1]
    Cons.IH [OF _ rest] show ?case by auto
qed

lemma table_fails:
  "reg_inv s \<Longrightarrow> scan_ids new devs es s = (ret, s') \<Longrightarrow> ret \<noteq> 0 \<Longrightarrow>
     reg_inv s' \<and> (\<exists>e \<in> set es. \<exists>d \<in> set (devs e).
       \<forall>x. surplus held s' x = surplus held s x + (if x = d then 2 else 0))"
proof (induction es arbitrary: s)
  case Nil
  then show ?case by simp
next
  case (Cons e es)
  obtain r s1 where n: "scan_list (new e) None (devs e) s = (r, s1)" by fastforce
  show ?case
  proof (cases "r = 0")
    case True
    with Cons.prems(2) n have rest: "scan_ids new devs es s1 = (ret, s')" by simp
    from n True device_registry.scan_ok [OF registers Cons.prems(1), of e None "devs e" s1]
    have "reg_inv s1" "\<And>x. surplus held s1 x = surplus held s x" by auto
    with Cons.IH [OF _ rest Cons.prems(3)] show ?thesis by auto
  next
    case False
    with Cons.prems(2) n have "s' = s1" by simp
    with device_registry.scan_fails [OF registers Cons.prems(1) n False] show ?thesis by auto
  qed
qed

end

end
