(* ===== verification/Box_Lists.thy ===== *)
theory Box_Lists
  imports Uncore_Pmu Registry
begin

text \<open>
  The lists of boxes: the invariant \<open>wf_boxes\<close> of the heap and the lists of an array of box
  types, the view of a list as the boxes it links, and what \<open>uncore_pci_new_box\<close>,
  \<open>uncore_msr_new_box\<close> and the two exits do to them. Every operation keeps the invariant; it
  gives that a box's index is its position on its list, that a lookup never meets a freed
  box, and that an exit frees exactly the linked boxes.
\<close>

section \<open>View and invariant\<close>

definition linked :: "('h, 'm) pmu_st_scheme \<Rightarrow> type_ref \<Rightarrow> box_ptr list" where
  "linked s t = (case box_list (types s t) of None \<Rightarrow> [] | Some l \<Rightarrow> l)"

definition view :: "('h, 'm) pmu_st_scheme \<Rightarrow> type_ref \<Rightarrow> uncore_box list" where
  "view s t = map (\<lambda>a. the (box_heap s a)) (linked s t)"

definition box_ok :: "bool \<Rightarrow> ('h, 'm) pmu_st_scheme \<Rightarrow> type_ref \<Rightarrow> box_ptr \<Rightarrow> bool" where
  "box_ok pci s t a \<longleftrightarrow>
     (\<exists>b. box_heap s a = Some b \<and> box_type b = t \<and> (pdev b \<noteq> None \<longleftrightarrow> pci) \<and> a < allocs s)"

text \<open>For the types of \<open>arr\<close>: every list is initialised, no box is linked twice, every linked
  box is alive, knows its type, has a device if and only if it is a PCI box, and carries its
  position as its index.\<close>

definition wf_boxes :: "bool \<Rightarrow> type_ref list \<Rightarrow> ('h, 'm) pmu_st_scheme \<Rightarrow> bool" where
  "wf_boxes pci arr s \<longleftrightarrow>
     distinct arr \<and> distinct (concat (map (linked s) arr)) \<and>
     (\<forall>t \<in> set arr. box_list (types s t) = Some (linked s t) \<and>
        map idx (view s t) = map of_nat [0..<length (linked s t)] \<and>
        (\<forall>a \<in> set (linked s t). box_ok pci s t a))"

lemma wf_boxesD:
  assumes "wf_boxes pci arr s"
  shows "distinct arr" "distinct (concat (map (linked s) arr))"
    "t \<in> set arr \<Longrightarrow> box_list (types s t) = Some (linked s t)"
    "t \<in> set arr \<Longrightarrow> map idx (view s t) = map of_nat [0..<length (linked s t)]"
    "t \<in> set arr \<Longrightarrow> a \<in> set (linked s t) \<Longrightarrow> box_ok pci s t a"
  using assms by (auto simp: wf_boxes_def)

lemma length_view [simp]: "length (view s t) = length (linked s t)"
  by (simp add: view_def)

text \<open>Parts of the state the view and the invariant do not look at.\<close>

lemma view_cong:
  assumes "box_heap s' = box_heap s" "\<And>t. box_list (types s' t) = box_list (types s t)"
  shows "linked s' t = linked s t" "view s' t = view s t"
  using assms by (simp_all add: linked_def view_def)

lemma wf_boxes_cong:
  assumes "box_heap s' = box_heap s" "\<And>t. box_list (types s' t) = box_list (types s t)"
    and "allocs s \<le> allocs s'"
  shows "wf_boxes pci arr s \<Longrightarrow> wf_boxes pci arr s'"
proof -
  have l: "linked s' = linked s" "view s' = view s"
    using view_cong [OF assms(1,2)] by (simp_all add: fun_eq_iff)
  have "box_ok pci s t a \<Longrightarrow> box_ok pci s' t a" for t a
    using assms(1,3) by (auto simp: box_ok_def)
  then show "wf_boxes pci arr s \<Longrightarrow> wf_boxes pci arr s'"
    by (simp add: wf_boxes_def l assms(2))
qed

lemma kern_frame [simp]:
  "linked (s\<lparr>krefs := f\<rparr>) = linked s" "view (s\<lparr>krefs := f\<rparr>) = view s"
  "linked (s\<lparr>allocs := n\<rparr>) = linked s" "view (s\<lparr>allocs := n\<rparr>) = view s"
  by (simp_all add: linked_def view_def fun_eq_iff)

lemma wf_krefs [simp]: "wf_boxes pci arr (s\<lparr>krefs := f\<rparr>) = wf_boxes pci arr s"
  by (simp add: wf_boxes_def box_ok_def)

text \<open>On a well-formed list a walk that prints ends, with a line per linked box.\<close>

lemma print_type_wf:
  assumes "wf_boxes pci arr s" "t \<in> set arr" "\<And>b. (pdev b \<noteq> None \<longleftrightarrow> pci) \<Longrightarrow> line b = Some (f b)"
  shows "print_type line s t =
    Some (ty_name (types s t), if linked s t = [] then 0 else num_boxes (types s t), map f (view s t))"
proof -
  have "Option.bind (box_heap s a) line = Some (f (the (box_heap s a)))" if "a \<in> set (linked s t)" for a
    using wf_boxesD(5) [OF assms(1,2) that] assms(3) by (auto simp: box_ok_def)
  from those_map_Some [OF this, where xs = "linked s t"] show ?thesis
    using wf_boxesD(3) [OF assms(1,2)] by (simp add: print_type_def Let_def view_def comp_def)
qed

lemma print_boxes_wf:
  assumes "wf_boxes True (uncore_pci_type s) s" "wf_boxes False (uncore_msr_type s) s"
  shows "uncore_print_pci_boxes P s = Some (map (\<lambda>t.
      (ty_name (types s t), if linked s t = [] then 0 else num_boxes (types s t),
       map (\<lambda>b. (idx b, nodeid b, pdev_line P s (the (pdev b)))) (view s t))) (uncore_pci_type s))"
    and "uncore_print_msr_boxes s = Some (map (\<lambda>t.
      (ty_name (types s t), if linked s t = [] then 0 else num_boxes (types s t),
       map (\<lambda>b. (idx b, nodeid b)) (view s t))) (uncore_msr_type s))"
proof -
  show "uncore_print_pci_boxes P s = Some (map (\<lambda>t.
      (ty_name (types s t), if linked s t = [] then 0 else num_boxes (types s t),
       map (\<lambda>b. (idx b, nodeid b, pdev_line P s (the (pdev b)))) (view s t))) (uncore_pci_type s))"
    unfolding uncore_print_pci_boxes_def
    by (rule those_map_Some, rule print_type_wf [OF assms(1)]) auto
  show "uncore_print_msr_boxes s = Some (map (\<lambda>t.
      (ty_name (types s t), if linked s t = [] then 0 else num_boxes (types s t),
       map (\<lambda>b. (idx b, nodeid b)) (view s t))) (uncore_msr_type s))"
    unfolding uncore_print_msr_boxes_def
    by (rule those_map_Some, rule print_type_wf [OF assms(2)]) auto
qed

section \<open>Appending a box\<close>

text \<open>What both functions that make a box do on success: put \<open>box\<close> at the next address and
  append it to the list of type \<open>t\<close>.\<close>

definition append_box :: "type_ref \<Rightarrow> u32 \<Rightarrow> uncore_box \<Rightarrow> ('h, 'm) pmu_st_scheme \<Rightarrow>
    ('h, 'm) pmu_st_scheme" where
  "append_box t n box s =
     s\<lparr>allocs := Suc (allocs s),
       box_heap := (box_heap s)(allocs s := Some box),
       types := (types s)(t := (types s t)\<lparr>num_boxes := n, box_list := Some (linked s t @ [allocs s])\<rparr>)\<rparr>"

lemma append_box_sel [simp]:
  "allocs (append_box t n box s) = Suc (allocs s)"
  "box_heap (append_box t n box s) = (box_heap s)(allocs s := Some box)"
  "krefs (append_box t n box s) = krefs s"
  "world (append_box t n box s) = world s"
  "panicked (append_box t n box s) = panicked s"
  "uncore_pci_type (append_box t n box s) = uncore_pci_type s"
  "uncore_msr_type (append_box t n box s) = uncore_msr_type s"
  "uncore_pcibus_to_nodeid (append_box t n box s) = uncore_pcibus_to_nodeid s"
  "num_boxes (types (append_box t n box s) t) = n"
  "t' \<noteq> t \<Longrightarrow> types (append_box t n box s) t' = types s t'"
  by (simp_all add: append_box_def)

lemma append_box_linked:
  "linked (append_box t n box s) t' = (if t' = t then linked s t @ [allocs s] else linked s t')"
  by (simp add: append_box_def linked_def)

lemma fresh_address:
  "wf_boxes pci arr s \<Longrightarrow> t \<in> set arr \<Longrightarrow> allocs s \<notin> set (linked s t)"
  by (auto simp: wf_boxes_def box_ok_def)

lemma append_box_view:
  assumes "wf_boxes pci arr s" "t' \<in> set arr"
  shows "view (append_box t n box s) t' = (if t' = t then view s t @ [box] else view s t')"
proof -
  have "allocs s \<notin> set (linked s t')" using assms by (rule fresh_address)
  then have "map (\<lambda>a. the (box_heap (append_box t n box s) a)) (linked s t') = view s t'"
    by (auto simp: view_def append_box_def)
  then show ?thesis
    by (auto simp: view_def append_box_linked)
qed

lemma append_box_wf:
  assumes wf: "wf_boxes pci arr s" and t: "t \<in> set arr"
    and box: "idx box = of_nat (length (linked s t))" "box_type box = t" "pdev box \<noteq> None \<longleftrightarrow> pci"
  shows "wf_boxes pci arr (append_box t n box s)"
proof -
  let ?s = "append_box t n box s"
  have "mset (concat (map (linked ?s) xs)) =
      mset (concat (map (linked s) xs)) + (if t \<in> set xs then {#allocs s#} else {#})"
    if "distinct xs" for xs
    using that by (induction xs) (auto simp: append_box_linked)
  from this [OF wf_boxesD(1) [OF wf]] t
  have "mset (concat (map (linked ?s) arr)) = mset (allocs s # concat (map (linked s) arr))"
    by simp
  moreover have "distinct (allocs s # concat (map (linked s) arr))"
    using wf fresh_address [OF wf] wf_boxesD(2) [OF wf] by auto
  ultimately have d: "distinct (concat (map (linked ?s) arr))"
    by (metis distinct_count_atmost_1 set_mset_mset)
  have "box_list (types ?s t') = Some (linked ?s t') \<and>
        map idx (view ?s t') = map of_nat [0..<length (linked ?s t')] \<and>
        (\<forall>a \<in> set (linked ?s t'). box_ok pci ?s t' a)" if t': "t' \<in> set arr" for t'
  proof (intro conjI ballI)
    show "box_list (types ?s t') = Some (linked ?s t')"
      using wf_boxesD(3) [OF wf t'] by (cases "t' = t") (simp_all add: append_box_linked, simp add: append_box_def)
    show "map idx (view ?s t') = map of_nat [0..<length (linked ?s t')]"
      using wf_boxesD(4) [OF wf t'] box(1)
      by (cases "t' = t") (simp_all add: append_box_view [OF wf] t t' append_box_linked)
    show "box_ok pci ?s t' a" if "a \<in> set (linked ?s t')" for a
      using that box(2,3) wf_boxesD(5) [OF wf t', of a] fresh_address [OF wf t']
      by (auto simp: append_box_linked box_ok_def split: if_splits)
  qed
  with d wf_boxesD(1) [OF wf] show ?thesis
    by (auto simp: wf_boxes_def)
qed

section \<open>A new PCI box\<close>

text \<open>The box of device \<open>d\<close> as the \<open>i\<close>-th of type \<open>t\<close>, and the boxes of a list of devices.\<close>

definition pci_box :: "'h platform \<Rightarrow> (u8 \<Rightarrow> u32) \<Rightarrow> type_ref \<Rightarrow> nat \<Rightarrow> pdev \<Rightarrow> uncore_box" where
  "pci_box P bus t i d =
     \<lparr>idx = of_nat i, nodeid = bus (bus_number P d),
      hrtimer_duration = UNCORE_PMU_HRTIMER_INTERVAL,
      hrtimer = \<lparr>hr_function = Some Uncore_box_hrtimer_def, hr_queued = None\<rparr>,
      event = None, box_type = t, pdev = Some d\<rparr>"

primrec pci_boxes :: "'h platform \<Rightarrow> (u8 \<Rightarrow> u32) \<Rightarrow> type_ref \<Rightarrow> nat \<Rightarrow> pdev list \<Rightarrow> uncore_box list" where
  "pci_boxes P bus t i [] = []"
| "pci_boxes P bus t i (d # ds) = pci_box P bus t i d # pci_boxes P bus t (Suc i) ds"

lemma pci_boxes_append:
  "pci_boxes P bus t i (ds @ es) = pci_boxes P bus t i ds @ pci_boxes P bus t (i + length ds) es"
  by (induction ds arbitrary: i) simp_all

lemma length_pci_boxes [simp]: "length (pci_boxes P bus t i ds) = length ds"
  by (induction ds arbitrary: i) simp_all

abbreviation pci_box_of :: "'h platform \<Rightarrow> ('h, 'm) pmu_st_scheme \<Rightarrow> type_ref \<Rightarrow> pdev \<Rightarrow> uncore_box" where
  "pci_box_of P s t d \<equiv> pci_box P (uncore_pcibus_to_nodeid s) t (length (linked s t)) d"

definition next_num_boxes :: "('h, 'm) pmu_st_scheme \<Rightarrow> type_ref \<Rightarrow> u32" where
  "next_num_boxes s t = (if linked s t = [] then 1 else num_boxes (types s t) + 1)"

lemma last_idx:
  assumes "wf_boxes pci arr s" "t \<in> set arr" "linked s t \<noteq> []" "box_heap s (last (linked s t)) = Some b"
  shows "idx b + 1 = of_nat (length (linked s t))"
proof -
  let ?n = "length (linked s t)"
  have "idx (last (view s t)) = last (map idx (view s t))"
    using assms(3) by (simp add: last_map view_def)
  also have "\<dots> = of_nat (?n - 1)"
    using wf_boxesD(4) [OF assms(1,2)] assms(3) by (simp add: last_map)
  finally have "idx b = of_nat (?n - 1)"
    using assms(3,4) by (simp add: view_def last_map)
  then show ?thesis
    using assms(3) by (cases "linked s t") (simp_all add: add.commute)
qed

lemma pci_new_box_eq:
  assumes wf: "wf_boxes True arr s" and arr: "uncore_pci_type s = arr"
  shows "uncore_pci_new_box P ent d s =
    (case array_at arr (unat (UNCORE_PCI_DEV_TYPE (driver_data ent))) of
       None \<Rightarrow> (- EFAULT, s)
     | Some t \<Rightarrow>
         if kzalloc_ok P (allocs s)
         then (0, append_box t (next_num_boxes s t) (pci_box_of P s t d) s)
         else (- ENOMEM, s\<lparr>allocs := Suc (allocs s)\<rparr>))"
proof (cases "array_at arr (unat (UNCORE_PCI_DEV_TYPE (driver_data ent)))")
  case None
  then show ?thesis by (simp add: uncore_pci_new_box_def arr)
next
  case (Some t)
  then have t: "t \<in> set arr" by (auto simp: array_at_def split: if_splits)
  note bl = wf_boxesD(3) [OF wf t]
  show ?thesis
  proof (cases "linked s t = []")
    case True
    with Some bl show ?thesis
      by (simp add: uncore_pci_new_box_def arr kzalloc_def append_box_def pci_box_def
          next_num_boxes_def zeroed_box_def uncore_box_init_hrtimer_def)
  next
    case False
    then have "last (linked s t) \<in> set (linked s t)" by simp
    from wf_boxesD(5) [OF wf t this] obtain b where b: "box_heap s (last (linked s t)) = Some b"
      by (auto simp: box_ok_def)
    from last_idx [OF wf t False b] have i: "idx b + 1 = of_nat (length (linked s t))" .
    from Some bl False b show ?thesis
      by (simp add: uncore_pci_new_box_def arr kzalloc_def append_box_def pci_box_def
          next_num_boxes_def zeroed_box_def uncore_box_init_hrtimer_def i Let_def)
  qed
qed

lemma pci_new_box_wf:
  assumes "wf_boxes True arr s" "uncore_pci_type s = arr" "uncore_pci_new_box P ent d s = (ret, s')"
  shows "wf_boxes True arr s'" "uncore_pci_type s' = arr" "krefs s' = krefs s"
    "panicked s' = panicked s" "world s' = world s"
    "uncore_pcibus_to_nodeid s' = uncore_pcibus_to_nodeid s" "ret \<in> {0, - EFAULT, - ENOMEM}"
proof -
  have "wf_boxes True arr (append_box t (next_num_boxes s t) (pci_box_of P s t d) s)"
    if "t \<in> set arr" for t
    using assms(1) that by (rule append_box_wf) (simp_all add: pci_box_def)
  moreover have "wf_boxes True arr (s\<lparr>allocs := Suc (allocs s)\<rparr>)"
    by (rule wf_boxes_cong [OF _ _ _ assms(1)]) simp_all
  ultimately show "wf_boxes True arr s'"
    using assms(1,3) by (auto simp: pci_new_box_eq [OF assms(1,2)] array_at_def split: if_splits)
  show "uncore_pci_type s' = arr" "krefs s' = krefs s" "panicked s' = panicked s" "world s' = world s"
      "uncore_pcibus_to_nodeid s' = uncore_pcibus_to_nodeid s" "ret \<in> {0, - EFAULT, - ENOMEM}"
    using assms(2,3) by (auto simp: pci_new_box_eq [OF assms(1,2)] split: option.splits if_splits)
qed

section \<open>Devices held by the boxes\<close>

text \<open>The devices of the linked PCI boxes, with their multiplicity.\<close>

definition pci_held :: "('h, 'm) pmu_st_scheme \<Rightarrow> pdev multiset" where
  "pci_held s = mset (map (\<lambda>b. the (pdev b)) (concat (map (view s) (uncore_pci_type s))))"

definition pci_reg_inv :: "('h, 'm) pmu_st_scheme \<Rightarrow> bool" where
  "pci_reg_inv s \<longleftrightarrow> wf_boxes True (uncore_pci_type s) s"

lemma pci_held_append:
  assumes "wf_boxes True (uncore_pci_type s) s" "t \<in> set (uncore_pci_type s)"
  shows "pci_held (append_box t n box s) = pci_held s + {#the (pdev box)#}"
proof -
  have "mset (map (\<lambda>b. the (pdev b)) (concat (map (view (append_box t n box s)) xs))) =
      mset (map (\<lambda>b. the (pdev b)) (concat (map (view s) xs))) +
        (if t \<in> set xs then {#the (pdev box)#} else {#})"
    if "distinct xs" "set xs \<subseteq> set (uncore_pci_type s)" for xs
    using that by (induction xs) (auto simp: append_box_view [OF assms(1)])
  from this [OF wf_boxesD(1) [OF assms(1)]] assms(2) show ?thesis
    by (simp add: pci_held_def)
qed

lemma pci_new_box_held:
  assumes "pci_reg_inv s" "uncore_pci_new_box P ent d s = (ret, s')"
  shows "pci_held s' = pci_held s + (if ret = 0 then {#d#} else {#})"
proof -
  note wf = assms(1) [unfolded pci_reg_inv_def]
  have "pci_held (s\<lparr>allocs := n\<rparr>) = pci_held s" for n
    by (simp add: pci_held_def)
  then show ?thesis
    using assms(2) pci_held_append [OF wf]
    by (auto simp: pci_new_box_eq [OF wf refl] array_at_def pci_box_def split: if_splits)
qed

interpretation pci_registry: device_registry "uncore_pci_new_box P ent" pci_reg_inv pci_held
  for P :: "'h platform" and ent :: pci_device_id
proof unfold_locales
  fix s s' :: "('h, 'm) pmu_st_scheme" and d ret f
  show "pci_reg_inv (s\<lparr>krefs := f\<rparr>) = pci_reg_inv s" by (simp add: pci_reg_inv_def)
  show "pci_held (s\<lparr>krefs := f\<rparr>) = pci_held s" by (simp add: pci_held_def)
  assume i: "pci_reg_inv s" and n: "uncore_pci_new_box P ent d s = (ret, s')"
  show "pci_reg_inv s'" "krefs s' = krefs s"
    using pci_new_box_wf [OF i [unfolded pci_reg_inv_def] refl n] by (simp_all add: pci_reg_inv_def)
  show "pci_held s' = pci_held s + (if ret = 0 then {#d#} else {#})"
    using i n by (rule pci_new_box_held)
qed

interpretation pci_table: device_table "uncore_pci_new_box P" pci_reg_inv pci_held
  for P :: "'h platform"
  by unfold_locales

section \<open>Releasing the boxes\<close>

text \<open>The devices of a list of addresses, with multiplicity.\<close>

definition devs_at :: "(box_ptr \<Rightarrow> uncore_box option) \<Rightarrow> box_ptr list \<Rightarrow> pdev multiset" where
  "devs_at hp l = mset (map (\<lambda>a. the (pdev (the (hp a)))) l)"

lemma devs_at_simps [simp]:
  "devs_at hp [] = {#}" "devs_at hp (a # l) = add_mset (the (pdev (the (hp a)))) (devs_at hp l)"
  "devs_at hp (l @ l') = devs_at hp l + devs_at hp l'"
  by (simp_all add: devs_at_def)

lemma pci_held_devs: "pci_held s = devs_at (box_heap s) (concat (map (linked s) (uncore_pci_type s)))"
  by (simp add: pci_held_def devs_at_def view_def map_concat comp_def)

lemma free_boxes_eq:
  assumes "distinct l" "\<And>a. a \<in> set l \<Longrightarrow> \<exists>b. box_heap s a = Some b \<and> (pdev b \<noteq> None \<longleftrightarrow> put)"
  shows "free_boxes put l s =
    s\<lparr>krefs := (\<lambda>d. krefs s d - (if put then int (count (devs_at (box_heap s) l) d) else 0)),
      box_heap := (\<lambda>a. if a \<in> set l then None else box_heap s a)\<rparr>"
  using assms
proof (induction l arbitrary: s)
  case Nil
  then show ?case by (cases put) simp_all
next
  case (Cons a l)
  obtain b where b: "box_heap s a = Some b" "pdev b \<noteq> None \<longleftrightarrow> put"
    using Cons.prems(2) [of a] by auto
  define k where "k = (\<lambda>d. krefs s d - (if put \<and> d = the (pdev b) then 1 else 0))"
  define s2 where "s2 = s\<lparr>krefs := k, box_heap := (box_heap s)(a := None)\<rparr>"
  have "pdev b = Some d \<Longrightarrow> put \<Longrightarrow> (krefs s)(d := krefs s d - 1) = k" "\<not> put \<Longrightarrow> krefs s = k" for d
    by (auto simp: k_def)
  then have "(if put then pci_dev_put (pdev b) s else s) = s\<lparr>krefs := k\<rparr>"
    using b(2) by (cases put) (auto simp: pci_dev_put_def simp del: fun_upd_apply)
  then have "free_boxes put (a # l) s = free_boxes put l s2"
    by (simp add: b(1) s2_def)
  also have "\<dots> =
      s2\<lparr>krefs := (\<lambda>d. krefs s2 d - (if put then int (count (devs_at (box_heap s2) l) d) else 0)),
        box_heap := (\<lambda>x. if x \<in> set l then None else box_heap s2 x)\<rparr>"
    using Cons.prems by (intro Cons.IH) (auto simp: s2_def)
  also have "devs_at (box_heap s2) l = devs_at (box_heap s) l"
    using Cons.prems(1) by (auto simp: devs_at_def s2_def intro!: image_mset_cong)
  also have "(\<lambda>d. krefs s2 d - (if put then int (count (devs_at (box_heap s) l) d) else 0)) =
      (\<lambda>d. krefs s d - (if put then int (count (devs_at (box_heap s) (a # l)) d) else 0))"
    by (auto simp: s2_def k_def b(1))
  also have "(\<lambda>x. if x \<in> set l then None else box_heap s2 x) =
      (\<lambda>x. if x \<in> set (a # l) then None else box_heap s x)"
    by (auto simp: s2_def)
  finally show ?case
    by (simp add: s2_def)
qed

text \<open>The boxes of a type under the invariant, as \<open>free_boxes\<close> needs them.\<close>

lemma wf_boxes_alive:
  "wf_boxes pci arr s \<Longrightarrow> t \<in> set arr \<Longrightarrow> a \<in> set (linked s t) \<Longrightarrow>
     \<exists>b. box_heap s a = Some b \<and> (pdev b \<noteq> None \<longleftrightarrow> pci)"
  by (drule (2) wf_boxesD(5)) (auto simp: box_ok_def)

lemma wf_boxes_tl: "wf_boxes pci (t # arr) s \<Longrightarrow> wf_boxes pci arr s"
  by (simp add: wf_boxes_def)

text \<open>The whole exit: every linked box is freed and its device dropped, every list is empty.\<close>

definition released :: "bool \<Rightarrow> type_ref list \<Rightarrow> ('h, 'm) pmu_st_scheme \<Rightarrow> ('h, 'm) pmu_st_scheme" where
  "released put arr s =
     (let l = concat (map (linked s) arr)
      in s\<lparr>krefs := (\<lambda>d. krefs s d - (if put then int (count (devs_at (box_heap s) l) d) else 0)),
           box_heap := (\<lambda>a. if a \<in> set l then None else box_heap s a),
           types := (\<lambda>t. if t \<in> set arr then (types s t)\<lparr>box_list := Some []\<rparr> else types s t)\<rparr>)"

lemma exit_type_eq:
  assumes "wf_boxes pci arr s" "t \<in> set arr"
  shows "exit_type pci t s = released pci [t] s"
proof -
  have "distinct (linked s t)"
    using wf_boxesD(2) [OF assms(1)] assms(2) by (simp add: distinct_concat_iff)
  then show ?thesis
    using wf_boxesD(3) [OF assms] wf_boxes_alive [OF assms]
    by (simp add: exit_type_def free_boxes_eq released_def set_box_list_def fun_eq_iff Let_def
        del: fun_upd_apply) (auto simp: fun_eq_iff)
qed

lemma released_sel [simp]:
  "allocs (released put arr s) = allocs s" "world (released put arr s) = world s"
  "panicked (released put arr s) = panicked s" "procs (released put arr s) = procs s"
  "proc_faults (released put arr s) = proc_faults s" "delays (released put arr s) = delays s"
  "uncore_pci_type (released put arr s) = uncore_pci_type s"
  "uncore_msr_type (released put arr s) = uncore_msr_type s"
  "uncore_pcibus_to_nodeid (released put arr s) = uncore_pcibus_to_nodeid s"
  "linked (released put arr s) t = (if t \<in> set arr then [] else linked s t)"
  by (simp_all add: released_def Let_def linked_def)

text \<open>Under the invariant a box is linked by the list of its own type only.\<close>

lemma linked_apart:
  assumes "box_ok p s t a" "box_ok q s t' a'" "t \<noteq> t'"
  shows "a \<noteq> a'"
  using assms by (auto simp: box_ok_def)

lemma released_heap:
  assumes "wf_boxes pci arr s" "wf_boxes q arr' s" "set arr' \<inter> set ts = {}" "set ts \<subseteq> set arr"
    "t \<in> set arr'" "a \<in> set (linked s t)"
  shows "box_heap (released put ts s) a = box_heap s a"
proof -
  have "a \<notin> set (linked s t')" if "t' \<in> set ts" for t'
  proof
    assume "a \<in> set (linked s t')"
    then have "box_ok pci s t' a" using wf_boxesD(5) [OF assms(1)] assms(4) that by blast
    moreover have "box_ok q s t a" using wf_boxesD(5) [OF assms(2,5,6)] .
    moreover have "t \<noteq> t'" using assms(3,5) that by blast
    ultimately show False using linked_apart by blast
  qed
  then show ?thesis by (auto simp: released_def Let_def)
qed

lemma released_other:
  assumes "wf_boxes pci arr s" "wf_boxes q arr' s" "set arr' \<inter> set ts = {}" "set ts \<subseteq> set arr"
  shows "wf_boxes q arr' (released put ts s)"
    and "t \<in> set arr' \<Longrightarrow> view (released put ts s) t = view s t"
proof -
  let ?s = "released put ts s"
  have l: "linked ?s t = linked s t" if "t \<in> set arr'" for t
    using that assms(3) by auto
  have v: "view ?s t = view s t" if "t \<in> set arr'" for t
    unfolding view_def l [OF that]
    by (rule map_cong [OF refl]) (simp add: released_heap [OF assms that])
  then show "t \<in> set arr' \<Longrightarrow> view ?s t = view s t" .
  have "concat (map (linked ?s) arr') = concat (map (linked s) arr')"
    using l by (simp cong: map_cong)
  moreover have "box_list (types ?s t) = Some (linked ?s t)" if "t \<in> set arr'" for t
    using wf_boxesD(3) [OF assms(2) that] that assms(3) by (auto simp: released_def Let_def linked_def)
  moreover have "box_ok q ?s t a" if "t \<in> set arr'" "a \<in> set (linked s t)" for t a
    using wf_boxesD(5) [OF assms(2) that] released_heap [OF assms that] by (simp add: box_ok_def)
  ultimately show "wf_boxes q arr' ?s"
    using assms(2) l v by (auto simp: wf_boxes_def)
qed

lemma released_nil: "released put [] s = s"
  by (cases put) (simp_all add: released_def)

lemma released_cons:
  assumes "wf_boxes pci (t # ts) s"
  shows "released pci ts (released pci [t] s) = released pci (t # ts) s"
proof -
  let ?s = "released pci [t] s" and ?C = "concat (map (linked s) ts)"
  have d: "t \<notin> set ts" using wf_boxesD(1) [OF assms] by simp
  have l: "concat (map (linked ?s) ts) = ?C"
    by (rule arg_cong [where f = concat], rule map_cong) (use d in auto)
  have "set ts \<inter> set [t] = {}" "set [t] \<subseteq> set (t # ts)" using d by auto
  note h = released_heap [OF assms wf_boxes_tl [OF assms] this]
  have "devs_at (box_heap ?s) ?C = devs_at (box_heap s) ?C"
    using h by (auto simp: devs_at_def intro!: image_mset_cong)
  then have "released pci ts ?s =
      ?s\<lparr>krefs := (\<lambda>d. krefs ?s d - (if pci then int (count (devs_at (box_heap s) ?C) d) else 0)),
        box_heap := (\<lambda>a. if a \<in> set ?C then None else box_heap ?s a),
        types := (\<lambda>t. if t \<in> set ts then (types ?s t)\<lparr>box_list := Some []\<rparr> else types ?s t)\<rparr>"
    by (simp only: released_def [of pci ts] l Let_def)
  also have "\<dots> = released pci (t # ts) s"
    by (cases pci) (auto simp: released_def Let_def fun_eq_iff intro!: pmu_st.equality)
  finally show ?thesis .
qed

lemma exit_types_eq:
  "wf_boxes pci arr s \<Longrightarrow> fold (exit_type pci) arr s = released pci arr s"
proof (induction arr arbitrary: s)
  case Nil
  then show ?case by (simp add: released_nil)
next
  case (Cons t ts)
  have d: "set ts \<inter> set [t] = {}" "set [t] \<subseteq> set (t # ts)"
    using wf_boxesD(1) [OF Cons.prems] by auto
  have e: "exit_type pci t s = released pci [t] s"
    by (rule exit_type_eq [OF Cons.prems]) simp
  have w: "wf_boxes pci ts (released pci [t] s)"
    by (rule released_other(1) [OF Cons.prems wf_boxes_tl [OF Cons.prems] d])
  show ?case
    by (simp add: e Cons.IH [OF w] released_cons [OF Cons.prems])
qed

lemma released_wf:
  assumes "wf_boxes pci arr s"
  shows "wf_boxes q arr (released pci arr s)"
proof -
  have "concat (map (linked (released pci arr s)) arr) = []" by simp
  then show ?thesis
    using wf_boxesD(1) [OF assms] by (simp add: wf_boxes_def view_def del: concat_eq_Nil_conv) (simp add: released_def Let_def)
qed

text \<open>Releasing keeps the references that no box accounts for.\<close>

lemma released_surplus:
  assumes "pci_reg_inv s"
  shows "surplus pci_held (released True (uncore_pci_type s) s) d = surplus pci_held s d"
proof -
  have "concat (map (linked (released True ts s)) ts) = []" for ts
    by simp
  then have "pci_held (released True (uncore_pci_type s) s) = {#}"
    by (simp only: pci_held_devs released_sel devs_at_simps)
  then show ?thesis
    by (simp add: surplus_def pci_held_devs) (simp add: released_def Let_def)
qed

end
