(* ===== verification/Box_Scan.thy ===== *)
theory Box_Scan
  imports Box_Lists
begin

text \<open>
  What the initialisation code does to the lists of boxes: which parts of the state it may
  change (\<open>pmu_frame\<close>, \<open>same_boxes\<close>), the initial lists, the boxes a device scan appends
  (\<open>pci_added\<close>, for one device, one id and a table of ids), and the mapping of PCI buses to
  nodes.
\<close>

section \<open>What the box code changes\<close>

text \<open>\<open>layout\<close> is a box type without the fields that change: its registers and methods.
  \<open>pmu_frame s s'\<close>: only allocations, reference counts, the heap and the types differ, and the
  layouts of the types do not. \<open>same_boxes arr s s'\<close>: the lists of the types of \<open>arr\<close> and the
  boxes on them are the same.\<close>

definition layout :: "uncore_box_type \<Rightarrow> uncore_box_type" where
  "layout ty = ty\<lparr>num_boxes := 0, box_list := None\<rparr>"

lemma layout_upd [simp]:
  "layout (ty\<lparr>num_boxes := n\<rparr>) = layout ty" "layout (ty\<lparr>box_list := l\<rparr>) = layout ty"
  by (simp_all add: layout_def)

lemma layout_sel:
  assumes "layout ty = layout ty'"
  shows "box_ctl ty = box_ctl ty'" "box_status ty = box_status ty'" "perf_ctl ty = perf_ctl ty'"
    "perf_ctr ty = perf_ctr ty'" "perf_ctr_bits ty = perf_ctr_bits ty'" "ops ty = ops ty'"
    "msr_offset ty = msr_offset ty'"
  using arg_cong [OF assms, of box_ctl] arg_cong [OF assms, of box_status]
    arg_cong [OF assms, of perf_ctl] arg_cong [OF assms, of perf_ctr]
    arg_cong [OF assms, of perf_ctr_bits] arg_cong [OF assms, of ops] arg_cong [OF assms, of msr_offset]
  by (simp_all add: layout_def)

definition pmu_frame :: "('h, 'm) pmu_st_scheme \<Rightarrow> ('h, 'm) pmu_st_scheme \<Rightarrow> bool" where
  "pmu_frame s s' \<longleftrightarrow>
     s' = s\<lparr>allocs := allocs s', krefs := krefs s', box_heap := box_heap s', types := types s'\<rparr> \<and>
     (\<forall>t. layout (types s' t) = layout (types s t))"

lemma pmu_frame_refl [simp]: "pmu_frame s s"
  by (simp add: pmu_frame_def)

lemma pmu_frame_sel:
  assumes "pmu_frame s s'"
  shows "world s' = world s" "procs s' = procs s" "proc_faults s' = proc_faults s"
    "delays s' = delays s" "panicked s' = panicked s" "uncore_pci_type s' = uncore_pci_type s"
    "uncore_msr_type s' = uncore_msr_type s" "uncore_pci_driver s' = uncore_pci_driver s"
    "uncore_pcibus_to_nodeid s' = uncore_pcibus_to_nodeid s"
    "uncore_pmu_desc s' = uncore_pmu_desc s" "pmu_st.more s' = pmu_st.more s"
    "layout (types s' t) = layout (types s t)"
proof -
  show "layout (types s' t) = layout (types s t)" using assms by (simp add: pmu_frame_def)
  have "\<exists>a k h t. s' = s\<lparr>allocs := a, krefs := k, box_heap := h, types := t\<rparr>"
    using assms unfolding pmu_frame_def by blast
  then obtain a k h t where s: "s' = s\<lparr>allocs := a, krefs := k, box_heap := h, types := t\<rparr>"
    by blast
  show "world s' = world s" "procs s' = procs s" "proc_faults s' = proc_faults s"
    "delays s' = delays s" "panicked s' = panicked s" "uncore_pci_type s' = uncore_pci_type s"
    "uncore_msr_type s' = uncore_msr_type s" "uncore_pci_driver s' = uncore_pci_driver s"
    "uncore_pcibus_to_nodeid s' = uncore_pcibus_to_nodeid s"
    "uncore_pmu_desc s' = uncore_pmu_desc s" "pmu_st.more s' = pmu_st.more s"
    by (simp_all add: s)
qed

lemma pmu_frame_trans: "pmu_frame s s' \<Longrightarrow> pmu_frame s' s'' \<Longrightarrow> pmu_frame s s''"
proof -
  assume a: "pmu_frame s s'" "pmu_frame s' s''"
  then obtain a k h t a' k' h' t' where
    "s' = s\<lparr>allocs := a, krefs := k, box_heap := h, types := t\<rparr>"
    "s'' = s'\<lparr>allocs := a', krefs := k', box_heap := h', types := t'\<rparr>"
    unfolding pmu_frame_def by blast
  with a show ?thesis by (simp add: pmu_frame_def)
qed

lemma pmu_frame_steps [simp]:
  "pmu_frame s (s\<lparr>allocs := n\<rparr>)" "pmu_frame s (s\<lparr>krefs := f\<rparr>)"
  "pmu_frame s (append_box t m box s)" "pmu_frame s (released put arr s)"
  "pmu_frame s (set_box_list t l s)"
  by (simp_all add: pmu_frame_def append_box_def released_def set_box_list_def Let_def)

lemma pmu_frame_types: "(\<And>t. layout (ty t) = layout (types s t)) \<Longrightarrow> pmu_frame s (s\<lparr>types := ty\<rparr>)"
  by (simp add: pmu_frame_def)

lemma pmu_frame_refs [simp]:
  "pmu_frame s (get_device d s)" "pmu_frame s (pci_dev_put x s)"
  by (simp_all add: get_device_def pci_dev_put_def split: option.splits)

definition same_boxes :: "type_ref list \<Rightarrow> ('h, 'm) pmu_st_scheme \<Rightarrow> ('h, 'm) pmu_st_scheme \<Rightarrow> bool" where
  "same_boxes arr s s' \<longleftrightarrow> allocs s \<le> allocs s' \<and>
     (\<forall>t \<in> set arr. box_list (types s' t) = box_list (types s t) \<and>
        (\<forall>a \<in> set (linked s t). box_heap s' a = box_heap s a))"

lemma same_boxes_linked: "same_boxes arr s s' \<Longrightarrow> t \<in> set arr \<Longrightarrow> linked s' t = linked s t"
  by (simp add: same_boxes_def linked_def)

lemma same_boxes_view: "same_boxes arr s s' \<Longrightarrow> t \<in> set arr \<Longrightarrow> view s' t = view s t"
  by (simp add: view_def same_boxes_linked) (simp add: same_boxes_def)

lemma same_boxes_refl [simp]: "same_boxes arr s s"
  by (simp add: same_boxes_def)

lemma same_boxes_trans: "same_boxes arr s s' \<Longrightarrow> same_boxes arr s' s'' \<Longrightarrow> same_boxes arr s s''"
  using same_boxes_linked [of arr s s'] by (auto simp: same_boxes_def)

lemma same_boxes_wf: 
  assumes "same_boxes arr s s'" "wf_boxes p arr s"
  shows "wf_boxes p arr s'"
proof -
  have l: "linked s' t = linked s t" if "t \<in> set arr" for t
    using same_boxes_linked [OF assms(1) that] .
  then have c: "concat (map (linked s') arr) = concat (map (linked s) arr)"
    by (simp cong: map_cong)
  have "box_ok p s' t a" if "t \<in> set arr" "a \<in> set (linked s t)" for t a
    using wf_boxesD(5) [OF assms(2) that] assms(1) that by (auto simp: box_ok_def same_boxes_def)
  then show ?thesis
    using assms l c same_boxes_view [OF assms(1)]
    by (auto simp: wf_boxes_def) (simp_all add: same_boxes_def)
qed

lemma same_boxes_steps [simp]:
  "same_boxes arr s (s\<lparr>krefs := f\<rparr>)" "same_boxes arr s (get_device d s)"
  "same_boxes arr s (pci_dev_put x s)" "same_boxes arr s (s\<lparr>allocs := Suc (allocs s)\<rparr>)"
  by (simp_all add: same_boxes_def get_device_def pci_dev_put_def split: option.splits)

lemma same_boxes_append:
  "wf_boxes p arr s \<Longrightarrow> t \<notin> set arr \<Longrightarrow> same_boxes arr s (append_box t n box s)"
  using fresh_address [of p arr s] by (auto simp: same_boxes_def append_box_def)

lemma same_boxes_released:
  assumes "wf_boxes p arr s" "wf_boxes q arr' s" "set arr' \<inter> set arr = {}"
  shows "same_boxes arr' s (released p arr s)"
proof -
  have "box_heap (released p arr s) a = box_heap s a" if "t \<in> set arr'" "a \<in> set (linked s t)" for t a
    using released_heap [OF assms subset_refl that] .
  moreover have "box_list (types (released p arr s) t) = box_list (types s t)" if "t \<in> set arr'" for t
    using assms(3) that by (auto simp: released_def Let_def)
  ultimately show ?thesis by (simp add: same_boxes_def)
qed

text \<open>No memory is lost: every live box is on the list of its own type.\<close>

definition no_leak :: "('h, 'm) pmu_st_scheme \<Rightarrow> bool" where
  "no_leak s \<longleftrightarrow> (\<forall>a b. box_heap s a = Some b \<longrightarrow> a \<in> set (linked s (box_type b)))"

lemma no_leak_steps [simp]:
  "no_leak (s\<lparr>krefs := f\<rparr>) = no_leak s" "no_leak (s\<lparr>allocs := n\<rparr>) = no_leak s"
  "no_leak (get_device d s) = no_leak s" "no_leak (pci_dev_put x s) = no_leak s"
  by (simp_all add: no_leak_def get_device_def pci_dev_put_def linked_def split: option.splits)

lemma no_leak_append:
  "no_leak s \<Longrightarrow> box_type box = t \<Longrightarrow> no_leak (append_box t n box s)"
  by (fastforce simp: no_leak_def append_box_linked)

lemma no_leak_released:
  "no_leak s \<Longrightarrow> no_leak (released p arr s)"
  by (auto simp: no_leak_def) (auto simp: released_def Let_def split: if_splits)

lemma no_leak_empty: "no_leak s \<Longrightarrow> (\<And>t. linked s t = []) \<Longrightarrow> box_heap s = Map.empty"
  by (auto simp: no_leak_def fun_eq_iff)

section \<open>Initialising the lists\<close>

lemma types_init_eq:
  "uncore_types_init arr s =
     (0, s\<lparr>types := (\<lambda>t. if t \<in> set arr then (types s t)\<lparr>box_list := Some []\<rparr> else types s t)\<rparr>)"
proof -
  have "fold (\<lambda>t. set_box_list t (Some [])) arr s =
      s\<lparr>types := (\<lambda>t. if t \<in> set arr then (types s t)\<lparr>box_list := Some []\<rparr> else types s t)\<rparr>" for s :: "('a, 'b) pmu_st_scheme"
    by (induction arr arbitrary: s) (auto simp: set_box_list_def fun_eq_iff)
  then show ?thesis by (simp add: uncore_types_init_def)
qed

lemma types_init_wf:
  assumes "uncore_types_init arr s = (ret, s')" "distinct arr"
  shows "ret = 0" "wf_boxes p arr s'" "pmu_frame s s'" "krefs s' = krefs s" "allocs s' = allocs s"
    "t \<in> set arr \<Longrightarrow> linked s' t = []" "num_boxes (types s' t) = num_boxes (types s t)"
    "set arr' \<inter> set arr = {} \<Longrightarrow> same_boxes arr' s s'"
    "no_leak s \<Longrightarrow> (\<And>t. t \<in> set arr \<Longrightarrow> linked s t = []) \<Longrightarrow> no_leak s'"
proof -
  have s': "s' = s\<lparr>types := (\<lambda>t. if t \<in> set arr then (types s t)\<lparr>box_list := Some []\<rparr> else types s t)\<rparr>"
    and r: "ret = 0"
    using assms(1) by (simp_all add: types_init_eq)
  show "ret = 0" by (rule r)
  show l: "linked s' t = []" if "t \<in> set arr" for t
    using that by (simp add: s' linked_def)
  then have "concat (map (linked s') arr) = []" by simp
  then show "wf_boxes p arr s'"
    using assms(2) l by (simp add: wf_boxes_def view_def del: concat_eq_Nil_conv) (simp add: s')
  show "pmu_frame s s'" "krefs s' = krefs s" "allocs s' = allocs s"
    "num_boxes (types s' t) = num_boxes (types s t)"
    by (simp_all add: s' pmu_frame_types)
  show "set arr' \<inter> set arr = {} \<Longrightarrow> same_boxes arr' s s'"
    by (auto simp: s' same_boxes_def)
  have "linked s' t = linked s t" if "t \<notin> set arr" for t
    using that by (simp add: s' linked_def)
  then have "a \<in> set (linked s' (box_type b))"
    if "no_leak s" "\<And>t. t \<in> set arr \<Longrightarrow> linked s t = []" "box_heap s a = Some b" for a b
  proof -
    have "a \<in> set (linked s (box_type b))" using that(1,3) by (simp add: no_leak_def)
    moreover from this have "box_type b \<notin> set arr" using that(2) [of "box_type b"] by auto
    ultimately show ?thesis using \<open>\<And>t. t \<notin> set arr \<Longrightarrow> linked s' t = linked s t\<close> by simp
  qed
  then show "no_leak s \<Longrightarrow> (\<And>t. t \<in> set arr \<Longrightarrow> linked s t = []) \<Longrightarrow> no_leak s'"
    by (simp add: no_leak_def [of s']) (simp add: s')
qed

section \<open>Scanning for PCI boxes\<close>

definition ent_type :: "type_ref list \<Rightarrow> pci_device_id \<Rightarrow> type_ref option" where
  "ent_type arr ent = array_at arr (unat (UNCORE_PCI_DEV_TYPE (driver_data ent)))"

lemma ent_type_in: "ent_type arr ent = Some t \<Longrightarrow> t \<in> set arr"
  by (auto simp: ent_type_def array_at_def split: if_splits)

text \<open>The number kept beside a list that is not empty is its length. The number of an empty list is
  what it was before the list was initialised.\<close>

definition boxes_counted :: "('h, 'm) pmu_st_scheme \<Rightarrow> type_ref \<Rightarrow> bool" where
  "boxes_counted s t \<longleftrightarrow> linked s t = [] \<or> num_boxes (types s t) = of_nat (length (linked s t))"

lemma boxes_counted_cong: "types s' t = types s t \<Longrightarrow> boxes_counted s' t = boxes_counted s t"
  by (simp add: boxes_counted_def linked_def)

lemma boxes_counted_steps [simp]:
  "boxes_counted (s\<lparr>krefs := f\<rparr>) = boxes_counted s" "boxes_counted (s\<lparr>allocs := n\<rparr>) = boxes_counted s"
  by (rule ext, rule boxes_counted_cong, simp)+

lemma boxes_counted_append:
  "boxes_counted s t \<Longrightarrow> boxes_counted s t' \<Longrightarrow> boxes_counted (append_box t (next_num_boxes s t) box s) t'"
  by (auto simp: boxes_counted_def append_box_linked next_num_boxes_def add.commute)

text \<open>What registering the devices \<open>ds\<close> with type \<open>ty\<close> does to the boxes: on success the
  boxes of the devices are appended, in order. The PCI lists stay well formed and the other
  lists untouched in any case.\<close>

definition pci_added :: "'h platform \<Rightarrow> (type_ref \<Rightarrow> pdev list) \<Rightarrow> int \<Rightarrow>
    ('h, 'm) pmu_st_scheme \<Rightarrow> ('h, 'm) pmu_st_scheme \<Rightarrow> bool" where
  "pci_added P ds ret s s' \<longleftrightarrow>
     wf_boxes True (uncore_pci_type s) s' \<and> pmu_frame s s' \<and> (no_leak s \<longrightarrow> no_leak s') \<and>
     (\<forall>t. t \<notin> set (uncore_pci_type s) \<longrightarrow> types s' t = types s t) \<and>
     (ret = 0 \<longrightarrow> (\<forall>t \<in> set (uncore_pci_type s). view s' t = view s t @
        pci_boxes P (uncore_pcibus_to_nodeid s) t (length (linked s t)) (ds t))) \<and>
     ((\<forall>t. boxes_counted s t) \<longrightarrow> (\<forall>t. boxes_counted s' t)) \<and>
     (\<forall>arr p. wf_boxes p arr s \<longrightarrow> set arr \<inter> set (uncore_pci_type s) = {} \<longrightarrow> same_boxes arr s s')"

lemma pci_added_trans:
  assumes "pci_added P ds 0 s s1" "pci_added P es ret s1 s'"
  shows "pci_added P (\<lambda>t. ds t @ es t) ret s s'"
proof -
  have f: "pmu_frame s s1" "pmu_frame s1 s'" using assms by (simp_all add: pci_added_def)
  note sel = pmu_frame_sel [OF f(1)]
  have "length (linked s1 t) = length (linked s t) + length (ds t)"
    if "t \<in> set (uncore_pci_type s)" for t
    using assms(1) that length_view [of s1 t] by (simp add: pci_added_def)
  moreover have "same_boxes arr s s'"
    if "wf_boxes p arr s" "set arr \<inter> set (uncore_pci_type s) = {}" for arr p
  proof -
    have s: "same_boxes arr s s1" using assms(1) that by (auto simp: pci_added_def)
    have "same_boxes arr s1 s'"
      using assms(2) that(2) same_boxes_wf [OF s that(1)] by (auto simp: pci_added_def sel)
    with s show ?thesis by (rule same_boxes_trans)
  qed
  ultimately show ?thesis
    using assms pmu_frame_trans [OF f]
    by (auto simp: pci_added_def sel pci_boxes_append)
qed

lemma pci_added_refs:
  assumes "wf_boxes True (uncore_pci_type s) s"
  shows "pci_added P (\<lambda>_. []) 0 s (get_device d s)" "pci_added P (\<lambda>_. []) 0 s (pci_dev_put x s)"
  using assms same_boxes_wf [OF same_boxes_steps(2) assms] same_boxes_wf [OF same_boxes_steps(3) assms]
  by (simp_all add: pci_added_def same_boxes_view [OF same_boxes_steps(2)]
      same_boxes_view [OF same_boxes_steps(3)])
    (simp_all add: get_device_def pci_dev_put_def split: option.splits)

lemma pci_new_box_added:
  assumes wf: "wf_boxes True (uncore_pci_type s) s" and n: "uncore_pci_new_box P ent d s = (ret, s')"
  shows "pci_added P (\<lambda>t. if ent_type (uncore_pci_type s) ent = Some t then [d] else []) ret s s'"
    and "ent_type (uncore_pci_type s) ent \<noteq> None \<Longrightarrow> kzalloc_ok P (allocs s) \<Longrightarrow> ret = 0"
    and "allocs s' \<le> Suc (allocs s)"
proof -
  note eq = n [unfolded pci_new_box_eq [OF wf refl], folded ent_type_def]
  have w: "wf_boxes True (uncore_pci_type s) s'"
    using pci_new_box_wf [OF wf refl n] by simp
  have f: "pmu_frame s s'"
    using eq by (auto split: option.splits if_splits)
  have v: "\<forall>t \<in> set (uncore_pci_type s). view s' t = view s t @
      pci_boxes P (uncore_pcibus_to_nodeid s) t (length (linked s t))
        (if ent_type (uncore_pci_type s) ent = Some t then [d] else [])" if "ret = 0"
    using eq that by (auto simp: append_box_view [OF wf] split: option.splits if_splits)
  have "same_boxes arr s s'" if "wf_boxes p arr s" "set arr \<inter> set (uncore_pci_type s) = {}" for arr p
    using eq that(2) ent_type_in [of "uncore_pci_type s" ent] same_boxes_append [OF that(1)]
    by (auto split: option.splits if_splits)
  moreover have "no_leak s \<longrightarrow> no_leak s'"
    using eq by (auto simp: pci_box_def intro: no_leak_append split: option.splits if_splits)
  moreover have "\<forall>t. t \<notin> set (uncore_pci_type s) \<longrightarrow> types s' t = types s t"
    using eq ent_type_in [of "uncore_pci_type s" ent] by (auto simp: append_box_def split: option.splits if_splits)
  moreover have "(\<forall>t. boxes_counted s t) \<longrightarrow> (\<forall>t. boxes_counted s' t)"
    using eq by (auto simp: boxes_counted_append split: option.splits if_splits)
  ultimately show "pci_added P (\<lambda>t. if ent_type (uncore_pci_type s) ent = Some t then [d] else []) ret s s'"
    using w f v by (simp add: pci_added_def)
  show "ent_type (uncore_pci_type s) ent \<noteq> None \<Longrightarrow> kzalloc_ok P (allocs s) \<Longrightarrow> ret = 0"
    using eq by auto
  show "allocs s' \<le> Suc (allocs s)"
    using eq by (auto split: option.splits if_splits)
qed

text \<open>The references that change between two devices of a scan add no box.\<close>

lemma pci_added_turn:
  assumes "wf_boxes True (uncore_pci_type s) s"
  shows "pci_added P (\<lambda>_. []) 0 s (get_device d (pci_dev_put from (get_device d s)))"
proof -
  note a = pci_added_refs(1) [OF assms, of P d]
  then have w1: "wf_boxes True (uncore_pci_type (get_device d s)) (get_device d s)"
    by (simp add: pci_added_def pmu_frame_sel [OF pmu_frame_refs(1)])
  note b = pci_added_refs(2) [OF w1, of P "from"]
  then have w2: "wf_boxes True (uncore_pci_type (pci_dev_put from (get_device d s))) (pci_dev_put from (get_device d s))"
    by (simp add: pci_added_def pmu_frame_sel [OF pmu_frame_refs(2)])
  note c = pci_added_refs(1) [OF w2, of P d]
  from pci_added_trans [OF pci_added_trans [OF a b] c] show ?thesis by simp
qed

lemma pci_scan_added:
  assumes "wf_boxes True (uncore_pci_type s) s"
    and "scan_list (uncore_pci_new_box P ent) from ds s = (ret, s')"
  shows "pci_added P (\<lambda>t. if ent_type (uncore_pci_type s) ent = Some t then ds else []) ret s s'"
    and "ent_type (uncore_pci_type s) ent \<noteq> None \<Longrightarrow> (\<And>k. kzalloc_ok P k) \<Longrightarrow> ret = 0"
proof -
  have "pci_added P (\<lambda>t. if ent_type (uncore_pci_type s) ent = Some t then ds else []) ret s s' \<and>
    (ent_type (uncore_pci_type s) ent \<noteq> None \<longrightarrow> (\<forall>k. kzalloc_ok P k) \<longrightarrow> ret = 0)"
    using assms
  proof (induction ds arbitrary: "from" s)
    case Nil
    then show ?case using pci_added_refs(2) [OF Nil.prems(1)] by auto
  next
    case (Cons d ds)
    let ?g = "get_device d (pci_dev_put from (get_device d s))"
    obtain r s2 where n: "uncore_pci_new_box P ent d ?g = (r, s2)" by fastforce
    have g: "pci_added P (\<lambda>_. []) 0 s ?g" by (rule pci_added_turn [OF Cons.prems(1)])
    then have pg: "uncore_pci_type ?g = uncore_pci_type s" and wg: "wf_boxes True (uncore_pci_type ?g) ?g"
      by (auto simp: pci_added_def dest: pmu_frame_sel(6))
    note new = pci_new_box_added [OF wg n, unfolded pg]
    note step = pci_added_trans [OF g new(1), simplified]
    then have p2: "uncore_pci_type s2 = uncore_pci_type s" and w2: "wf_boxes True (uncore_pci_type s2) s2"
      by (auto simp: pci_added_def dest: pmu_frame_sel(6))
    show ?case
    proof (cases "r = 0")
      case True
      with Cons.prems(2) n have "scan_list (uncore_pci_new_box P ent) (Some d) ds s2 = (ret, s')" by simp
      note ih = Cons.IH [OF w2 this, unfolded p2]
      have "(\<lambda>t. (if ent_type (uncore_pci_type s) ent = Some t then [d] else []) @
          (if ent_type (uncore_pci_type s) ent = Some t then ds else [])) =
          (\<lambda>t. if ent_type (uncore_pci_type s) ent = Some t then d # ds else [])"
        by auto
      with pci_added_trans [OF step [unfolded True] ih [THEN conjunct1]] ih
      show ?thesis by simp
    next
      case False
      with Cons.prems(2) n have "ret = r" "s' = s2" by simp_all
      with False step new(2) show ?thesis by (auto simp: pci_added_def)
    qed
  qed
  then show "pci_added P (\<lambda>t. if ent_type (uncore_pci_type s) ent = Some t then ds else []) ret s s'"
    and "ent_type (uncore_pci_type s) ent \<noteq> None \<Longrightarrow> (\<And>k. kzalloc_ok P k) \<Longrightarrow> ret = 0"
    by auto
qed

section \<open>The table of PCI ids\<close>

text \<open>The kernel's iterator enumerates a finite list of devices for every vendor and device id.\<close>

definition enumerates :: "'h platform \<Rightarrow> (u32 \<Rightarrow> u32 \<Rightarrow> pdev list) \<Rightarrow> bool" where
  "enumerates P devs \<longleftrightarrow> (\<forall>v d. chain (pci_next P v d) None (devs v d))"

abbreviation ent_devs :: "(u32 \<Rightarrow> u32 \<Rightarrow> pdev list) \<Rightarrow> pci_device_id \<Rightarrow> pdev list" where
  "ent_devs devs e \<equiv> devs (vendor e) (device e)"

definition type_devices :: "(u32 \<Rightarrow> u32 \<Rightarrow> pdev list) \<Rightarrow> type_ref list \<Rightarrow> pci_device_id list \<Rightarrow>
    type_ref \<Rightarrow> pdev list" where
  "type_devices devs arr ids t =
     concat (map (\<lambda>e. if ent_type arr e = Some t then ent_devs devs e else []) ids)"

lemma pci_ids_chain:
  assumes "enumerates P devs" "\<And>e. e \<in> set es \<Longrightarrow> vendor e \<noteq> 0" "vendor z = 0" "device z = 0"
  shows "uncore_pci_ids P (es @ [z]) s =
    Some (scan_ids (uncore_pci_new_box P) (ent_devs devs) es s)"
  using assms(2)
proof (induction es arbitrary: s)
  case Nil
  then show ?case using assms(3,4) by simp
next
  case (Cons e es)
  have "pci_scan P (uncore_pci_new_box P e) (vendor e) (device e) None s =
      Some (scan_list (uncore_pci_new_box P e) None (ent_devs devs e) s)"
    using assms(1) by (intro pci_scan_chain) (simp add: enumerates_def)
  with Cons show ?case by (auto split: prod.splits)
qed

lemma pci_ids_added:
  assumes "wf_boxes True (uncore_pci_type s) s"
    and "scan_ids (uncore_pci_new_box P) (ent_devs devs) es s = (ret, s')"
  shows "pci_added P (type_devices devs (uncore_pci_type s) es) ret s s'"
    and "(\<And>e. e \<in> set es \<Longrightarrow> ent_type (uncore_pci_type s) e \<noteq> None) \<Longrightarrow>
      (\<And>k. kzalloc_ok P k) \<Longrightarrow> ret = 0"
proof -
  have "pci_added P (type_devices devs (uncore_pci_type s) es) ret s s' \<and>
    ((\<forall>e \<in> set es. ent_type (uncore_pci_type s) e \<noteq> None) \<longrightarrow> (\<forall>k. kzalloc_ok P k) \<longrightarrow> ret = 0)"
    using assms
  proof (induction es arbitrary: s)
    case Nil
    then show ?case by (auto simp: pci_added_def type_devices_def)
  next
    case (Cons e es)
    obtain r s1 where n: "scan_list (uncore_pci_new_box P e) None (ent_devs devs e) s = (r, s1)"
      by fastforce
    note step = pci_scan_added [OF Cons.prems(1) n]
    then have p: "uncore_pci_type s1 = uncore_pci_type s" and w: "wf_boxes True (uncore_pci_type s1) s1"
      by (auto simp: pci_added_def dest: pmu_frame_sel(6))
    show ?case
    proof (cases "r = 0")
      case True
      with Cons.prems(2) n have "scan_ids (uncore_pci_new_box P) (ent_devs devs) es s1 = (ret, s')"
        by simp
      note ih = Cons.IH [OF w this, unfolded p]
      from pci_added_trans [OF step(1) [unfolded True] ih [THEN conjunct1]] ih
      show ?thesis by (simp add: type_devices_def)
    next
      case False
      with Cons.prems(2) n have "ret = r" "s' = s1" by simp_all
      with False step show ?thesis by (auto simp: pci_added_def)
    qed
  qed
  then show "pci_added P (type_devices devs (uncore_pci_type s) es) ret s s'"
    and "(\<And>e. e \<in> set es \<Longrightarrow> ent_type (uncore_pci_type s) e \<noteq> None) \<Longrightarrow>
      (\<And>k. kzalloc_ok P k) \<Longrightarrow> ret = 0"
    by auto
qed

lemma hswep_ids:
  "HSWEP_UNCORE_PCI_IDS = butlast HSWEP_UNCORE_PCI_IDS @ [null_entry]"
  by (simp add: HSWEP_UNCORE_PCI_IDS_def)

lemma hswep_ids_entries:
  assumes "e \<in> set (butlast HSWEP_UNCORE_PCI_IDS)"
  shows "vendor e \<noteq> 0" "ent_type HSWEP_UNCORE_PCI_TYPE e \<noteq> None"
  using assms by (auto simp: HSWEP_UNCORE_PCI_IDS_def pci_entry_def PCI_VENDOR_ID_INTEL_def
      ent_type_def pci_dev_type_data pci_id_defs HSWEP_UNCORE_PCI_TYPE_def array_at_def)

section \<open>PCI buses and nodes\<close>

text \<open>The loop over the UBOX devices ends, keeps every reference count but for the device it
  stopped at, and changes only the mapping.\<close>

lemma ubox_turn:
  "krefs (pci_dev_put ubox (get_device d s)) x - (if d = x then 1 else 0) = krefs s x - (if ubox = Some x then 1 else 0)"
  "pci_dev_put ubox (get_device d s) = s\<lparr>krefs := krefs (pci_dev_put ubox (get_device d s))\<rparr>"
  by (auto simp: get_device_def pci_dev_put_def split: option.splits)

text \<open>What a run of the loop from \<open>ubox\<close> leaves: the reference it holds has moved to the device it ended at, and
  only the mapping has changed.\<close>

definition pcibus_left :: "pdev option \<Rightarrow> ('h, 'm) pmu_st_scheme \<Rightarrow>
    (pdev option \<times> int \<times> ('h, 'm) pmu_st_scheme) option \<Rightarrow> bool" where
  "pcibus_left ubox s r \<longleftrightarrow> (\<exists>u e k m. r = Some (u, e, s\<lparr>krefs := k, uncore_pcibus_to_nodeid := m\<rparr>) \<and>
     (\<forall>x. k x - (if u = Some x then 1 else 0) = krefs s x - (if ubox = Some x then 1 else 0)))"

lemma pcibus_left_end: "pcibus_left ubox s (Some (None, e, pci_dev_put ubox s))"
  unfolding pcibus_left_def pci_dev_put_eq
  by (intro exI [of _ None] exI [of _ e] exI [of _ "\<lambda>x. krefs s x - (if ubox = Some x then 1 else 0)"]
      exI [of _ "uncore_pcibus_to_nodeid s"]) simp

lemma pcibus_left_stop: "pcibus_left ubox s (Some (Some d, e, pci_dev_put ubox (get_device d s)))"
  unfolding pcibus_left_def
  by (intro exI [of _ "Some d"] exI [of _ e] exI [of _ "krefs (pci_dev_put ubox (get_device d s))"]
      exI [of _ "uncore_pcibus_to_nodeid s"])
    (use ubox_turn(1) [where d = d and ubox = ubox and s = s] in \<open>subst ubox_turn(2), simp\<close>)

lemma pcibus_left_go:
  assumes "pcibus_left (Some d) ((pci_dev_put ubox (get_device d s))\<lparr>uncore_pcibus_to_nodeid := m\<rparr>) r"
  shows "pcibus_left ubox s r"
proof -
  let ?s1 = "pci_dev_put ubox (get_device d s)"
  obtain u e k m' where r: "r = Some (u, e, ?s1\<lparr>uncore_pcibus_to_nodeid := m, krefs := k, uncore_pcibus_to_nodeid := m'\<rparr>)"
    and k: "\<And>x. k x - (if u = Some x then 1 else 0) = krefs ?s1 x - (if d = x then 1 else 0)"
    using assms by (auto simp: pcibus_left_def)
  have "?s1\<lparr>uncore_pcibus_to_nodeid := m, krefs := k, uncore_pcibus_to_nodeid := m'\<rparr> =
      s\<lparr>krefs := k, uncore_pcibus_to_nodeid := m'\<rparr>"
    by (subst ubox_turn(2)) simp
  with k ubox_turn(1) [where d = d and ubox = ubox and s = s] show ?thesis unfolding r pcibus_left_def
    by (intro exI [of _ u] exI [of _ e] exI [of _ k] exI [of _ m']) simp
qed

lemma pcibus_loop_ends:
  "chain (pci_next P PCI_VENDOR_ID_INTEL devid) ubox ds \<Longrightarrow> pcibus_left ubox s (pcibus_loop P devid ubox err nid mp s)"
proof (induction ds arbitrary: ubox err nid mp s)
  case Nil
  then have "pcibus_loop P devid ubox err nid mp s = Some (None, err, pci_dev_put ubox s)"
    by (subst pcibus_loop.simps) (simp add: pci_get_device_def)
  then show ?case by (simp add: pcibus_left_end)
next
  case (Cons d ds)
  let ?s1 = "pci_dev_put ubox (get_device d s)"
  have n: "pci_next P PCI_VENDOR_ID_INTEL devid ubox = Some d"
    and c: "chain (pci_next P PCI_VENDOR_ID_INTEL devid) (Some d) ds"
    using Cons.prems by auto
  obtain e1 n1 where r1: "pci_read_config_dword P (world ?s1) d 0x40 nid = (e1, n1)" by fastforce
  obtain e2 m2 where r2: "pci_read_config_dword P (world ?s1) d 0x54 mp = (e2, m2)" by fastforce
  have "pcibus_loop P devid ubox err nid mp s =
      (if e1 \<noteq> 0 then Some (Some d, e1, ?s1)
       else if e2 \<noteq> 0 then Some (Some d, e2, ?s1)
       else pcibus_loop P devid (Some d) e2 n1 m2 (?s1\<lparr>uncore_pcibus_to_nodeid :=
         (case node_of_mapping n1 m2 of None \<Rightarrow> uncore_pcibus_to_nodeid ?s1
          | Some i \<Rightarrow> (uncore_pcibus_to_nodeid ?s1)(bus_number P d := of_nat i))\<rparr>))"
    by (subst pcibus_loop.simps)
      (simp add: n pci_get_device_def r1 r2 split: option.split)
  then show ?case
    using pcibus_left_stop [of ubox s d] pcibus_left_go [OF Cons.IH [OF c], of ubox s] by (simp only: split: if_split) blast
qed

lemma hswep_pcibus_ends:
  assumes "chain (pci_next P PCI_VENDOR_ID_INTEL devid) None ds"
  shows "\<exists>ret m. hswep_pcibus_to_nodeid P junk devid s = Some (ret, s\<lparr>uncore_pcibus_to_nodeid := m\<rparr>)"
proof -
  obtain u e k m where l: "pcibus_loop P devid None junk (stack_junk32 P) (stack_junk32 P) s =
      Some (u, e, s\<lparr>krefs := k, uncore_pcibus_to_nodeid := m\<rparr>)"
    and k: "\<And>x. k x - (if u = Some x then 1 else 0) = krefs s x"
    using pcibus_loop_ends [OF assms, of s junk "stack_junk32 P" "stack_junk32 P"] by (auto simp: pcibus_left_def)
  have "pci_dev_put u (s\<lparr>krefs := k, uncore_pcibus_to_nodeid := m\<rparr>) =
      s\<lparr>krefs := (\<lambda>x. k x - (if u = Some x then 1 else 0)), uncore_pcibus_to_nodeid := m\<rparr>"
    by (auto simp: pci_dev_put_def fun_eq_iff intro!: pmu_st.equality split: option.splits)
  with l k show ?thesis
    by (auto simp: hswep_pcibus_to_nodeid_def Let_def)
qed


text \<open>When the UBOX devices answer, the mapping of each one's bus is the field that holds the
  node id.\<close>

definition map_bus :: "'h platform \<Rightarrow> 'h \<Rightarrow> pdev \<Rightarrow> (u8 \<Rightarrow> u32) \<Rightarrow> u8 \<Rightarrow> u32" where
  "map_bus P h d m =
     (case node_of_mapping (pci_val P h d 0x40) (pci_val P h d 0x54) of
        None \<Rightarrow> m | Some i \<Rightarrow> m(bus_number P d := of_nat i))"

definition answers :: "'h platform \<Rightarrow> 'h \<Rightarrow> pdev \<Rightarrow> bool" where
  "answers P h d \<longleftrightarrow> (\<forall>r \<in> {0x40, 0x54}. \<forall>old. pci_read_config_dword P h d r old = (0, pci_val P h d r))"

lemma pcibus_loop_maps:
  "chain (pci_next P PCI_VENDOR_ID_INTEL devid) ubox ds \<Longrightarrow> (\<And>d. d \<in> set ds \<Longrightarrow> answers P (world s) d) \<Longrightarrow>
   \<exists>s'. pcibus_loop P devid ubox err nid mp s = Some (None, if ds = [] then err else 0, s') \<and>
     uncore_pcibus_to_nodeid s' = fold (map_bus P (world s)) ds (uncore_pcibus_to_nodeid s)"
proof (induction ds arbitrary: ubox err nid mp s)
  case Nil
  then show ?case
    by (subst pcibus_loop.simps) (auto simp: pci_get_device_def pci_dev_put_def split: option.splits)
next
  case (Cons d ds)
  let ?s1 = "pci_dev_put ubox (get_device d s)"
  let ?s2 = "case node_of_mapping (pci_val P (world s) d 0x40) (pci_val P (world s) d 0x54) of
      None \<Rightarrow> ?s1 | Some i \<Rightarrow> ?s1\<lparr>uncore_pcibus_to_nodeid :=
        (uncore_pcibus_to_nodeid ?s1)(bus_number P d := of_nat i)\<rparr>"
  have n: "pci_next P PCI_VENDOR_ID_INTEL devid ubox = Some d"
    and c: "chain (pci_next P PCI_VENDOR_ID_INTEL devid) (Some d) ds"
    using Cons.prems(1) by auto
  have w: "world ?s1 = world s" "world ?s2 = world s"
    by (simp_all add: get_device_def pci_dev_put_def split: option.splits)
  have m: "uncore_pcibus_to_nodeid ?s2 = map_bus P (world s) d (uncore_pcibus_to_nodeid s)"
    by (simp add: map_bus_def get_device_def pci_dev_put_def split: option.splits)
  have "answers P (world s) d" using Cons.prems(2) by simp
  then have e: "pcibus_loop P devid ubox err nid mp s = pcibus_loop P devid (Some d) 0
      (pci_val P (world s) d 0x40) (pci_val P (world s) d 0x54) ?s2"
    by (subst pcibus_loop.simps) (simp add: n pci_get_device_def w(1) answers_def)
  show ?case
    using Cons.IH [OF c, of ?s2 0 "pci_val P (world s) d 0x40" "pci_val P (world s) d 0x54"] Cons.prems(2)
    by (simp add: e w(2) m)
qed

text \<open>The 3-bit fields end at bit 23: the sign of the \<open>int\<close> never reaches them.\<close>

lemma mapping_field:
  "i < 8 \<Longrightarrow> signed_drop_bit (i * 3) m AND 7 = drop_bit (i * 3) m AND 7" for m :: u32
proof -
  assume i: "i < 8"
  have m7: "(7 :: u32) = mask 3" by (simp add: mask_eq_exp_minus_1)
  show ?thesis
    unfolding m7 by (rule bit_word_eqI) (use i in \<open>auto simp: bit_simps min_def\<close>)
qed

lemma node_of_mapping_Some:
  "node_of_mapping nid m = Some i \<longleftrightarrow>
     i < 8 \<and> drop_bit (i * 3) m AND 7 = nid \<and> (\<forall>j < i. drop_bit (j * 3) m AND 7 \<noteq> nid)"
proof -
  have "node_of_mapping nid m = Some i \<longleftrightarrow> i < 8 \<and> nid = signed_drop_bit (i * 3) m AND 7 \<and>
      (\<forall>j < i. nid \<noteq> signed_drop_bit (j * 3) m AND 7)"
    unfolding node_of_mapping_def find_upt by simp
  then show ?thesis by (auto simp: mapping_field)
qed

lemma fold_map_bus_other:
  "b \<notin> bus_number P ` set ds \<Longrightarrow> fold (map_bus P h) ds m b = m b"
  by (induction ds arbitrary: m) (auto simp: map_bus_def split: option.splits)

lemma fold_map_bus:
  assumes "distinct (map (bus_number P) ds)" "d \<in> set ds"
    "node_of_mapping (pci_val P h d 0x40) (pci_val P h d 0x54) = Some i"
  shows "fold (map_bus P h) ds m (bus_number P d) = of_nat i"
  using assms
proof (induction ds arbitrary: m)
  case Nil
  then show ?case by simp
next
  case (Cons e ds)
  show ?case
  proof (cases "d = e")
    case True
    with Cons.prems show ?thesis by (simp add: fold_map_bus_other) (simp add: map_bus_def)
  next
    case False
    with Cons show ?thesis by simp
  qed
qed

lemma hswep_pcibus_maps:
  assumes "chain (pci_next P PCI_VENDOR_ID_INTEL devid) None ds" "ds \<noteq> []"
    and "\<And>d. d \<in> set ds \<Longrightarrow> answers P (world s) d"
  shows "hswep_pcibus_to_nodeid P junk devid s =
    Some (0, s\<lparr>uncore_pcibus_to_nodeid := fold (map_bus P (world s)) ds (uncore_pcibus_to_nodeid s)\<rparr>)"
proof -
  obtain s' where l: "pcibus_loop P devid None junk (stack_junk32 P) (stack_junk32 P) s = Some (None, 0, s')"
    and m: "uncore_pcibus_to_nodeid s' = fold (map_bus P (world s)) ds (uncore_pcibus_to_nodeid s)"
    using pcibus_loop_maps [OF assms(1) assms(3), of junk "stack_junk32 P" "stack_junk32 P"] assms(2) by auto
  obtain ret m' where "hswep_pcibus_to_nodeid P junk devid s = Some (ret, s\<lparr>uncore_pcibus_to_nodeid := m'\<rparr>)"
    using hswep_pcibus_ends [OF assms(1)] by blast
  moreover have "hswep_pcibus_to_nodeid P junk devid s = Some (0, s')"
    by (simp add: hswep_pcibus_to_nodeid_def l pci_dev_put_def)
  ultimately show ?thesis using m by auto
qed

end
