(* ===== verification/Box_Init.thy ===== *)
theory Box_Init
  imports Box_Scan
begin

text \<open>
  Initialisation and release of the boxes: \<open>uncore_pci_init\<close>, \<open>uncore_pci_exit\<close>,
  \<open>uncore_cpu_init\<close> and \<open>uncore_cpu_exit\<close> on every path, with the boxes they leave and the
  reference counts of the devices.
\<close>

section \<open>PCI boxes\<close>

text \<open>The state in which \<open>uncore_pci_init\<close> starts to scan.\<close>

definition pci_prepared :: "(u8 \<Rightarrow> u32) \<Rightarrow> ('h, 'm) pmu_st_scheme \<Rightarrow> ('h, 'm) pmu_st_scheme" where
  "pci_prepared m s = snd (uncore_types_init HSWEP_UNCORE_PCI_TYPE
     (s\<lparr>uncore_pcibus_to_nodeid := m, uncore_pci_driver := Some HSWEP_UNCORE_PCI_DRIVER,
        uncore_pci_type := HSWEP_UNCORE_PCI_TYPE,
        uncore_pmu_desc := (uncore_pmu_desc s)\<lparr>pmu_pci_type := HSWEP_UNCORE_PCI_TYPE\<rparr>\<rparr>))"

text \<open>The types are in the order of the report, so no type is in an array twice or in both.\<close>

lemma types_sorted: "sorted_wrt (<) (HSWEP_UNCORE_MSR_TYPE @ HSWEP_UNCORE_PCI_TYPE)"
  by (simp add: HSWEP_UNCORE_PCI_TYPE_def HSWEP_UNCORE_MSR_TYPE_def pci_id_defs msr_id_defs less_type_ref_def)

lemma distinct_pci_type: "distinct HSWEP_UNCORE_PCI_TYPE"
  and distinct_msr_type: "distinct HSWEP_UNCORE_MSR_TYPE"
  and pci_msr_apart: "set HSWEP_UNCORE_PCI_TYPE \<inter> set HSWEP_UNCORE_MSR_TYPE = {}"
  using types_sorted strict_sorted_iff [of "HSWEP_UNCORE_MSR_TYPE @ HSWEP_UNCORE_PCI_TYPE"] by auto

lemma pci_prepared_sel [simp]:
  "uncore_pci_type (pci_prepared m s) = HSWEP_UNCORE_PCI_TYPE"
  "uncore_pci_driver (pci_prepared m s) = Some HSWEP_UNCORE_PCI_DRIVER"
  "uncore_pcibus_to_nodeid (pci_prepared m s) = m"
  "uncore_msr_type (pci_prepared m s) = uncore_msr_type s"
  "krefs (pci_prepared m s) = krefs s" "allocs (pci_prepared m s) = allocs s"
  "world (pci_prepared m s) = world s" "panicked (pci_prepared m s) = panicked s"
  "procs (pci_prepared m s) = procs s" "proc_faults (pci_prepared m s) = proc_faults s"
  "delays (pci_prepared m s) = delays s" "box_heap (pci_prepared m s) = box_heap s"
  "t \<notin> set HSWEP_UNCORE_PCI_TYPE \<Longrightarrow> types (pci_prepared m s) t = types s t"
  by (simp_all add: pci_prepared_def types_init_eq)

lemma pci_prepared_wf:
  "wf_boxes True HSWEP_UNCORE_PCI_TYPE (pci_prepared m s)"
  "t \<in> set HSWEP_UNCORE_PCI_TYPE \<Longrightarrow> linked (pci_prepared m s) t = []"
  unfolding pci_prepared_def
  by (rule types_init_wf(2,6) [OF prod.collapse [symmetric] distinct_pci_type], assumption?)+

lemma pci_prepared_inv: "pci_reg_inv (pci_prepared m s)" "pci_held (pci_prepared m s) = {#}"
proof -
  show "pci_reg_inv (pci_prepared m s)" by (simp add: pci_reg_inv_def pci_prepared_wf)
  have "concat (map (linked (pci_prepared m s)) HSWEP_UNCORE_PCI_TYPE) = []"
    by (simp add: pci_prepared_wf(2))
  then show "pci_held (pci_prepared m s) = {#}" by (simp only: pci_held_devs pci_prepared_sel devs_at_simps)
qed

lemma pci_init_eq:
  assumes "x86_model P = 63" "enumerates P devs"
    and "hswep_pcibus_to_nodeid P junk 0x2F1E s = Some (e, s\<lparr>uncore_pcibus_to_nodeid := m\<rparr>)"
  shows "uncore_pci_init P junk s =
    Some (if e \<noteq> 0 then (e, s\<lparr>uncore_pcibus_to_nodeid := m\<rparr>)
      else (case scan_ids (uncore_pci_new_box P) (ent_devs devs) (butlast HSWEP_UNCORE_PCI_IDS)
          (pci_prepared m s) of (ret, s3) \<Rightarrow> if ret \<noteq> 0 then (ret, uncore_pci_exit s3) else (0, s3)))"
proof -
  have "uncore_pci_ids P HSWEP_UNCORE_PCI_IDS s = Some (scan_ids (uncore_pci_new_box P) (ent_devs devs)
      (butlast HSWEP_UNCORE_PCI_IDS) s)" for s :: "('a, 'b) pmu_st_scheme"
    by (subst hswep_ids, rule pci_ids_chain [OF assms(2)])
      (simp_all add: hswep_ids_entries(1) null_entry_def)
  then show ?thesis
    using assms(1,3)
    by (auto simp: uncore_pci_init_def hswep_pci_init_def pci_prepared_def types_init_eq
        HSWEP_UNCORE_PCI_DRIVER_def split: prod.splits)
qed

text \<open>The exit, whatever happened before.\<close>

lemma pci_exit_eq: "pci_reg_inv s \<Longrightarrow> uncore_pci_exit s = released True (uncore_pci_type s) s"
  by (simp add: uncore_pci_exit_def pci_reg_inv_def exit_types_eq)

text \<open>Every outcome of the initialisation.\<close>

definition no_boxes :: "type_ref list \<Rightarrow> ('h, 'm) pmu_st_scheme \<Rightarrow> bool" where
  "no_boxes arr s \<longleftrightarrow> (\<forall>t \<in> set arr. linked s t = [])"

lemma failed_krefs:
  assumes "pci_reg_inv s" "uncore_pci_type s = HSWEP_UNCORE_PCI_TYPE"
  shows "krefs (released True HSWEP_UNCORE_PCI_TYPE s) x = surplus pci_held s x"
proof -
  have "concat (map (linked (released True HSWEP_UNCORE_PCI_TYPE s)) HSWEP_UNCORE_PCI_TYPE) = []"
    by simp
  then have "pci_held (released True HSWEP_UNCORE_PCI_TYPE s) = {#}"
    by (simp only: pci_held_devs released_sel assms(2) devs_at_simps)
  then show ?thesis using released_surplus [OF assms(1), of x] by (simp add: surplus_def assms(2))
qed

lemma pci_init_cases:
  assumes "x86_model P = 63" "enumerates P devs"
  obtains (unmapped) e m where "e \<noteq> 0"
      "hswep_pcibus_to_nodeid P junk 0x2F1E s = Some (e, s\<lparr>uncore_pcibus_to_nodeid := m\<rparr>)"
      "uncore_pci_init P junk s = Some (e, s\<lparr>uncore_pcibus_to_nodeid := m\<rparr>)"
  | (ok) m s' where "uncore_pci_init P junk s = Some (0, s')"
      "hswep_pcibus_to_nodeid P junk 0x2F1E s = Some (0, s\<lparr>uncore_pcibus_to_nodeid := m\<rparr>)"
      "pci_added P (type_devices devs HSWEP_UNCORE_PCI_TYPE (butlast HSWEP_UNCORE_PCI_IDS)) 0
         (pci_prepared m s) s'"
      "\<And>x. krefs s' x = krefs s x + int (count (pci_held s') x)"
  | (failed) e m s' d where "e \<noteq> 0" "uncore_pci_init P junk s = Some (e, released True HSWEP_UNCORE_PCI_TYPE s')"
      "pci_reg_inv s'" "\<exists>k. \<not> kzalloc_ok P k"
      "pci_added P (type_devices devs HSWEP_UNCORE_PCI_TYPE (butlast HSWEP_UNCORE_PCI_IDS)) e
         (pci_prepared m s) s'"
      "\<And>x. krefs (released True HSWEP_UNCORE_PCI_TYPE s') x = krefs s x + (if x = d then 2 else 0)"
proof -
  obtain e m where b: "hswep_pcibus_to_nodeid P junk 0x2F1E s = Some (e, s\<lparr>uncore_pcibus_to_nodeid := m\<rparr>)"
    using hswep_pcibus_ends assms(2) unfolding enumerates_def by blast
  note eq = pci_init_eq [OF assms b]
  show thesis
  proof (cases "e = 0")
    case False
    show thesis by (rule unmapped [OF False b]) (simp add: eq False)
  next
    case True
    obtain r s3 where sc: "scan_ids (uncore_pci_new_box P) (ent_devs devs) (butlast HSWEP_UNCORE_PCI_IDS)
        (pci_prepared m s) = (r, s3)" by fastforce
    have wf: "wf_boxes True (uncore_pci_type (pci_prepared m s)) (pci_prepared m s)"
      by (simp add: pci_prepared_wf)
    note added = pci_ids_added [OF wf sc, simplified]
    have arr: "uncore_pci_type s3 = HSWEP_UNCORE_PCI_TYPE"
      using added(1) by (auto simp: pci_added_def dest: pmu_frame_sel(6))
    show thesis
    proof (cases "r = 0")
      case True
      with \<open>e = 0\<close> eq sc have i: "uncore_pci_init P junk s = Some (0, s3)" by simp
      have "\<forall>x. surplus pci_held s3 x = surplus pci_held (pci_prepared m s) x"
        using pci_table.table_ok [OF pci_prepared_inv(1) sc [unfolded True]] by simp
      then have "krefs s3 x = krefs s x + int (count (pci_held s3) x)" for x
        by (simp add: surplus_def pci_prepared_inv(2)) (metis add_diff_cancel_left' diff_add_cancel)
      with ok [OF i b [unfolded \<open>e = 0\<close>]] added(1) True show thesis by simp
    next
      case False
      obtain d where inv: "pci_reg_inv s3"
        and d: "\<And>x. surplus pci_held s3 x = surplus pci_held (pci_prepared m s) x + (if x = d then 2 else 0)"
        using pci_table.table_fails [OF pci_prepared_inv(1) sc False] by blast
      have i: "uncore_pci_init P junk s = Some (r, released True HSWEP_UNCORE_PCI_TYPE s3)"
        using False \<open>e = 0\<close> eq sc by (simp add: pci_exit_eq [OF inv] arr)
      have "krefs (released True HSWEP_UNCORE_PCI_TYPE s3) x = krefs s x + (if x = d then 2 else 0)" for x
        using d [of x] failed_krefs [OF inv arr, of x] by (simp add: surplus_def pci_prepared_inv(2))
      moreover have "\<exists>k. \<not> kzalloc_ok P k"
        using added(2) hswep_ids_entries(2) False by blast
      ultimately show thesis
        using failed [OF False i inv] added(1) by simp
    qed
  qed
qed

section \<open>MSR boxes\<close>

definition msr_box :: "type_ref \<Rightarrow> nat \<Rightarrow> uncore_box" where
  "msr_box t i =
     \<lparr>idx = of_nat i, nodeid = 0, hrtimer_duration = UNCORE_PMU_HRTIMER_INTERVAL,
      hrtimer = \<lparr>hr_function = Some Uncore_box_hrtimer_def, hr_queued = None\<rparr>,
      event = None, box_type = t, pdev = None\<rparr>"

lemma msr_new_box_eq:
  assumes "wf_boxes False arr s" "t \<in> set arr"
  shows "uncore_msr_new_box P (Some t) (of_nat i) s =
    (if kzalloc_ok P (allocs s) then (0, append_box t (num_boxes (types s t)) (msr_box t i) s)
     else (- ENOMEM, s\<lparr>allocs := Suc (allocs s)\<rparr>))"
  using wf_boxesD(3) [OF assms]
  by (simp add: uncore_msr_new_box_def kzalloc_def append_box_def msr_box_def zeroed_box_def
      uncore_box_init_hrtimer_def set_box_list_def Let_def)

text \<open>What the loops over MSR boxes do; \<open>ns t\<close> new boxes for type \<open>t\<close>.\<close>

definition msr_added :: "type_ref list \<Rightarrow> (type_ref \<Rightarrow> nat) \<Rightarrow> int \<Rightarrow>
    ('h, 'm) pmu_st_scheme \<Rightarrow> ('h, 'm) pmu_st_scheme \<Rightarrow> bool" where
  "msr_added arr ns ret s s' \<longleftrightarrow>
     wf_boxes False arr s' \<and> pmu_frame s s' \<and> krefs s' = krefs s \<and>
     (no_leak s \<longrightarrow> no_leak s') \<and> (\<forall>t. num_boxes (types s' t) = num_boxes (types s t)) \<and>
     (\<forall>t. t \<notin> set arr \<longrightarrow> types s' t = types s t) \<and>
     (ret = 0 \<longrightarrow> (\<forall>t \<in> set arr. view s' t = view s t @
        map (msr_box t) [length (linked s t)..<length (linked s t) + ns t])) \<and>
     (\<forall>arr' p. wf_boxes p arr' s \<longrightarrow> set arr' \<inter> set arr = {} \<longrightarrow> same_boxes arr' s s')"

lemma msr_added_trans:
  assumes "msr_added arr ns 0 s s1" "msr_added arr ms ret s1 s'"
  shows "msr_added arr (\<lambda>t. ns t + ms t) ret s s'"
proof -
  have f: "pmu_frame s s1" "pmu_frame s1 s'" using assms by (simp_all add: msr_added_def)
  have l: "length (linked s1 t) = length (linked s t) + ns t" if "t \<in> set arr" for t
    using assms(1) that length_view [of s1 t] by (simp add: msr_added_def)
  have "view s' t = view s t @
      map (msr_box t) [length (linked s t)..<length (linked s t) + (ns t + ms t)]"
    if "t \<in> set arr" "ret = 0" for t
  proof -
    have "view s' t = view s t @ map (msr_box t) ([length (linked s t)..<length (linked s t) + ns t] @
        [length (linked s t) + ns t..<length (linked s t) + ns t + ms t])"
      using assms that l [OF that(1)] by (simp add: msr_added_def)
    also have "[length (linked s t)..<length (linked s t) + ns t] @
        [length (linked s t) + ns t..<length (linked s t) + ns t + ms t] =
        [length (linked s t)..<length (linked s t) + (ns t + ms t)]"
      using upt_add_eq_append [of "length (linked s t)" "length (linked s t) + ns t" "ms t"]
      by (simp add: add.assoc)
    finally show ?thesis .
  qed
  moreover have "same_boxes arr' s s'" if "wf_boxes p arr' s" "set arr' \<inter> set arr = {}" for arr' p
  proof -
    have s: "same_boxes arr' s s1" using assms(1) that by (auto simp: msr_added_def)
    have "same_boxes arr' s1 s'"
      using assms(2) that(2) same_boxes_wf [OF s that(1)] by (auto simp: msr_added_def)
    with s show ?thesis by (rule same_boxes_trans)
  qed
  moreover have "wf_boxes False arr s'" "krefs s' = krefs s" "no_leak s \<longrightarrow> no_leak s'"
      "\<forall>t. num_boxes (types s' t) = num_boxes (types s t)"
      "\<forall>t. t \<notin> set arr \<longrightarrow> types s' t = types s t"
    using assms by (simp_all add: msr_added_def)
  ultimately show ?thesis
    using pmu_frame_trans [OF f] unfolding msr_added_def by blast
qed

lemma msr_added_refl: "wf_boxes False arr s \<Longrightarrow> msr_added arr (\<lambda>_. 0) ret s s"
  by (simp add: msr_added_def)

lemma msr_new_box_added:
  assumes wf: "wf_boxes False arr s" and t: "t \<in> set arr" and i: "length (linked s t) = i"
    and n: "uncore_msr_new_box P (Some t) (of_nat i) s = (ret, s')"
  shows "msr_added arr (\<lambda>t'. if t' = t then 1 else 0) ret s s'" "(\<And>k. kzalloc_ok P k) \<Longrightarrow> ret = 0"
proof -
  note eq = n [unfolded msr_new_box_eq [OF wf t]]
  show "(\<And>k. kzalloc_ok P k) \<Longrightarrow> ret = 0" using eq by simp
  show "msr_added arr (\<lambda>t'. if t' = t then 1 else 0) ret s s'"
  proof (cases "kzalloc_ok P (allocs s)")
    case True
    then have s': "s' = append_box t (num_boxes (types s t)) (msr_box t i) s" using eq by simp
    have "wf_boxes False arr s'"
      unfolding s' by (rule append_box_wf [OF wf t]) (simp_all add: msr_box_def i)
    moreover have "num_boxes (types s' t') = num_boxes (types s t')" for t'
      by (cases "t' = t") (simp_all add: s')
    moreover have "no_leak s \<longrightarrow> no_leak s'"
      by (simp add: s' no_leak_append msr_box_def)
    moreover have "same_boxes arr' s s'" if "wf_boxes p arr' s" "set arr' \<inter> set arr = {}" for arr' p
      unfolding s' using that t by (intro same_boxes_append [OF that(1)]) auto
    moreover have "\<forall>t'. t' \<notin> set arr \<longrightarrow> types s' t' = types s t'"
      using t by (auto simp: s' append_box_def)
    ultimately show ?thesis
      using i by (simp add: msr_added_def s' append_box_view [OF wf])
  next
    case False
    then have "ret \<noteq> 0" "s' = s\<lparr>allocs := Suc (allocs s)\<rparr>" using eq by auto
    then show ?thesis
      using same_boxes_wf [OF same_boxes_steps(4) wf] by (simp add: msr_added_def)
  qed
qed

lemma msr_new_boxes_added:
  "wf_boxes False arr s \<Longrightarrow> t \<in> set arr \<Longrightarrow> length (linked s t) = i \<Longrightarrow> i \<le> n \<Longrightarrow>
   msr_new_boxes P t [i..<n] s = (ret, s') \<Longrightarrow>
   msr_added arr (\<lambda>t'. if t' = t then n - i else 0) ret s s' \<and> ((\<forall>k. kzalloc_ok P k) \<longrightarrow> ret = 0)"
proof (induction "n - i" arbitrary: i s)
  case 0
  then show ?case by (simp add: msr_added_refl cong: if_cong)
next
  case (Suc m)
  then have in': "i < n" by simp
  obtain r s1 where b: "uncore_msr_new_box P (Some t) (of_nat i) s = (r, s1)" by fastforce
  note step = msr_new_box_added [OF Suc.prems(1-3) b]
  have rec: "msr_new_boxes P t [i..<n] s = (if r \<noteq> 0 then (r, s1) else msr_new_boxes P t [Suc i..<n] s1)"
    using in' b by (simp add: upt_rec [of i])
  show ?case
  proof (cases "r = 0")
    case True
    have w: "wf_boxes False arr s1" using step(1) by (simp add: msr_added_def)
    have "length (view s1 t) = Suc i"
      using step(1) True Suc.prems(2,3) by (simp add: msr_added_def)
    then have l: "length (linked s1 t) = Suc i" by simp
    have "msr_new_boxes P t [Suc i..<n] s1 = (ret, s')" using rec True Suc.prems(5) by simp
    from Suc.hyps(1) [OF _ w Suc.prems(2) l _ this] Suc.hyps(2) in'
    have ih: "msr_added arr (\<lambda>t'. if t' = t then n - Suc i else 0) ret s1 s'"
        "(\<forall>k. kzalloc_ok P k) \<longrightarrow> ret = 0" by auto
    have "(\<lambda>t'. (if t' = t then 1 else 0) + (if t' = t then n - Suc i else 0)) =
        (\<lambda>t'. if t' = t then n - i else 0)" by (rule ext) (use in' in \<open>simp add: Suc_diff_Suc\<close>)
    with msr_added_trans [OF step(1) [unfolded True] ih(1)] ih(2) show ?thesis by simp
  next
    case False
    then have "ret = r" "s' = s1" using rec Suc.prems(5) by simp_all
    with False step show ?thesis by (auto simp: msr_added_def)
  qed
qed

lemma msr_new_types_added:
  "wf_boxes False arr s \<Longrightarrow> set ts \<subseteq> set arr \<Longrightarrow> distinct ts \<Longrightarrow>
   (\<And>t. t \<in> set ts \<Longrightarrow> linked s t = []) \<Longrightarrow> msr_new_types P ts s = (ret, s') \<Longrightarrow>
   msr_added arr (\<lambda>t. if t \<in> set ts then unat (num_boxes (types s t)) else 0) ret s s' \<and>
     ((\<forall>k. kzalloc_ok P k) \<longrightarrow> ret = 0)"
proof (induction ts arbitrary: s)
  case Nil
  then show ?case by (simp add: msr_added_refl)
next
  case (Cons t ts)
  let ?n = "\<lambda>t. unat (num_boxes (types s t))"
  obtain r s1 where b: "msr_new_boxes P t [0..<?n t] s = (r, s1)" by fastforce
  have t: "t \<in> set arr" "linked s t = []" using Cons.prems(2,4) by auto
  have step: "msr_added arr (\<lambda>t'. if t' = t then ?n t else 0) r s s1" "(\<forall>k. kzalloc_ok P k) \<longrightarrow> r = 0"
    using msr_new_boxes_added [OF Cons.prems(1) t(1) _ _ b] t(2) by (simp_all cong: if_cong)
  show ?case
  proof (cases "r = 0")
    case True
    have w: "wf_boxes False arr s1" using step(1) by (simp add: msr_added_def)
    have l: "linked s1 t' = []" if "t' \<in> set ts" for t'
    proof -
      have "t' \<noteq> t" "t' \<in> set arr" "linked s t' = []" using that Cons.prems by auto
      then have "view s1 t' = []" using step(1) True by (simp add: msr_added_def view_def)
      then show ?thesis by (simp add: view_def)
    qed
    have nb: "num_boxes (types s1 t') = num_boxes (types s t')" for t'
      using step(1) by (simp add: msr_added_def)
    have "msr_new_types P ts s1 = (ret, s')" using Cons.prems(5) b True by simp
    from Cons.IH [OF w _ _ l this] Cons.prems(2,3)
    have ih: "msr_added arr (\<lambda>t. if t \<in> set ts then ?n t else 0) ret s1 s'"
        "(\<forall>k. kzalloc_ok P k) \<longrightarrow> ret = 0" by (simp_all add: nb cong: if_cong)
    have "(\<lambda>t'. (if t' = t then ?n t else 0) + (if t' \<in> set ts then ?n t' else 0)) =
        (\<lambda>t'. if t' \<in> set (t # ts) then ?n t' else 0)" using Cons.prems(3) by auto
    with msr_added_trans [OF step(1) [unfolded True] ih(1)] ih(2) show ?thesis by simp
  next
    case False
    then have "ret = r" "s' = s1" using Cons.prems(5) b by simp_all
    with False step show ?thesis by (auto simp: msr_added_def)
  qed
qed

text \<open>The state in which \<open>uncore_cpu_init\<close> starts to make boxes, and how many it makes.\<close>

definition cpu_prepared :: "'h platform \<Rightarrow> ('h, 'm) pmu_st_scheme \<Rightarrow> ('h, 'm) pmu_st_scheme" where
  "cpu_prepared P s = snd (uncore_types_init HSWEP_UNCORE_MSR_TYPE (snd (hswep_cpu_init P s)))"

definition cpu_boxes :: "'h platform \<Rightarrow> ('h, 'm) pmu_st_scheme \<Rightarrow> type_ref \<Rightarrow> nat" where
  "cpu_boxes P s t =
     (let n = unat (num_boxes (types s t))
      in if t = Msr_type UNCORE_MSR_CBOX_ID then min n (unat (x86_max_cores P)) else n)"

lemma cpu_init_sel:
  assumes "s1 = snd (hswep_cpu_init P s)"
  shows "fst (hswep_cpu_init P s) = 0" "uncore_msr_type s1 = HSWEP_UNCORE_MSR_TYPE"
    "krefs s1 = krefs s" "allocs s1 = allocs s" "world s1 = world s" "panicked s1 = panicked s"
    "procs s1 = procs s" "proc_faults s1 = proc_faults s" "delays s1 = delays s"
    "box_heap s1 = box_heap s" "uncore_pci_type s1 = uncore_pci_type s"
    "uncore_pcibus_to_nodeid s1 = uncore_pcibus_to_nodeid s"
    "unat (num_boxes (types s1 t)) = cpu_boxes P s t" "box_list (types s1 t) = box_list (types s t)"
    "pmu_st.more s1 = pmu_st.more s"
  by (simp_all add: assms hswep_cpu_init_def cpu_boxes_def Let_def word_less_nat_alt)

lemma cpu_prepared_sel [simp]:
  "uncore_msr_type (cpu_prepared P s) = HSWEP_UNCORE_MSR_TYPE"
  "krefs (cpu_prepared P s) = krefs s" "allocs (cpu_prepared P s) = allocs s"
  "world (cpu_prepared P s) = world s" "panicked (cpu_prepared P s) = panicked s"
  "procs (cpu_prepared P s) = procs s" "proc_faults (cpu_prepared P s) = proc_faults s"
  "delays (cpu_prepared P s) = delays s" "box_heap (cpu_prepared P s) = box_heap s"
  "uncore_pci_type (cpu_prepared P s) = uncore_pci_type s"
  "uncore_pcibus_to_nodeid (cpu_prepared P s) = uncore_pcibus_to_nodeid s"
  "unat (num_boxes (types (cpu_prepared P s) t)) = cpu_boxes P s t"
  "pmu_st.more (cpu_prepared P s) = pmu_st.more s"
  by (simp_all add: cpu_prepared_def types_init_eq cpu_init_sel [OF refl])

lemma cpu_prepared_wf:
  "wf_boxes False HSWEP_UNCORE_MSR_TYPE (cpu_prepared P s)"
  "t \<in> set HSWEP_UNCORE_MSR_TYPE \<Longrightarrow> linked (cpu_prepared P s) t = []"
  unfolding cpu_prepared_def
  by (rule types_init_wf(2,6) [OF prod.collapse [symmetric] distinct_msr_type], assumption?)+

lemma cpu_prepared_same:
  assumes "set arr \<inter> set HSWEP_UNCORE_MSR_TYPE = {}"
  shows "same_boxes arr s (cpu_prepared P s)"
proof -
  have "box_list (types (cpu_prepared P s) t) = box_list (types s t)" if "t \<in> set arr" for t
    using assms that by (auto simp: cpu_prepared_def types_init_eq cpu_init_sel [OF refl])
  then show ?thesis by (simp add: same_boxes_def)
qed

lemma cpu_prepared_no_leak:
  assumes "no_leak s" "no_boxes HSWEP_UNCORE_MSR_TYPE s"
  shows "no_leak (cpu_prepared P s)"
proof -
  let ?s = "snd (hswep_cpu_init P s)"
  have l: "linked ?s t = linked s t" for t by (simp add: linked_def cpu_init_sel(14) [OF refl])
  then have "no_leak ?s"
    using assms(1) by (simp add: no_leak_def cpu_init_sel(10) [OF refl])
  then show ?thesis
    unfolding cpu_prepared_def using assms(2) l
    by (intro types_init_wf(9) [OF prod.collapse [symmetric] distinct_msr_type]) (simp_all add: no_boxes_def)
qed

lemma cpu_init_eq:
  assumes "x86_model P = 63"
  shows "uncore_cpu_init P s =
    (case msr_new_types P HSWEP_UNCORE_MSR_TYPE (cpu_prepared P s) of (ret, s3) \<Rightarrow>
      if ret \<noteq> 0 then (ret, uncore_cpu_exit s3) else (0, s3))"
proof -
  obtain s1 where h: "hswep_cpu_init P s = (0, s1)"
    using cpu_init_sel(1) [OF refl, of P s] by (metis prod.collapse)
  then have "uncore_msr_type s1 = HSWEP_UNCORE_MSR_TYPE"
    using cpu_init_sel(2) [of s1 P s] by simp
  with h assms show ?thesis
    by (simp add: uncore_cpu_init_def cpu_prepared_def types_init_eq)
qed

lemma cpu_exit_eq:
  "wf_boxes False (uncore_msr_type s) s \<Longrightarrow> uncore_cpu_exit s = released False (uncore_msr_type s) s"
  by (simp add: uncore_cpu_exit_def exit_types_eq)

lemma released_krefs: "krefs (released False arr s) = krefs s"
  by (simp add: released_def Let_def)

lemma cpu_init_cases:
  assumes "x86_model P = 63"
  obtains (ok) s' where "uncore_cpu_init P s = (0, s')"
      "msr_added HSWEP_UNCORE_MSR_TYPE (cpu_boxes P s) 0 (cpu_prepared P s) s'"
  | (failed) e s' where "e \<noteq> 0" "\<exists>k. \<not> kzalloc_ok P k"
      "uncore_cpu_init P s = (e, released False HSWEP_UNCORE_MSR_TYPE s')"
      "msr_added HSWEP_UNCORE_MSR_TYPE (cpu_boxes P s) e (cpu_prepared P s) s'"
proof -
  obtain r s3 where m: "msr_new_types P HSWEP_UNCORE_MSR_TYPE (cpu_prepared P s) = (r, s3)" by fastforce
  from msr_new_types_added [OF cpu_prepared_wf(1) subset_refl distinct_msr_type cpu_prepared_wf(2) m]
  have "msr_added HSWEP_UNCORE_MSR_TYPE
      (\<lambda>t. if t \<in> set HSWEP_UNCORE_MSR_TYPE then cpu_boxes P s t else 0) r (cpu_prepared P s) s3"
    and ok': "(\<forall>k. kzalloc_ok P k) \<longrightarrow> r = 0" by (simp_all cong: if_cong)
  then have a: "msr_added HSWEP_UNCORE_MSR_TYPE (cpu_boxes P s) r (cpu_prepared P s) s3"
    by (simp add: msr_added_def)
  then have "wf_boxes False (uncore_msr_type s3) s3" "uncore_msr_type s3 = HSWEP_UNCORE_MSR_TYPE"
    by (auto simp: msr_added_def dest: pmu_frame_sel(7))
  note x = cpu_exit_eq [OF this(1), unfolded this(2)]
  show thesis
  proof (cases "r = 0")
    case True
    with a m cpu_init_eq [OF assms, of s] show thesis by (intro ok [of s3]) simp_all
  next
    case False
    with a m x ok' cpu_init_eq [OF assms, of s] show thesis by (intro failed [of r s3]) auto
  qed
qed

section \<open>Looking boxes up\<close>

lemma first_match_find:
  "(\<And>a. a \<in> set l \<Longrightarrow> hp a \<noteq> None) \<Longrightarrow> first_match hp Q l = Some (find (\<lambda>a. Q (the (hp a))) l)"
proof (induction l)
  case Nil
  then show ?case by simp
next
  case (Cons a l)
  then obtain b where "hp a = Some b" by (metis list.set_intros(1) option.exhaust)
  with Cons show ?case by simp
qed

lemma walk_boxes_find:
  assumes "wf_boxes p arr s" "t \<in> set arr"
  shows "walk_boxes Q t s = (find (\<lambda>a. Q (the (box_heap s a))) (linked s t), s)"
proof -
  have "box_heap s a \<noteq> None" if "a \<in> set (linked s t)" for a
    using wf_boxesD(5) [OF assms that] by (auto simp: box_ok_def)
  then show ?thesis
    using wf_boxesD(3) [OF assms] by (simp add: walk_boxes_def first_match_find)
qed

lemma find_nth:
  assumes "i < length l" "Q (l ! i)" "\<And>j. j < length l \<Longrightarrow> Q (l ! j) \<Longrightarrow> j = i"
  shows "find Q l = Some (l ! i)"
proof -
  have "\<not> Q (l ! j)" if "j < i" for j
    using assms(3) [of j] that assms(1) by auto
  with assms(1,2) show ?thesis unfolding find_Some_iff by blast
qed

lemma view_nth: "i < length (linked s t) \<Longrightarrow> view s t ! i = the (box_heap s (linked s t ! i))"
  by (simp add: view_def)

lemma wf_idx:
  assumes "wf_boxes p arr s" "t \<in> set arr" "i < length (linked s t)"
  shows "idx (the (box_heap s (linked s t ! i))) = of_nat i"
proof -
  have "map idx (view s t) ! i = of_nat i"
    using wf_boxesD(4) [OF assms(1,2)] assms(3) by simp
  with assms(3) show ?thesis by (simp add: view_nth)
qed

section \<open>Properties\<close>

lemma released_empty:
  assumes "\<And>t. t \<in> set arr \<Longrightarrow> linked s t = []" "\<And>t. t \<in> set arr \<Longrightarrow> box_list (types s t) = Some (linked s t)"
  shows "released p arr s = s"
proof -
  have "concat (map (linked s) arr) = []" using assms(1) by simp
  moreover have "(\<lambda>t. if t \<in> set arr then (types s t)\<lparr>box_list := Some []\<rparr> else types s t) = types s"
    using assms by (auto simp: fun_eq_iff intro!: uncore_box_type.equality)
  ultimately show ?thesis
    unfolding released_def Let_def by (cases p) (simp_all only: devs_at_simps, simp_all)
qed

lemma pci_init_balance:
  assumes "x86_model P = 63" "enumerates P devs" "no_boxes HSWEP_UNCORE_PCI_TYPE s" "no_leak s"
  shows "\<exists>ret s'. uncore_pci_init P junk s = Some (ret, s') \<and> no_leak s' \<and> panicked s' = panicked s \<and>
    (if ret = 0 then krefs s' = (\<lambda>x. krefs s x + int (count (pci_held s') x))
     else no_boxes HSWEP_UNCORE_PCI_TYPE s' \<and>
       (krefs s' = krefs s \<or> (\<exists>d. krefs s' = (krefs s)(d := krefs s d + 2))))"
proof -
  have leak: "no_leak (s\<lparr>uncore_pcibus_to_nodeid := m\<rparr>)" for m
    using assms(4) by (simp add: no_leak_def linked_def)
  have prep: "no_leak (pci_prepared m s)" for m
  proof -
    let ?s = "s\<lparr>uncore_pcibus_to_nodeid := m, uncore_pci_driver := Some HSWEP_UNCORE_PCI_DRIVER,
        uncore_pci_type := HSWEP_UNCORE_PCI_TYPE,
        uncore_pmu_desc := (uncore_pmu_desc s)\<lparr>pmu_pci_type := HSWEP_UNCORE_PCI_TYPE\<rparr>\<rparr>"
    have "no_leak ?s" "linked ?s t = linked s t" for t
      using assms(4) by (simp_all add: no_leak_def linked_def)
    with assms(3) show ?thesis
      unfolding pci_prepared_def no_boxes_def
      by (intro types_init_wf(9) [OF prod.collapse [symmetric] distinct_pci_type]) simp_all
  qed
  from assms(1,2) show ?thesis
  proof (cases rule: pci_init_cases [of P devs junk s])
    case (unmapped e m)
    with assms(3) leak show ?thesis by (auto simp: no_boxes_def linked_def)
  next
    case (ok m s')
    then show ?thesis
      using prep pmu_frame_sel(5) [of "pci_prepared m s" s'] by (auto simp: pci_added_def fun_eq_iff)
  next
    case (failed e m s' d)
    then have "no_leak s'" "panicked s' = panicked s"
      using prep pmu_frame_sel(5) [of "pci_prepared m s" s'] by (auto simp: pci_added_def)
    with failed show ?thesis
      by (intro exI [of _ e] exI [of _ "released True HSWEP_UNCORE_PCI_TYPE s'"])
        (auto simp: no_boxes_def no_leak_released fun_eq_iff)
  qed
qed

lemma pci_init_ok:
  assumes "x86_model P = 63" "enumerates P devs" "\<And>k. kzalloc_ok P k"
    and "devs PCI_VENDOR_ID_INTEL 0x2F1E \<noteq> []"
    and "\<And>d. d \<in> set (devs PCI_VENDOR_ID_INTEL 0x2F1E) \<Longrightarrow> answers P (world s) d"
  shows "\<exists>s'. uncore_pci_init P junk s = Some (0, s') \<and>
    wf_boxes True HSWEP_UNCORE_PCI_TYPE s' \<and> uncore_pci_type s' = HSWEP_UNCORE_PCI_TYPE \<and>
    uncore_pcibus_to_nodeid s' = fold (map_bus P (world s)) (devs PCI_VENDOR_ID_INTEL 0x2F1E)
      (uncore_pcibus_to_nodeid s)"
proof -
  let ?m = "fold (map_bus P (world s)) (devs PCI_VENDOR_ID_INTEL 0x2F1E) (uncore_pcibus_to_nodeid s)"
  have "chain (pci_next P PCI_VENDOR_ID_INTEL 0x2F1E) None (devs PCI_VENDOR_ID_INTEL 0x2F1E)"
    using assms(2) by (simp add: enumerates_def)
  from hswep_pcibus_maps [OF this assms(4,5)]
  have b: "hswep_pcibus_to_nodeid P junk 0x2F1E s = Some (0, s\<lparr>uncore_pcibus_to_nodeid := ?m\<rparr>)" .
  from assms(1,2) show ?thesis
  proof (cases rule: pci_init_cases [of P devs junk s])
    case (unmapped e m)
    with b show ?thesis by simp
  next
    case (ok m s')
    from ok(2) b have "uncore_pcibus_to_nodeid (s\<lparr>uncore_pcibus_to_nodeid := m\<rparr>) =
        uncore_pcibus_to_nodeid (s\<lparr>uncore_pcibus_to_nodeid := ?m\<rparr>)" by simp
    then have "m = ?m" by simp
    with ok show ?thesis
      using pmu_frame_sel(6,9) [of "pci_prepared m s" s'] by (simp add: pci_added_def)
  next
    case (failed e m s' d)
    with assms(3) show ?thesis by blast
  qed
qed

lemma pci_init_view:
  assumes "x86_model P = 63" "enumerates P devs" "uncore_pci_init P junk s = Some (0, s')"
    and "t \<in> set HSWEP_UNCORE_PCI_TYPE"
  shows "view s' t = pci_boxes P (uncore_pcibus_to_nodeid s') t 0
    (type_devices devs HSWEP_UNCORE_PCI_TYPE (butlast HSWEP_UNCORE_PCI_IDS) t)"
  using assms(1,2)
proof (cases rule: pci_init_cases [of P devs junk s])
  case (ok m s'')
  with assms(3) have "s'' = s'" by simp
  with ok(3) assms(4) show ?thesis
    using pmu_frame_sel(9) [of "pci_prepared m s" s'] pci_prepared_wf(2) [OF assms(4), of m s]
    by (simp add: pci_added_def view_def)
qed (use assms(3) in auto)

lemma pci_init_wf:
  assumes "x86_model P = 63" "enumerates P devs" "uncore_pci_init P junk s = Some (0, s')"
  shows "wf_boxes True HSWEP_UNCORE_PCI_TYPE s'" "uncore_pci_type s' = HSWEP_UNCORE_PCI_TYPE"
proof -
  from assms(1,2)
  have "wf_boxes True HSWEP_UNCORE_PCI_TYPE s' \<and> uncore_pci_type s' = HSWEP_UNCORE_PCI_TYPE"
  proof (cases rule: pci_init_cases [of P devs junk s])
    case (ok m s'')
    with assms(3) show ?thesis
      using pmu_frame_sel(6) [of "pci_prepared m s" s'] by (auto simp: pci_added_def)
  qed (use assms(3) in auto)
  then show "wf_boxes True HSWEP_UNCORE_PCI_TYPE s'" "uncore_pci_type s' = HSWEP_UNCORE_PCI_TYPE"
    by simp_all
qed

text \<open>The reference machine, just after the module is loaded.\<close>

definition ref_devs :: "u32 \<Rightarrow> u32 \<Rightarrow> pdev list" where
  "ref_devs v d = (if v = 0x8086 then map snd (filter (\<lambda>x. fst x = d) ref_devices) else [])"

lemma ref_enumerates: "enumerates ref_platform ref_devs"
proof -
  have "chain (ref_pci_next v d) None (ref_devs v d)" for v d
    by (auto simp: ref_pci_next_def ref_devs_def ref_devices_def)
  then show ?thesis by (simp add: enumerates_def)
qed

abbreviation ref_st :: "ref_hw pmu_st" where
  "ref_st \<equiv> uncore_loaded ref_hw0 ()"

lemma loaded_boxes:
  "set arr \<subseteq> set HSWEP_UNCORE_PCI_TYPE \<union> set HSWEP_UNCORE_MSR_TYPE \<Longrightarrow> no_boxes arr (uncore_loaded h m)"
  "no_leak (uncore_loaded h m)" "krefs (uncore_loaded h m) x = 0"
  "world (uncore_loaded h m) = h" "\<not> panicked (uncore_loaded h m)"
  by (auto simp: no_boxes_def no_leak_def linked_def uncore_loaded_def hswep_types_def
      HSWEP_UNCORE_PCI_TYPE_def HSWEP_UNCORE_MSR_TYPE_def pci_id_defs msr_id_defs
      HSWEP_UNCORE_PCI_BOXES_def HSWEP_UNCORE_MSR_BOXES_def pci_type_defs msr_type_defs)

lemma ref_answers: "answers ref_platform h d"
  by (simp add: answers_def ref_pci_defs)

lemma ref_pci_init:
  "\<exists>s'. uncore_pci_init ref_platform junk (uncore_loaded ref_hw0 m) = Some (0, s')"
proof -
  have "ref_devs PCI_VENDOR_ID_INTEL 0x2F1E \<noteq> []"
    by (simp add: ref_devs_def PCI_VENDOR_ID_INTEL_def ref_devices_def)
  from pci_init_ok [OF _ ref_enumerates _ this, of "uncore_loaded ref_hw0 m" junk] show ?thesis
    by (auto simp: ref_answers)
qed

lemma ref_lists: "no_boxes HSWEP_UNCORE_PCI_TYPE ref_st" "no_boxes HSWEP_UNCORE_MSR_TYPE ref_st"
  by (rule loaded_boxes; simp)+

text \<open>Its home agents: device 2 on node 0 and device 5 on node 1.\<close>

lemma ref_ha_devices:
  "type_devices ref_devs HSWEP_UNCORE_PCI_TYPE (butlast HSWEP_UNCORE_PCI_IDS) (Pci_type 0) = [2, 5]"
  by code_simp

lemma ref_ha_type: "Pci_type 0 \<in> set HSWEP_UNCORE_PCI_TYPE"
  by (simp add: HSWEP_UNCORE_PCI_TYPE_def pci_id_defs)

lemma ref_ha_boxes:
  obtains s' where "uncore_pci_init ref_platform 0 (uncore_loaded ref_hw0 m) = Some (0, s')"
    "wf_boxes True HSWEP_UNCORE_PCI_TYPE s'" "length (linked s' (Pci_type 0)) = 2"
    "map nodeid (view s' (Pci_type 0)) = [0, 1]"
proof -
  have u: "ref_devs PCI_VENDOR_ID_INTEL 0x2F1E = [1, 4]"
    by (simp add: ref_devs_def PCI_VENDOR_ID_INTEL_def ref_devices_def)
  let ?s = "uncore_loaded ref_hw0 m"
  obtain s' where i: "uncore_pci_init ref_platform 0 ?s = Some (0, s')"
    and m: "uncore_pcibus_to_nodeid s' = fold (map_bus ref_platform ref_hw0) [1, 4]
        (uncore_pcibus_to_nodeid ?s)"
    using pci_init_ok [OF _ ref_enumerates, of ?s 0] by (auto simp: ref_answers u loaded_boxes)
  have n: "node_of_mapping 0 8 = Some 0" "node_of_mapping 1 8 = Some 1" by code_simp+
  have "uncore_pcibus_to_nodeid s' 127 = 0" "uncore_pcibus_to_nodeid s' 255 = 1"
    by (simp_all add: m map_bus_def ref_pci_defs ref_hw0_def n ref_bus_def)
  with pci_init_view [OF _ ref_enumerates i ref_ha_type]
  have v: "map nodeid (view s' (Pci_type 0)) = [0, 1]"
    by (simp add: ref_ha_devices pci_box_def ref_bus_def)
  then have "length (view s' (Pci_type 0)) = 2" by (metis length_map length_Cons list.size(3) Suc_1 One_nat_def)
  then show thesis using that [OF i pci_init_wf(1) [OF _ ref_enumerates i] _ v] by simp
qed

text \<open>C13: \<open>uncore_pci_init\<close> ends, with 0 or an error. On success every reference the
  initialisation took is accounted for by a linked box; after an error no box is left, and
  the reference counts are as before, or (a box could not be made) one device keeps the two
  references the loop had taken on it, which the error path does not drop.\<close>

theorem pci_init_outcome:
  assumes "x86_model P = 63" "enumerates P devs" "no_boxes HSWEP_UNCORE_PCI_TYPE s" "no_leak s"
  shows "\<exists>ret s'. uncore_pci_init P junk s = Some (ret, s') \<and> no_leak s' \<and> panicked s' = panicked s \<and>
    (if ret = 0 then krefs s' = (\<lambda>x. krefs s x + int (count (pci_held s') x))
     else no_boxes HSWEP_UNCORE_PCI_TYPE s' \<and>
       (krefs s' = krefs s \<or> (\<exists>d. krefs s' = (krefs s)(d := krefs s d + 2))))"
  using assms by (rule pci_init_balance)

lemma pci_init_outcome_witness:
  "\<exists>ret s'. uncore_pci_init ref_platform 0 ref_st = Some (ret, s') \<and> no_leak s' \<and>
    panicked s' = panicked ref_st \<and>
    (if ret = 0 then krefs s' = (\<lambda>x. krefs ref_st x + int (count (pci_held s') x))
     else no_boxes HSWEP_UNCORE_PCI_TYPE s' \<and>
       (krefs s' = krefs ref_st \<or> (\<exists>d. krefs s' = (krefs ref_st)(d := krefs ref_st d + 2))))"
  by (rule pci_init_outcome [OF _ ref_enumerates ref_lists(1) loaded_boxes(2)]) simp

text \<open>C14: after a successful \<open>uncore_pci_init\<close> the list of every PCI box type holds exactly
  one box for each device the kernel enumerates for the type's ids, in the order of the id
  table: with its position as its index, the node of its bus, the default timer (not
  started), its type and its device.\<close>

theorem pci_init_boxes:
  assumes "x86_model P = 63" "enumerates P devs" "uncore_pci_init P junk s = Some (0, s')"
    and "t \<in> set HSWEP_UNCORE_PCI_TYPE"
  shows "view s' t = pci_boxes P (uncore_pcibus_to_nodeid s') t 0
    (type_devices devs HSWEP_UNCORE_PCI_TYPE (butlast HSWEP_UNCORE_PCI_IDS) t)"
  using assms by (rule pci_init_view)

lemma pci_init_boxes_witness:
  "\<exists>s'. uncore_pci_init ref_platform 0 ref_st = Some (0, s') \<and>
     view s' (Pci_type 0) = pci_boxes ref_platform (uncore_pcibus_to_nodeid s') (Pci_type 0) 0 [2, 5]"
proof -
  obtain s' where i: "uncore_pci_init ref_platform 0 ref_st = Some (0, s')"
    using ref_pci_init [where m = "()"] by blast
  with pci_init_boxes [OF _ ref_enumerates i ref_ha_type] show ?thesis
    by (simp add: ref_ha_devices)
qed

lemma pci_exit_facts:
  assumes "uncore_pci_type s = HSWEP_UNCORE_PCI_TYPE" "wf_boxes True HSWEP_UNCORE_PCI_TYPE s"
  shows "uncore_pci_exit s = released True HSWEP_UNCORE_PCI_TYPE s"
    "krefs (uncore_pci_exit s) = (\<lambda>x. krefs s x - int (count (pci_held s) x))"
    "wf_boxes True HSWEP_UNCORE_PCI_TYPE (uncore_pci_exit s)"
    "uncore_pci_exit (uncore_pci_exit s) = uncore_pci_exit s"
proof -
  have inv: "pci_reg_inv s" using assms by (simp add: pci_reg_inv_def)
  show e: "uncore_pci_exit s = released True HSWEP_UNCORE_PCI_TYPE s"
    using pci_exit_eq [OF inv] assms(1) by simp
  show "krefs (uncore_pci_exit s) = (\<lambda>x. krefs s x - int (count (pci_held s) x))"
    unfolding e by (simp add: released_def Let_def pci_held_devs assms(1))
  show w: "wf_boxes True HSWEP_UNCORE_PCI_TYPE (uncore_pci_exit s)"
    unfolding e by (rule released_wf [OF assms(2)])
  have "uncore_pci_exit (uncore_pci_exit s) = released True HSWEP_UNCORE_PCI_TYPE (uncore_pci_exit s)"
    using pci_exit_eq [of "uncore_pci_exit s"] w assms(1) by (simp add: pci_reg_inv_def e)
  also have "\<dots> = uncore_pci_exit s"
    by (rule released_empty) (simp_all add: wf_boxesD(3) [OF w], simp add: e)
  finally show "uncore_pci_exit (uncore_pci_exit s) = uncore_pci_exit s" .
qed

lemma cpu_init_facts:
  assumes "x86_model P = 63" "no_boxes HSWEP_UNCORE_MSR_TYPE s" "no_leak s"
  shows "case uncore_cpu_init P s of (ret, s') \<Rightarrow>
    krefs s' = krefs s \<and> panicked s' = panicked s \<and> no_leak s' \<and>
    (wf_boxes True HSWEP_UNCORE_PCI_TYPE s \<longrightarrow> same_boxes HSWEP_UNCORE_PCI_TYPE s s') \<and>
    ((\<forall>k. kzalloc_ok P k) \<longrightarrow> ret = 0) \<and>
    (if ret = 0
     then \<forall>t \<in> set HSWEP_UNCORE_MSR_TYPE. view s' t = map (msr_box t) [0..<cpu_boxes P s t]
     else no_boxes HSWEP_UNCORE_MSR_TYPE s')"
proof -
  have nl: "no_leak (cpu_prepared P s)" by (rule cpu_prepared_no_leak [OF assms(3,2)])
  have same: "same_boxes HSWEP_UNCORE_PCI_TYPE s s'"
    if "wf_boxes True HSWEP_UNCORE_PCI_TYPE s" "msr_added HSWEP_UNCORE_MSR_TYPE (cpu_boxes P s) r (cpu_prepared P s) s'"
    for r s'
  proof -
    note p = cpu_prepared_same [OF pci_msr_apart, of s P]
    have "same_boxes HSWEP_UNCORE_PCI_TYPE (cpu_prepared P s) s'"
      using that(2) same_boxes_wf [OF p that(1)] pci_msr_apart by (auto simp: msr_added_def)
    with p show ?thesis by (rule same_boxes_trans)
  qed
  from assms(1) show ?thesis
  proof (cases rule: cpu_init_cases [of P s])
    case (ok s')
    then show ?thesis
      using nl same [OF _ ok(2)] cpu_prepared_wf(2) [of _ P s] pmu_frame_sel(5) [of "cpu_prepared P s" s']
      by (auto simp: msr_added_def view_def)
  next
    case (failed e s')
    have "wf_boxes False HSWEP_UNCORE_MSR_TYPE s'" using failed(4) by (simp add: msr_added_def)
    note r = same_boxes_released [OF this _ pci_msr_apart]
    have "same_boxes HSWEP_UNCORE_PCI_TYPE s (released False HSWEP_UNCORE_MSR_TYPE s')"
      if w: "wf_boxes True HSWEP_UNCORE_PCI_TYPE s"
      using same [OF w failed(4)] r [OF same_boxes_wf [OF same [OF w failed(4)] w]] by (rule same_boxes_trans)
    with failed show ?thesis
      using nl pmu_frame_sel(5) [of "cpu_prepared P s" s']
      by (auto simp: msr_added_def released_krefs no_leak_released no_boxes_def)
  qed
qed

text \<open>\<open>uncore_pci_exit\<close> undoes a successful \<open>uncore_pci_init\<close>: all reference counts are
  back to what they were, the PCI lists are empty, every box left in memory is of another
  type, and running the exit once more changes nothing.\<close>

lemma pci_exit_undoes_init:
  assumes "x86_model P = 63" "enumerates P devs" "uncore_pci_init P junk s = Some (0, s')"
    and "no_boxes HSWEP_UNCORE_PCI_TYPE s" "no_leak s"
  shows "krefs (uncore_pci_exit s') = krefs s \<and> no_boxes HSWEP_UNCORE_PCI_TYPE (uncore_pci_exit s') \<and>
    (\<forall>a b. box_heap (uncore_pci_exit s') a = Some b \<longrightarrow> box_type b \<notin> set HSWEP_UNCORE_PCI_TYPE) \<and>
    panicked (uncore_pci_exit s') = panicked s \<and>
    uncore_pci_exit (uncore_pci_exit s') = uncore_pci_exit s'"
proof -
  have s': "no_leak s'" "panicked s' = panicked s"
      "krefs s' = (\<lambda>x. krefs s x + int (count (pci_held s') x))"
    using pci_init_balance [OF assms(1,2,4,5), of junk] assms(3) by (auto split: if_splits)
  note e = pci_exit_facts [OF pci_init_wf(2,1) [OF assms(1-3)]]
  have l: "no_leak (uncore_pci_exit s')" unfolding e(1) by (rule no_leak_released [OF s'(1)])
  have n: "no_boxes HSWEP_UNCORE_PCI_TYPE (uncore_pci_exit s')" by (simp add: e(1) no_boxes_def)
  have "box_type b \<notin> set HSWEP_UNCORE_PCI_TYPE" if "box_heap (uncore_pci_exit s') a = Some b" for a b
    using l n that by (fastforce simp: no_leak_def no_boxes_def)
  with n show ?thesis
    using e(2,4) s'(2) by (simp add: s'(3)) (simp add: e(1))
qed

text \<open>C16: the MSR initialisation makes no reference to a device and never dies; it succeeds
  when memory lasts, and then each MSR type has exactly as many boxes as its table says (the
  C-boxes at most one per core), numbered from 0. When it fails it leaves no MSR box. The PCI
  boxes are untouched in every case.\<close>

theorem cpu_init_outcome:
  assumes "x86_model P = 63" "no_boxes HSWEP_UNCORE_MSR_TYPE s" "no_leak s"
  shows "case uncore_cpu_init P s of (ret, s') \<Rightarrow>
    krefs s' = krefs s \<and> panicked s' = panicked s \<and> no_leak s' \<and>
    (wf_boxes True HSWEP_UNCORE_PCI_TYPE s \<longrightarrow> same_boxes HSWEP_UNCORE_PCI_TYPE s s') \<and>
    ((\<forall>k. kzalloc_ok P k) \<longrightarrow> ret = 0) \<and>
    (if ret = 0
     then \<forall>t \<in> set HSWEP_UNCORE_MSR_TYPE. view s' t = map (msr_box t) [0..<cpu_boxes P s t]
     else no_boxes HSWEP_UNCORE_MSR_TYPE s')"
  using assms by (rule cpu_init_facts)

lemma cpu_init_outcome_witness:
  "case uncore_cpu_init ref_platform ref_st of (ret, s') \<Rightarrow>
    ret = 0 \<and> krefs s' = krefs ref_st \<and>
    (\<forall>t \<in> set HSWEP_UNCORE_MSR_TYPE. view s' t = map (msr_box t) [0..<cpu_boxes ref_platform ref_st t])"
  using cpu_init_outcome [of ref_platform ref_st, OF _ ref_lists(2) loaded_boxes(2)]
  by (auto split: prod.splits if_splits)

text \<open>A lookup by index and node never meets a freed box, never changes the state, and
  finds the box at position \<open>i\<close> of the list exactly when there is one and it is on that
  node: an index names at most one box of a type, on all nodes together.\<close>

lemma get_box_by_index:
  assumes "wf_boxes p arr s" "t \<in> set arr" "length (linked s t) \<le> 2 ^ 32"
  shows "uncore_get_box (Some t) i node s =
    (if node \<le> 8 \<and> unat i < length (linked s t) \<and> nodeid (view s t ! unat i) = node
     then Some (linked s t ! unat i) else None, s)"
proof -
  let ?Q = "\<lambda>a. idx (the (box_heap s a)) = i \<and> nodeid (the (box_heap s a)) = node"
  have iff: "idx (the (box_heap s (linked s t ! j))) = i \<longleftrightarrow> j = unat i" if "j < length (linked s t)" for j
    using wf_idx [OF assms(1,2) that] that assms(3)
    by (auto simp: unat_of_nat take_bit_nat_eq_self)
  have "find ?Q (linked s t) =
      (if unat i < length (linked s t) \<and> nodeid (view s t ! unat i) = node
       then Some (linked s t ! unat i) else None)"
  proof (cases "unat i < length (linked s t) \<and> nodeid (view s t ! unat i) = node")
    case True
    then show ?thesis
      using iff by (subst find_nth [of "unat i"]) (auto simp: view_nth)
  next
    case False
    then have "\<not> ?Q (linked s t ! j)" if "j < length (linked s t)" for j
      using iff [OF that] that by (auto simp: view_nth)
    then have "find ?Q (linked s t) = None"
      by (auto simp: find_None_iff in_set_conv_nth)
    with False show ?thesis by auto
  qed
  then show ?thesis
    by (simp add: uncore_get_box_def walk_boxes_find [OF assms(1,2)] UNCORE_MAX_SOCKET_def
        linorder_not_less)
qed

text \<open>A lookup by node returns the first box of the type on the node and \<open>NULL\<close> if and only
  if there is none (or the node id is out of range); the state does not change.\<close>

lemma get_first_box_on_node:
  assumes "wf_boxes p arr s" "t \<in> set arr"
  shows "case uncore_get_first_box (Some t) node s of (r, s') \<Rightarrow> s' = s \<and>
    (case r of
       None \<Rightarrow> node > 8 \<or> (\<forall>b \<in> set (view s t). nodeid b \<noteq> node)
     | Some a \<Rightarrow> node \<le> 8 \<and> (\<exists>i < length (linked s t). a = linked s t ! i \<and>
         nodeid (view s t ! i) = node \<and> (\<forall>j < i. nodeid (view s t ! j) \<noteq> node)))"
proof (cases "node > 8")
  case True
  then show ?thesis by (simp add: uncore_get_first_box_def UNCORE_MAX_SOCKET_def)
next
  case False
  then have "uncore_get_first_box (Some t) node s =
      (find (\<lambda>a. nodeid (the (box_heap s a)) = node) (linked s t), s)"
    by (simp add: uncore_get_first_box_def walk_boxes_find [OF assms] UNCORE_MAX_SOCKET_def)
  with False show ?thesis
    by (auto simp: find_None_iff find_Some_iff view_def split: option.splits)
qed

text \<open>C24: the two lookups on a list of boxes never meet a freed box and never change the state. By
  index and node: the box at that position of the list exactly when there is one and it is on
  that node, so an index names at most one box of a type, on all nodes together. By node: the
  first box of the type on the node, \<open>NULL\<close> if and only if there is none or the node is out of range.\<close>

theorem box_lookups:
  assumes "wf_boxes p arr s" "t \<in> set arr"
  shows "(length (linked s t) \<le> 2 ^ 32 \<longrightarrow> uncore_get_box (Some t) i node s =
      (if node \<le> 8 \<and> unat i < length (linked s t) \<and> nodeid (view s t ! unat i) = node
       then Some (linked s t ! unat i) else None, s)) \<and>
    (case uncore_get_first_box (Some t) node s of (r, s') \<Rightarrow> s' = s \<and>
      (case r of
         None \<Rightarrow> node > 8 \<or> (\<forall>b \<in> set (view s t). nodeid b \<noteq> node)
       | Some a \<Rightarrow> node \<le> 8 \<and> (\<exists>i < length (linked s t). a = linked s t ! i \<and>
           nodeid (view s t ! i) = node \<and> (\<forall>j < i. nodeid (view s t ! j) \<noteq> node))))"
  by (intro conjI impI get_box_by_index [OF assms] get_first_box_on_node [OF assms])

lemma box_lookups_witness:
  "\<exists>s :: ref_hw pmu_st. uncore_get_box (Some (Pci_type 0)) 1 1 s = (Some (linked s (Pci_type 0) ! 1), s) \<and>
     fst (uncore_get_first_box (Some (Pci_type 0)) 1 s) \<noteq> None"
proof -
  obtain s' :: "ref_hw pmu_st" where w: "wf_boxes True HSWEP_UNCORE_PCI_TYPE s'" and l: "length (linked s' (Pci_type 0)) = 2"
    and v: "map nodeid (view s' (Pci_type 0)) = [0, 1]" by (rule ref_ha_boxes)
  from v have n: "nodeid (view s' (Pci_type 0) ! 1) = 1" "\<exists>b \<in> set (view s' (Pci_type 0)). nodeid b = 1"
    by auto
  with box_lookups [OF w ref_ha_type, of 1 1] l show ?thesis
    by (intro exI [of _ s']) (auto split: prod.splits option.splits)
qed

text \<open>C25: when every UBOX answers and no two share a bus, the bus of a UBOX is mapped to the
  first 3-bit field of its mapping register that holds the UBOX's node id, the other buses
  keep their mapping, and no reference count changes.\<close>

theorem pcibus_mapping_correct:
  assumes "chain (pci_next P PCI_VENDOR_ID_INTEL devid) None ds" "d \<in> set ds"
    and "\<And>d. d \<in> set ds \<Longrightarrow> answers P (world s) d"
    and "distinct (map (bus_number P) ds)"
    and "i < 8" "drop_bit (i * 3) (pci_val P (world s) d 0x54) AND 7 = pci_val P (world s) d 0x40"
    and "\<And>j. j < i \<Longrightarrow> drop_bit (j * 3) (pci_val P (world s) d 0x54) AND 7 \<noteq> pci_val P (world s) d 0x40"
  shows "\<exists>s'. hswep_pcibus_to_nodeid P junk devid s = Some (0, s') \<and> krefs s' = krefs s \<and>
    uncore_pcibus_to_nodeid s' (bus_number P d) = of_nat i \<and>
    (\<forall>b. b \<notin> bus_number P ` set ds \<longrightarrow> uncore_pcibus_to_nodeid s' b = uncore_pcibus_to_nodeid s b)"
proof -
  have "ds \<noteq> []" using assms(2) by auto
  moreover have "node_of_mapping (pci_val P (world s) d 0x40) (pci_val P (world s) d 0x54) = Some i"
    using assms(5-7) by (simp add: node_of_mapping_Some)
  ultimately show ?thesis
    using hswep_pcibus_maps [OF assms(1) _ assms(3)] fold_map_bus [OF assms(4,2)]
    by (simp add: fold_map_bus_other)
qed

lemma pcibus_mapping_correct_witness:
  "\<exists>s'. hswep_pcibus_to_nodeid ref_platform 0 0x2F1E ref_st = Some (0, s') \<and>
     krefs s' = krefs ref_st \<and> uncore_pcibus_to_nodeid s' 255 = 1 \<and>
     uncore_pcibus_to_nodeid s' 3 = uncore_pcibus_to_nodeid ref_st 3"
proof -
  have c: "chain (pci_next ref_platform PCI_VENDOR_ID_INTEL 0x2F1E) None [1, 4]"
    by (simp add: ref_pci_next_def ref_devices_def PCI_VENDOR_ID_INTEL_def)
  have "\<exists>s'. hswep_pcibus_to_nodeid ref_platform 0 0x2F1E ref_st = Some (0, s') \<and>
      krefs s' = krefs ref_st \<and> uncore_pcibus_to_nodeid s' (bus_number ref_platform 4) = of_nat 1 \<and>
      (\<forall>b. b \<notin> bus_number ref_platform ` set [1, 4] \<longrightarrow>
        uncore_pcibus_to_nodeid s' b = uncore_pcibus_to_nodeid ref_st b)"
    by (rule pcibus_mapping_correct [OF c])
      (simp_all add: ref_answers ref_bus_def loaded_boxes ref_pci_defs ref_hw0_def)
  then show ?thesis by (auto simp: ref_bus_def)
qed

end
