(* ===== verification/Uncore_Imc.thy ===== *)
theory Uncore_Imc
  imports Box_Init
begin

text \<open>
  The memory controllers: \<open>uncore_imc.c\<close> and the Haswell-EP methods of \<open>uncore_hswep.c\<close>, in
  the order of the code. The contract between the two and the properties are in the theories
  \<open>Imc_Contract\<close> and \<open>Imc_Init\<close>.
\<close>

section \<open>Structures\<close>

datatype imc_ops_ref = HSWEP_E5_IMC_OPS

record 'h uncore_imc_ops =
  set_threshold :: "(pdev \<Rightarrow> u32 \<Rightarrow> 'h \<Rightarrow> int \<times> 'h) option"
  enable_throttle :: "(pdev \<Rightarrow> 'h \<Rightarrow> int \<times> 'h) option"
  disable_throttle :: "(pdev \<Rightarrow> 'h \<Rightarrow> 'h) option"

record uncore_imc =
  imc_nodeid :: u32
  imc_pdev :: pdev
  imc_ops :: imc_ops_ref

text \<open>The globals of \<open>uncore_imc.c\<close>; \<open>imc_warned\<close> tells that \<open>WARN_ONCE\<close> fired.\<close>

record 'h imc_st = "'h pmu_st" +
  uncore_imc_device_ids :: "pci_device_id list"
  uncore_imc_ops :: "imc_ops_ref option"
  uncore_imc_devices :: "uncore_imc list"
  imc_warned :: bool

type_synonym 'h imc_tables = "imc_ops_ref \<Rightarrow> 'h uncore_imc_ops"

section \<open>Haswell-EP methods\<close>

text \<open>The three DIMM registers of a channel; \<open>config\<close> is a local variable that a failed read
  leaves unchanged. The bits \<open>1 << 15\<close> and \<open>~(1 << 15)\<close> are converted to 16 bits.\<close>

definition hswep_dimms ::
    "'h platform \<Rightarrow> (u16 \<Rightarrow> u16) \<Rightarrow> pdev \<Rightarrow> 'h \<Rightarrow> 'h" where
  "hswep_dimms P f d h =
     snd (fold (\<lambda>i (config, h).
         let offset = 0x190 + 2 * i;
             config = snd (pci_read_config_word P h d offset config);
             config = f config
         in (config, pci_write_config_word P d offset config h)) [0, 1, 2] (stack_junk16 P, h))"

definition thrt_pwr :: "u32 \<Rightarrow> u16" where
  "thrt_pwr threshold = (if threshold = 2 then 0x00ff else if threshold = 4 then 0x007f else 0x0fff)"

definition THRT_PWR_EN :: u16 where
  "THRT_PWR_EN = push_bit 15 1"

definition hswep_imc_set_threshold :: "'h platform \<Rightarrow> pdev \<Rightarrow> u32 \<Rightarrow> 'h \<Rightarrow> int \<times> 'h" where
  "hswep_imc_set_threshold P d threshold h =
     (0, hswep_dimms P (\<lambda>config. (config AND THRT_PWR_EN) OR thrt_pwr threshold) d h)"

definition hswep_imc_enable_throttle :: "'h platform \<Rightarrow> pdev \<Rightarrow> 'h \<Rightarrow> int \<times> 'h" where
  "hswep_imc_enable_throttle P d h = (0, hswep_dimms P (\<lambda>config. config OR THRT_PWR_EN) d h)"

definition hswep_imc_disable_throttle :: "'h platform \<Rightarrow> pdev \<Rightarrow> 'h \<Rightarrow> 'h" where
  "hswep_imc_disable_throttle P d h = hswep_dimms P (\<lambda>config. config AND NOT THRT_PWR_EN) d h"

definition hswep_imc_ops :: "'h platform \<Rightarrow> 'h imc_tables" where
  "hswep_imc_ops P r =
     (case r of HSWEP_E5_IMC_OPS \<Rightarrow>
        \<lparr>set_threshold = Some (hswep_imc_set_threshold P),
         enable_throttle = Some (hswep_imc_enable_throttle P),
         disable_throttle = Some (hswep_imc_disable_throttle P)\<rparr>)"

definition imc_entry :: "u32 \<Rightarrow> pci_device_id" where
  "imc_entry dev = \<lparr>vendor = PCI_VENDOR_ID_INTEL, device = dev, driver_data = 0\<rparr>"

definition HSWEP_E5_IMC :: "pci_device_id list" where
  "HSWEP_E5_IMC =
     [imc_entry 0x2FB4, imc_entry 0x2FB5, imc_entry 0x2FB0, imc_entry 0x2FB1,
      imc_entry 0x2FD0, imc_entry 0x2FD1, null_entry]"

definition hswep_imc_init :: "('h, 'm) imc_st_scheme \<Rightarrow> int \<times> ('h, 'm) imc_st_scheme" where
  "hswep_imc_init s =
     (0, s\<lparr>uncore_imc_device_ids := HSWEP_E5_IMC, uncore_imc_ops := Some HSWEP_E5_IMC_OPS\<rparr>)"

text \<open>The two experiments kept in the file, which nothing calls.\<close>

definition test2 :: "'h platform \<Rightarrow> pdev \<Rightarrow> 'h \<Rightarrow> u32 \<times> 'h" where
  "test2 P d h =
     (let (config, h1) = fold (\<lambda>i (config, h).
            let offset = 0x130 + 4 * i;
                config = snd (pci_read_config_dword P h d offset config);
                config = 0x00ffff
            in (config, pci_write_config_dword P d offset config h)) [0, 1, 2] (stack_junk32 P, h)
      in (snd (pci_read_config_dword P h1 d 0x134 config), h1))"

definition test3 :: "'h platform \<Rightarrow> pdev \<Rightarrow> 'h \<Rightarrow> u32 \<times> 'h" where
  "test3 P d h =
     (let config = snd (pci_read_config_dword P h d 0x108 (stack_junk32 P));
          config = config OR 0x3ff;
          config = config OR 0x0f0000;
          h1 = pci_write_config_dword P d 0x108 config h
      in (snd (pci_read_config_dword P h1 d 0x108 config), h1))"

section \<open>Creating and releasing the devices\<close>

fun imc_free :: "uncore_imc list \<Rightarrow> ('h, 'm) imc_st_scheme \<Rightarrow> ('h, 'm) imc_st_scheme" where
  "imc_free [] s = s\<lparr>uncore_imc_devices := []\<rparr>"
| "imc_free (imc # is) s = imc_free is (pci_dev_put (Some (imc_pdev imc)) s)"

definition uncore_imc_exit :: "('h, 'm) imc_st_scheme \<Rightarrow> ('h, 'm) imc_st_scheme" where
  "uncore_imc_exit s = imc_free (uncore_imc_devices s) s"

text \<open>\<open>int nodeid\<close> is the mapping read as a signed number. \<open>imc->ops\<close> is the global pointer,
  which \<open>uncore_imc_init\<close> has checked.\<close>

definition uncore_imc_new_device :: "'h platform \<Rightarrow> pdev option \<Rightarrow> ('h, 'm) imc_st_scheme \<Rightarrow>
    int \<times> ('h, 'm) imc_st_scheme" where
  "uncore_imc_new_device P dev s =
     (case dev of
        None \<Rightarrow> (- EINVAL, s)
      | Some d \<Rightarrow>
          (case kzalloc P s of
             (None, s1) \<Rightarrow> (- ENOMEM, s1)
           | (Some a, s1) \<Rightarrow>
               (let nid = uncore_pcibus_to_nodeid s1 (bus_number P d);
                    s2 = (if sint nid < 0 \<or> sint nid > 8 then s1\<lparr>imc_warned := True\<rparr> else s1)
                in case uncore_imc_ops s2 of
                     None \<Rightarrow> (0, die s2)
                   | Some r \<Rightarrow>
                       (0, s2\<lparr>uncore_imc_devices := uncore_imc_devices s2 @
                          [\<lparr>imc_nodeid = nid, imc_pdev = d, imc_ops = r\<rparr>]\<rparr>))))"

fun uncore_imc_ids :: "'h platform \<Rightarrow> pci_device_id list \<Rightarrow> ('h, 'm) imc_st_scheme \<Rightarrow>
    (int \<times> ('h, 'm) imc_st_scheme) option" where
  "uncore_imc_ids P [] s = Some (0, die s)"
| "uncore_imc_ids P (ent # ids) s =
     (if vendor ent \<noteq> 0
      then do {
        (ret, s1) \<leftarrow> pci_scan P (\<lambda>d. uncore_imc_new_device P (Some d)) (vendor ent) (device ent) None s;
        if ret \<noteq> 0 then Some (ret, s1) else uncore_imc_ids P ids s1
      }
      else Some (0, s))"

definition uncore_imc_init :: "'h imc_tables \<Rightarrow> 'h platform \<Rightarrow> ('h, 'm) imc_st_scheme \<Rightarrow>
    (int \<times> ('h, 'm) imc_st_scheme) option" where
  "uncore_imc_init T P s =
     (case (if x86_model P = 63 then hswep_imc_init s else (- ENXIO, s)) of (ret, s1) \<Rightarrow>
       if ret \<noteq> 0 then Some (ret, s1)
       else if (case uncore_imc_ops s1 of None \<Rightarrow> True
                | Some r \<Rightarrow> set_threshold (T r) = None \<or> enable_throttle (T r) = None \<or>
                    disable_throttle (T r) = None)
            then Some (- EINVAL, s1)
       else do {
         (ret, s2) \<leftarrow> uncore_imc_ids P (uncore_imc_device_ids s1) s1;
         Some (if ret \<noteq> 0 then (ret, uncore_imc_exit s2) else (0, s2))
       })"

text \<open>What \<open>uncore_print_imc_devices\<close> prints: the node of each controller and its device.\<close>

definition uncore_print_imc_devices :: "'h platform \<Rightarrow> ('h, 'm) imc_st_scheme \<Rightarrow>
    (u32 \<times> pdev_info) list" where
  "uncore_print_imc_devices P s =
     map (\<lambda>imc. (imc_nodeid imc, pdev_line P s (imc_pdev imc))) (uncore_imc_devices s)"

section \<open>Throttling\<close>

text \<open>The walks over the list of devices. A missing method would be a call through \<open>NULL\<close>.\<close>

fun set_threshold_walk :: "'h imc_tables \<Rightarrow> u32 \<Rightarrow> u32 \<Rightarrow> uncore_imc list \<Rightarrow> int \<Rightarrow>
    ('h, 'm) imc_st_scheme \<Rightarrow> int \<times> ('h, 'm) imc_st_scheme" where
  "set_threshold_walk T node threshold [] ret s = (ret, s)"
| "set_threshold_walk T node threshold (imc # is) ret s =
     (if imc_nodeid imc = node
      then (case set_threshold (T (imc_ops imc)) of
          None \<Rightarrow> (ret, die s)
        | Some f \<Rightarrow>
            (case f (imc_pdev imc) threshold (world s) of (ret, h) \<Rightarrow>
              let s = s\<lparr>world := h\<rparr>
              in if ret \<noteq> 0 then (ret, s) else set_threshold_walk T node threshold is ret s))
      else set_threshold_walk T node threshold is ret s)"

definition uncore_imc_set_threshold :: "'h imc_tables \<Rightarrow> u32 \<Rightarrow> u32 \<Rightarrow> ('h, 'm) imc_st_scheme \<Rightarrow>
    int \<times> ('h, 'm) imc_st_scheme" where
  "uncore_imc_set_threshold T node threshold s =
     (if node > UNCORE_MAX_SOCKET then (- EINVAL, s)
      else set_threshold_walk T node threshold (uncore_imc_devices s) (- ENXIO) s)"

fun disable_walk :: "'h imc_tables \<Rightarrow> u32 \<Rightarrow> uncore_imc list \<Rightarrow> ('h, 'm) imc_st_scheme \<Rightarrow>
    ('h, 'm) imc_st_scheme" where
  "disable_walk T node [] s = s"
| "disable_walk T node (imc # is) s =
     (if imc_nodeid imc = node
      then (case disable_throttle (T (imc_ops imc)) of
          None \<Rightarrow> die s
        | Some f \<Rightarrow> disable_walk T node is (on_world (f (imc_pdev imc)) s))
      else disable_walk T node is s)"

definition uncore_imc_disable_throttle :: "'h imc_tables \<Rightarrow> u32 \<Rightarrow> ('h, 'm) imc_st_scheme \<Rightarrow>
    ('h, 'm) imc_st_scheme" where
  "uncore_imc_disable_throttle T node s =
     (if node > UNCORE_MAX_SOCKET then s else disable_walk T node (uncore_imc_devices s) s)"

fun enable_walk :: "'h imc_tables \<Rightarrow> u32 \<Rightarrow> uncore_imc list \<Rightarrow> int \<Rightarrow> ('h, 'm) imc_st_scheme \<Rightarrow>
    int \<times> ('h, 'm) imc_st_scheme" where
  "enable_walk T node [] ret s = (ret, s)"
| "enable_walk T node (imc # is) ret s =
     (if imc_nodeid imc = node
      then (case enable_throttle (T (imc_ops imc)) of
          None \<Rightarrow> (ret, die s)
        | Some f \<Rightarrow>
            (case f (imc_pdev imc) (world s) of (ret, h) \<Rightarrow>
              let s = s\<lparr>world := h\<rparr>
              in if ret \<noteq> 0 then (ret, uncore_imc_disable_throttle T node s)
                 else enable_walk T node is ret s))
      else enable_walk T node is ret s)"

definition uncore_imc_enable_throttle :: "'h imc_tables \<Rightarrow> u32 \<Rightarrow> ('h, 'm) imc_st_scheme \<Rightarrow>
    int \<times> ('h, 'm) imc_st_scheme" where
  "uncore_imc_enable_throttle T node s =
     (if node > UNCORE_MAX_SOCKET then (- EINVAL, s)
      else enable_walk T node (uncore_imc_devices s) (- ENXIO) s)"

text \<open>The walks over the online nodes.\<close>

fun set_threshold_nodes :: "'h imc_tables \<Rightarrow> u32 \<Rightarrow> u32 list \<Rightarrow> int \<Rightarrow> ('h, 'm) imc_st_scheme \<Rightarrow>
    int \<times> ('h, 'm) imc_st_scheme" where
  "set_threshold_nodes T threshold [] ret s = (ret, s)"
| "set_threshold_nodes T threshold (n # ns) ret s =
     (case uncore_imc_set_threshold T n threshold s of (ret, s) \<Rightarrow>
       if ret \<noteq> 0 then (ret, s) else set_threshold_nodes T threshold ns ret s)"

definition uncore_imc_set_threshold_all :: "'h imc_tables \<Rightarrow> 'h platform \<Rightarrow> u32 \<Rightarrow>
    ('h, 'm) imc_st_scheme \<Rightarrow> int \<times> ('h, 'm) imc_st_scheme" where
  "uncore_imc_set_threshold_all T P threshold s =
     set_threshold_nodes T threshold (online_nodes P) (- ENXIO) s"

definition uncore_imc_disable_throttle_all :: "'h imc_tables \<Rightarrow> 'h platform \<Rightarrow>
    ('h, 'm) imc_st_scheme \<Rightarrow> ('h, 'm) imc_st_scheme" where
  "uncore_imc_disable_throttle_all T P s =
     fold (uncore_imc_disable_throttle T) (online_nodes P) s"

fun enable_nodes :: "'h imc_tables \<Rightarrow> 'h platform \<Rightarrow> u32 list \<Rightarrow> int \<Rightarrow> ('h, 'm) imc_st_scheme \<Rightarrow>
    int \<times> ('h, 'm) imc_st_scheme" where
  "enable_nodes T P [] ret s = (ret, s)"
| "enable_nodes T P (n # ns) ret s =
     (case uncore_imc_enable_throttle T n s of (ret, s) \<Rightarrow>
       if ret \<noteq> 0 then (ret, uncore_imc_disable_throttle_all T P s) else enable_nodes T P ns ret s)"

definition uncore_imc_enable_throttle_all :: "'h imc_tables \<Rightarrow> 'h platform \<Rightarrow>
    ('h, 'm) imc_st_scheme \<Rightarrow> int \<times> ('h, 'm) imc_st_scheme" where
  "uncore_imc_enable_throttle_all T P s = enable_nodes T P (online_nodes P) (- ENXIO) s"

end
