(* ===== verification/Imc_Contract.thy ===== *)
theory Imc_Contract
  imports Uncore_Imc
begin

text \<open>
  The interface between \<open>uncore_imc.c\<close> and the CPU specific methods: \<open>imc_provider\<close> states
  what a method promises about the throttling limits and enable bits, \<open>imc_reliable\<close> adds
  that none fails. The client's lemmas (the walks over the devices and the online nodes,
  with their error paths) are proved from it; \<open>imc_regs\<close> states the documented behaviour of
  the Haswell-EP registers, under which the methods of \<open>uncore_hswep.c\<close> provide it.
\<close>

section \<open>The contract of a memory controller's methods\<close>

text \<open>
  \<open>limit h d i\<close> and \<open>enabled h d i\<close> are the throttling limit and the enable bit of DIMM \<open>i\<close>
  of controller \<open>d\<close>. A method that succeeds changes what it is for, on all DIMMs of its
  controller; no method touches anything else.
\<close>

locale imc_provider =
  fixes T :: "'h imc_tables"
    and st :: "pdev \<Rightarrow> u32 \<Rightarrow> 'h \<Rightarrow> int \<times> 'h"
    and en :: "pdev \<Rightarrow> 'h \<Rightarrow> int \<times> 'h"
    and di :: "pdev \<Rightarrow> 'h \<Rightarrow> 'h"
    and limit :: "'h \<Rightarrow> pdev \<Rightarrow> nat \<Rightarrow> u16"
    and enabled :: "'h \<Rightarrow> pdev \<Rightarrow> nat \<Rightarrow> bool"
    and limit_of :: "u32 \<Rightarrow> u16"
  assumes table: "set_threshold (T r) = Some st" "enable_throttle (T r) = Some en"
      "disable_throttle (T r) = Some di"
    and st_sets: "st d th h = (0, h') \<Longrightarrow> i < 3 \<Longrightarrow> limit h' d i = limit_of th"
    and st_frame: "st d th h = (e, h') \<Longrightarrow> i < 3 \<Longrightarrow>
      enabled h' x i = enabled h x i \<and> (x \<noteq> d \<longrightarrow> limit h' x i = limit h x i)"
    and en_sets: "en d h = (0, h') \<Longrightarrow> i < 3 \<Longrightarrow> enabled h' d i"
    and en_frame: "en d h = (e, h') \<Longrightarrow> i < 3 \<Longrightarrow>
      limit h' x i = limit h x i \<and> (x \<noteq> d \<longrightarrow> enabled h' x i = enabled h x i)"
    and di_clears: "i < 3 \<Longrightarrow> \<not> enabled (di d h) d i"
    and di_frame: "i < 3 \<Longrightarrow>
      limit (di d h) x i = limit h x i \<and> (x \<noteq> d \<longrightarrow> enabled (di d h) x i = enabled h x i)"

text \<open>The controllers of a set of nodes.\<close>

definition on_nodes :: "u32 set \<Rightarrow> uncore_imc list \<Rightarrow> pdev set" where
  "on_nodes N l = imc_pdev ` {imc \<in> set l. imc_nodeid imc \<in> N}"

lemma on_nodes_simps [simp]:
  "on_nodes N [] = {}"
  "on_nodes N (imc # l) = (if imc_nodeid imc \<in> N then insert (imc_pdev imc) (on_nodes N l) else on_nodes N l)"
  by (auto simp: on_nodes_def)

lemma on_nodes_Un: "on_nodes (N \<union> M) l = on_nodes N l \<union> on_nodes M l"
  by (auto simp: on_nodes_def)

lemma set_walk_none:
  "filter (\<lambda>imc. imc_nodeid imc = node) l = [] \<Longrightarrow> set_threshold_walk T node th l r s = (r, s)"
  by (induction l) (auto split: if_splits)


context imc_provider
begin

lemma disable_walk_world:
  "disable_walk T node l s =
     s\<lparr>world := fold (\<lambda>imc. di (imc_pdev imc)) (filter (\<lambda>imc. imc_nodeid imc = node) l) (world s)\<rparr>"
  by (induction l arbitrary: s) (simp_all add: table on_world_def)

lemma disable_fold:
  assumes "i < 3"
  shows "limit (fold (\<lambda>imc. di (imc_pdev imc)) l h) x i = limit h x i"
    and "enabled (fold (\<lambda>imc. di (imc_pdev imc)) l h) x i = (enabled h x i \<and> x \<notin> imc_pdev ` set l)"
proof (induction l arbitrary: h)
  case (Cons imc l)
  {
    case 1
    then show ?case using Cons(1) di_frame [OF assms] by simp
  next
    case 2
    then show ?case using Cons(2) di_frame [OF assms, of "imc_pdev imc" h x] di_clears [OF assms, of "imc_pdev imc" h]
      by (cases "x = imc_pdev imc") simp_all
  }
qed simp_all

lemma disable_walk_spec:
  assumes "i < 3"
  shows "limit (world (disable_walk T node l s)) x i = limit (world s) x i"
    and "enabled (world (disable_walk T node l s)) x i =
      (enabled (world s) x i \<and> x \<notin> on_nodes {node} l)"
  by (auto simp: disable_walk_world disable_fold [OF assms] on_nodes_def)

lemma set_walk_frame:
  "set_threshold_walk T node th l r s = (r', s') \<Longrightarrow> s' = s\<lparr>world := world s'\<rparr>"
proof (induction l arbitrary: r s)
  case (Cons imc l)
  show ?case
  proof (cases "imc_nodeid imc = node")
    case True
    obtain e h where m: "st (imc_pdev imc) th (world s) = (e, h)" by fastforce
    show ?thesis
    proof (cases "e = 0")
      case e: True
      with Cons.prems True m have "set_threshold_walk T node th l 0 (s\<lparr>world := h\<rparr>) = (r', s')"
        by (simp add: table)
      from Cons.IH [OF this] show ?thesis by simp
    next
      case False
      with Cons.prems True m have "s' = s\<lparr>world := h\<rparr>" by (simp add: table)
      then show ?thesis by simp
    qed
  next
    case False
    with Cons.prems have "set_threshold_walk T node th l r s = (r', s')" by simp
    from Cons.IH [OF this] show ?thesis .
  qed
qed simp

lemma set_walk_spec:
  "set_threshold_walk T node th l r s = (r', s') \<Longrightarrow> i < 3 \<Longrightarrow>
     enabled (world s') x i = enabled (world s) x i \<and>
     (x \<notin> on_nodes {node} l \<longrightarrow> limit (world s') x i = limit (world s) x i) \<and>
     (r' = 0 \<longrightarrow> x \<in> on_nodes {node} l \<or> limit (world s) x i = limit_of th \<longrightarrow>
        limit (world s') x i = limit_of th)"
proof (induction l arbitrary: r s)
  case Nil
  then show ?case by simp
next
  case (Cons imc l)
  show ?case
  proof (cases "imc_nodeid imc = node")
    case True
    obtain e h where m: "st (imc_pdev imc) th (world s) = (e, h)" by fastforce
    note fr = st_frame [OF m Cons.prems(2)]
    show ?thesis
    proof (cases "e = 0")
      case e: True
      have w: "set_threshold_walk T node th l 0 (s\<lparr>world := h\<rparr>) = (r', s')"
        using Cons.prems(1) True e m by (simp add: table)
      have "limit h (imc_pdev imc) i = limit_of th"
        using st_sets m e Cons.prems(2) by simp
      with Cons.IH [OF w Cons.prems(2)] True fr [of x] show ?thesis
        by (cases "x = imc_pdev imc") auto
    next
      case False
      then have "r' \<noteq> 0" "s' = s\<lparr>world := h\<rparr>"
        using Cons.prems(1) True m by (auto simp: table)
      with True fr [of x] show ?thesis by auto
    qed
  next
    case False
    then have "set_threshold_walk T node th l r s = (r', s')" using Cons.prems(1) by simp
    from Cons.IH [OF this Cons.prems(2)] False show ?thesis by simp
  qed
qed

text \<open>Enabling a node: on success every controller of the node is enabled, on failure none.\<close>

lemma disable_throttle_frame: "\<exists>h. uncore_imc_disable_throttle T node s = s\<lparr>world := h\<rparr>"
  by (auto simp: uncore_imc_disable_throttle_def disable_walk_world intro: exI [of _ "world s"])

lemma enable_walk_frame:
  "enable_walk T node l r s = (r', s') \<Longrightarrow> \<exists>h. s' = s\<lparr>world := h\<rparr>"
proof (induction l arbitrary: r s)
  case Nil
  then show ?case by (auto intro: exI [of _ "world s"])
next
  case (Cons imc l)
  show ?case
  proof (cases "imc_nodeid imc = node")
    case True
    obtain e h where m: "en (imc_pdev imc) (world s) = (e, h)" by fastforce
    show ?thesis
    proof (cases "e = 0")
      case True
      with Cons \<open>imc_nodeid imc = node\<close> m show ?thesis by (fastforce simp: table)
    next
      case False
      with Cons.prems \<open>imc_nodeid imc = node\<close> m disable_throttle_frame [of node "s\<lparr>world := h\<rparr>"]
      show ?thesis by (auto simp: table)
    qed
  next
    case False
    with Cons show ?thesis by simp
  qed
qed

lemma enable_walk_spec:
  "enable_walk T node l r s = (r', s') \<Longrightarrow> i < 3 \<Longrightarrow> node \<le> 8 \<Longrightarrow>
   on_nodes {node} l \<subseteq> on_nodes {node} (uncore_imc_devices s) \<Longrightarrow>
     limit (world s') x i = limit (world s) x i \<and>
     (on_nodes {node} l = {} \<and> r' = r \<and> s' = s \<or>
      on_nodes {node} l \<noteq> {} \<and> r' = 0 \<and>
        enabled (world s') x i = (enabled (world s) x i \<or> x \<in> on_nodes {node} l) \<or>
      r' \<noteq> 0 \<and>
        enabled (world s') x i = (enabled (world s) x i \<and> x \<notin> on_nodes {node} (uncore_imc_devices s)))"
proof (induction l arbitrary: r s)
  case Nil
  then show ?case by simp
next
  case (Cons imc l)
  show ?case
  proof (cases "imc_nodeid imc = node")
    case node: True
    obtain e h where m: "en (imc_pdev imc) (world s) = (e, h)" by fastforce
    note fr = en_frame [OF m Cons.prems(2), of x]
    have on: "imc_pdev imc \<in> on_nodes {node} (uncore_imc_devices s)"
      using Cons.prems(4) node by simp
    show ?thesis
    proof (cases "e = 0")
      case e: True
      have w: "enable_walk T node l 0 (s\<lparr>world := h\<rparr>) = (r', s')"
        using Cons.prems(1) node e m by (simp add: table)
      have en: "enabled h (imc_pdev imc) i"
        using en_sets m e Cons.prems(2) by simp
      have sub: "on_nodes {node} l \<subseteq> on_nodes {node} (uncore_imc_devices (s\<lparr>world := h\<rparr>))"
        using Cons.prems(4) node by simp
      from Cons.IH [OF w Cons.prems(2,3) sub] fr en on node show ?thesis
        by (cases "x = imc_pdev imc") auto
    next
      case False
      let ?s = "s\<lparr>world := h\<rparr>"
      have "r' \<noteq> 0" "s' = disable_walk T node (uncore_imc_devices ?s) ?s"
        using Cons.prems(1,3) node m False
        by (auto simp: table uncore_imc_disable_throttle_def UNCORE_MAX_SOCKET_def Let_def)
      then show ?thesis
        using disable_walk_spec [OF Cons.prems(2), of node "uncore_imc_devices s" ?s x] fr on
        by (cases "x = imc_pdev imc") auto
    qed
  next
    case False
    with Cons.prems have w: "enable_walk T node l r s = (r', s')"
      and sub: "on_nodes {node} l \<subseteq> on_nodes {node} (uncore_imc_devices s)" by simp_all
    from Cons.IH [OF w Cons.prems(2,3) sub] False show ?thesis by simp
  qed
qed

text \<open>The operations on one node.\<close>

lemma set_threshold_frame:
  "uncore_imc_set_threshold T node th s = (r, s') \<Longrightarrow> s' = s\<lparr>world := world s'\<rparr>"
  by (auto simp: uncore_imc_set_threshold_def split: if_splits dest: set_walk_frame)

lemma set_threshold_spec:
  assumes "uncore_imc_set_threshold T node th s = (r, s')" "i < 3"
  shows "enabled (world s') x i = enabled (world s) x i"
    and "x \<notin> on_nodes {node} (uncore_imc_devices s) \<Longrightarrow> limit (world s') x i = limit (world s) x i"
    and "r = 0 \<Longrightarrow> x \<in> on_nodes {node} (uncore_imc_devices s) \<or> limit (world s) x i = limit_of th \<Longrightarrow>
      limit (world s') x i = limit_of th"
  using assms set_walk_spec [of node th "uncore_imc_devices s" "- ENXIO" s r s' i x]
  by (auto simp: uncore_imc_set_threshold_def split: if_splits)

lemma disable_throttle_spec:
  assumes "i < 3"
  shows "limit (world (uncore_imc_disable_throttle T node s)) x i = limit (world s) x i"
    and "enabled (world (uncore_imc_disable_throttle T node s)) x i =
      (enabled (world s) x i \<and> x \<notin> on_nodes ({node} \<inter> {..8}) (uncore_imc_devices s))"
  using disable_walk_spec [OF assms, of node "uncore_imc_devices s" s x]
  by (auto simp: uncore_imc_disable_throttle_def UNCORE_MAX_SOCKET_def on_nodes_def)

lemma enable_throttle_frame:
  "uncore_imc_enable_throttle T node s = (r, s') \<Longrightarrow> \<exists>h. s' = s\<lparr>world := h\<rparr>"
  by (auto simp: uncore_imc_enable_throttle_def split: if_splits dest: enable_walk_frame
      intro: exI [of _ "world s"])

lemma enable_throttle_spec:
  assumes "uncore_imc_enable_throttle T node s = (r, s')" "i < 3"
  shows "limit (world s') x i = limit (world s) x i"
    and "enabled (world s') x i =
      (if r = 0 then enabled (world s) x i \<or> x \<in> on_nodes {node} (uncore_imc_devices s)
       else enabled (world s) x i \<and> x \<notin> on_nodes ({node} \<inter> {..8}) (uncore_imc_devices s))"
proof -
  have "limit (world s') x i = limit (world s) x i \<and> enabled (world s') x i =
      (if r = 0 then enabled (world s) x i \<or> x \<in> on_nodes {node} (uncore_imc_devices s)
       else enabled (world s) x i \<and> x \<notin> on_nodes ({node} \<inter> {..8}) (uncore_imc_devices s))"
  proof (cases "node > 8")
    case True
    then have "{node} \<inter> {..8} = {}" by auto
    with assms(1) True show ?thesis
      by (auto simp: uncore_imc_enable_throttle_def UNCORE_MAX_SOCKET_def on_nodes_def)
  next
    case False
    then have n: "node \<le> 8" "{node} \<inter> {..8} = {node}" by auto
    have "enable_walk T node (uncore_imc_devices s) (- ENXIO) s = (r, s')"
      using assms(1) False by (simp add: uncore_imc_enable_throttle_def UNCORE_MAX_SOCKET_def)
    from enable_walk_spec [OF this assms(2) n(1) subset_refl, of x] show ?thesis
      by (auto simp: n(2))
  qed
  then show "limit (world s') x i = limit (world s) x i"
    and "enabled (world s') x i =
      (if r = 0 then enabled (world s) x i \<or> x \<in> on_nodes {node} (uncore_imc_devices s)
       else enabled (world s) x i \<and> x \<notin> on_nodes ({node} \<inter> {..8}) (uncore_imc_devices s))"
    by blast+
qed

text \<open>The operations on all online nodes.\<close>

lemma set_nodes_spec:
  "set_threshold_nodes T th ns r s = (r', s') \<Longrightarrow> i < 3 \<Longrightarrow>
     s' = s\<lparr>world := world s'\<rparr> \<and> enabled (world s') x i = enabled (world s) x i \<and>
     (x \<notin> on_nodes (set ns) (uncore_imc_devices s) \<longrightarrow> limit (world s') x i = limit (world s) x i) \<and>
     (r' = 0 \<longrightarrow> x \<in> on_nodes (set ns) (uncore_imc_devices s) \<or> limit (world s) x i = limit_of th \<longrightarrow>
        limit (world s') x i = limit_of th)"
proof (induction ns arbitrary: r s)
  case Nil
  then show ?case by (simp add: on_nodes_def)
next
  case (Cons n ns)
  obtain e s1 where n: "uncore_imc_set_threshold T n th s = (e, s1)" by fastforce
  note sp = set_threshold_spec [OF n Cons.prems(2), of x]
  obtain h where s1: "s1 = s\<lparr>world := h\<rparr>" using set_threshold_frame [OF n] by blast
  have on: "on_nodes (set (n # ns)) (uncore_imc_devices s) =
      on_nodes {n} (uncore_imc_devices s) \<union> on_nodes (set ns) (uncore_imc_devices s)"
    by (auto simp: on_nodes_def)
  show ?case
  proof (cases "e = 0")
    case True
    with Cons.prems(1) n have "set_threshold_nodes T th ns 0 s1 = (r', s')" by simp
    from Cons.IH [OF this Cons.prems(2)] sp True show ?thesis
      by (simp only: on) (auto simp: s1)
  next
    case False
    with Cons.prems(1) n have "r' = e" "s' = s1" by simp_all
    with False sp show ?thesis by (simp only: on) (auto simp: s1)
  qed
qed

lemma disable_all_frame: "\<exists>h. fold (uncore_imc_disable_throttle T) ns s = s\<lparr>world := h\<rparr>"
proof (induction ns arbitrary: s)
  case Nil
  then show ?case by (auto intro: exI [of _ "world s"])
next
  case (Cons n ns)
  obtain h where "uncore_imc_disable_throttle T n s = s\<lparr>world := h\<rparr>"
    using disable_throttle_frame by blast
  with Cons [of "s\<lparr>world := h\<rparr>"] show ?case by auto
qed

lemma disable_all_spec:
  "i < 3 \<Longrightarrow>
     limit (world (fold (uncore_imc_disable_throttle T) ns s)) x i = limit (world s) x i \<and>
     enabled (world (fold (uncore_imc_disable_throttle T) ns s)) x i =
       (enabled (world s) x i \<and> x \<notin> on_nodes (set ns \<inter> {..8}) (uncore_imc_devices s))"
proof (induction ns arbitrary: s)
  case Nil
  then show ?case by (simp add: on_nodes_def)
next
  case (Cons n ns)
  obtain h where "uncore_imc_disable_throttle T n s = s\<lparr>world := h\<rparr>"
    using disable_throttle_frame by blast
  then have d: "uncore_imc_devices (uncore_imc_disable_throttle T n s) = uncore_imc_devices s" by simp
  have on: "on_nodes (set (n # ns) \<inter> {..8}) (uncore_imc_devices s) =
      on_nodes ({n} \<inter> {..8}) (uncore_imc_devices s) \<union> on_nodes (set ns \<inter> {..8}) (uncore_imc_devices s)"
    by (auto simp: on_nodes_def)
  show ?case
    using Cons.IH [OF Cons.prems, of "uncore_imc_disable_throttle T n s"]
      disable_throttle_spec [OF Cons.prems, of n s x]
    by (simp only: on) (auto simp: d)
qed

lemma enable_nodes_spec:
  "enable_nodes T P ns r s = (r', s') \<Longrightarrow> i < 3 \<Longrightarrow>
     (\<exists>h. s' = s\<lparr>world := h\<rparr>) \<and> limit (world s') x i = limit (world s) x i \<and>
     (r' = 0 \<longrightarrow> enabled (world s') x i = (enabled (world s) x i \<or> x \<in> on_nodes (set ns) (uncore_imc_devices s))) \<and>
     (r' \<noteq> 0 \<longrightarrow> ns \<noteq> [] \<longrightarrow> set ns \<subseteq> set (online_nodes P) \<longrightarrow>
        enabled (world s') x i \<longrightarrow> x \<notin> on_nodes (set (online_nodes P) \<inter> {..8}) (uncore_imc_devices s))"
proof (induction ns arbitrary: r s)
  case Nil
  then show ?case by (auto simp: on_nodes_def intro: exI [of _ "world s"])
next
  case (Cons n ns)
  obtain e s1 where n: "uncore_imc_enable_throttle T n s = (e, s1)" by fastforce
  note sp = enable_throttle_spec [OF n Cons.prems(2), of x]
  obtain h where s1: "s1 = s\<lparr>world := h\<rparr>" using enable_throttle_frame [OF n] by blast
  have on: "on_nodes (set (n # ns)) (uncore_imc_devices s) =
      on_nodes {n} (uncore_imc_devices s) \<union> on_nodes (set ns) (uncore_imc_devices s)"
    by (auto simp: on_nodes_def)
  show ?case
  proof (cases "e = 0")
    case True
    with Cons.prems(1) n have w: "enable_nodes T P ns 0 s1 = (r', s')" by simp
    have "ns \<noteq> []" if "r' \<noteq> 0" using w that by auto
    with Cons.IH [OF w Cons.prems(2)] sp True show ?thesis
      by (simp only: on) (auto simp: s1)
  next
    case False
    with Cons.prems(1) n have "r' = e" "s' = fold (uncore_imc_disable_throttle T) (online_nodes P) s1"
      by (simp_all add: uncore_imc_disable_throttle_all_def)
    with False sp disable_all_spec [OF Cons.prems(2), of "online_nodes P" s1 x]
      disable_all_frame [of "online_nodes P" s1]
    show ?thesis by (auto simp: s1)
  qed
qed

end

text \<open>Methods that cannot fail: the results are determined by the list of devices.\<close>

locale imc_reliable = imc_provider +
  assumes st_total: "fst (st d th h) = 0" and en_total: "fst (en d h) = 0"
begin

lemma set_walk_code:
  "fst (set_threshold_walk T node th l r s) = (if on_nodes {node} l = {} then r else 0)"
proof (induction l arbitrary: r s)
  case (Cons imc l)
  then show ?case
    using st_total [of "imc_pdev imc" th "world s"] by (auto simp: table split: prod.splits)
qed simp

lemma set_threshold_code:
  "fst (uncore_imc_set_threshold T node th s) =
     (if node > 8 then - EINVAL else if on_nodes {node} (uncore_imc_devices s) = {} then - ENXIO else 0)"
  by (simp add: uncore_imc_set_threshold_def UNCORE_MAX_SOCKET_def set_walk_code)

lemma enable_walk_code:
  "fst (enable_walk T node l r s) = (if on_nodes {node} l = {} then r else 0)"
proof (induction l arbitrary: r s)
  case (Cons imc l)
  then show ?case
    using en_total [of "imc_pdev imc" "world s"] by (auto simp: table split: prod.splits)
qed simp

lemma enable_throttle_code:
  "fst (uncore_imc_enable_throttle T node s) =
     (if node > 8 then - EINVAL else if on_nodes {node} (uncore_imc_devices s) = {} then - ENXIO else 0)"
  by (simp add: uncore_imc_enable_throttle_def UNCORE_MAX_SOCKET_def enable_walk_code)

lemma set_nodes_code:
  "(\<And>n. n \<in> set ns \<Longrightarrow> n \<le> 8 \<and> on_nodes {n} (uncore_imc_devices s) \<noteq> {}) \<Longrightarrow>
     fst (set_threshold_nodes T th ns r s) = (if ns = [] then r else 0)"
proof (induction ns arbitrary: r s)
  case (Cons n ns)
  obtain e s1 where n: "uncore_imc_set_threshold T n th s = (e, s1)" by fastforce
  obtain h where s1: "s1 = s\<lparr>world := h\<rparr>" using set_threshold_frame [OF n] by blast
  have "e = 0" using set_threshold_code [of n th s] Cons.prems [of n] n by auto
  with Cons.IH [of s1 0] Cons.prems n s1 show ?case by simp
qed simp

lemma enable_nodes_code:
  "(\<And>n. n \<in> set ns \<Longrightarrow> n \<le> 8 \<and> on_nodes {n} (uncore_imc_devices s) \<noteq> {}) \<Longrightarrow>
     fst (enable_nodes T P ns r s) = (if ns = [] then r else 0)"
proof (induction ns arbitrary: r s)
  case (Cons n ns)
  obtain e s1 where n: "uncore_imc_enable_throttle T n s = (e, s1)" by fastforce
  obtain h where s1: "s1 = s\<lparr>world := h\<rparr>" using enable_throttle_frame [OF n] by blast
  have "e = 0" using enable_throttle_code [of n s] Cons.prems [of n] n by auto
  with Cons.IH [of s1 0] Cons.prems n s1 show ?case by simp
qed simp

lemma enable_nodes_fails:
  "n \<in> set ns \<Longrightarrow> on_nodes {n} (uncore_imc_devices s) = {} \<Longrightarrow>
     fst (enable_nodes T P ns r s) \<noteq> 0"
proof (induction ns arbitrary: r s)
  case (Cons m ns)
  obtain e s1 where m: "uncore_imc_enable_throttle T m s = (e, s1)" by fastforce
  obtain h where s1: "s1 = s\<lparr>world := h\<rparr>" using enable_throttle_frame [OF m] by blast
  show ?case
  proof (cases "e = 0")
    case True
    then have "m \<noteq> n" using enable_throttle_code [of m s] m Cons.prems(2) by (auto split: if_splits)
    then have "n \<in> set ns" using Cons.prems(1) by simp
    then have "fst (enable_nodes T P ns 0 s1) \<noteq> 0"
      using Cons.prems(2) s1 by (intro Cons.IH) simp_all
    with m True show ?thesis by simp
  next
    case False
    with m show ?thesis by simp
  qed
qed simp

end

section \<open>The Haswell-EP methods satisfy the contract\<close>

text \<open>Documented behaviour of the throttling registers of a memory controller: the word of
  DIMM \<open>i\<close> reads what was last written to it, and writing one leaves the others alone.\<close>

definition dimm_off :: "nat \<Rightarrow> u32" where
  "dimm_off i = 0x190 + 2 * of_nat i"

definition dimm :: "'h platform \<Rightarrow> 'h \<Rightarrow> pdev \<Rightarrow> nat \<Rightarrow> u16" where
  "dimm P h d i = snd (pci_read_config_word P h d (dimm_off i) 0)"

locale imc_regs =
  fixes P :: "'h platform"
  assumes rd_ok: "i < 3 \<Longrightarrow> pci_read_config_word P h d (dimm_off i) old = (0, dimm P h d i)"
    and wr: "i < 3 \<Longrightarrow> j < 3 \<Longrightarrow> dimm P (pci_write_config_word P d (dimm_off i) v h) x j =
      (if x = d \<and> j = i then v else dimm P h x j)"
begin

lemma dimms_spec:
  assumes "j < 3"
  shows "dimm P (hswep_dimms P f d h) x j = (if x = d then f (dimm P h x j) else dimm P h x j)"
proof -
  have off: "(0x190 :: u32) = dimm_off 0" "(0x192 :: u32) = dimm_off 1" "(0x194 :: u32) = dimm_off 2"
    and off': "dimm_off 0 + 2 = dimm_off 1" "dimm_off 0 + 4 = dimm_off 2"
    by (simp_all add: dimm_off_def)
  have j: "j = 0 \<or> j = 1 \<or> j = 2" using assms by auto
  show ?thesis
    using j by (auto simp: hswep_dimms_def off off' rd_ok wr Let_def)
qed

end

definition imc_limit :: "'h platform \<Rightarrow> 'h \<Rightarrow> pdev \<Rightarrow> nat \<Rightarrow> u16" where
  "imc_limit P h d i = dimm P h d i AND mask 15"

definition imc_enabled :: "'h platform \<Rightarrow> 'h \<Rightarrow> pdev \<Rightarrow> nat \<Rightarrow> bool" where
  "imc_enabled P h d i = bit (dimm P h d i) 15"

lemma thrt_pwr_bits: "thrt_pwr th AND mask 15 = thrt_pwr th" "\<not> bit (thrt_pwr th) 15"
proof -
  show "thrt_pwr th AND mask 15 = thrt_pwr th"
    by (auto simp: thrt_pwr_def mask_eq_exp_minus_1)
  then show "\<not> bit (thrt_pwr th) 15"
    by (metis bit_and_iff bit_mask_iff less_irrefl)
qed

lemma bit_THRT_PWR_EN [bits]: "bit THRT_PWR_EN n \<longleftrightarrow> n = 15"
  unfolding THRT_PWR_EN_def bit_push_bit_iff bit_1_iff by auto

lemma limit_bits:
  "((c AND THRT_PWR_EN) OR thrt_pwr th) AND mask 15 = thrt_pwr th"
  "(c OR THRT_PWR_EN) AND mask 15 = c AND mask 15"
  "(c AND NOT THRT_PWR_EN) AND mask 15 = c AND mask 15" for c :: u16
proof -
  have "((c AND THRT_PWR_EN) OR thrt_pwr th) AND mask 15 = thrt_pwr th AND mask 15"
    by (rule bit_word_eqI) (auto simp: bit_simps bits)
  then show "((c AND THRT_PWR_EN) OR thrt_pwr th) AND mask 15 = thrt_pwr th"
    by (simp add: thrt_pwr_bits)
  show "(c OR THRT_PWR_EN) AND mask 15 = c AND mask 15"
    by (rule bit_word_eqI) (auto simp: bit_simps bits)
  show "(c AND NOT THRT_PWR_EN) AND mask 15 = c AND mask 15"
    by (rule bit_word_eqI) (auto simp: bit_simps bits)
qed

lemma enable_bits:
  "bit ((c AND THRT_PWR_EN) OR thrt_pwr th) 15 = bit c 15"
  "bit (c OR THRT_PWR_EN) 15" "\<not> bit (c AND NOT THRT_PWR_EN) 15" for c :: u16
  by (simp_all add: bit_simps bits thrt_pwr_bits(2))

sublocale imc_regs \<subseteq> imc_reliable "hswep_imc_ops P" "hswep_imc_set_threshold P"
  "hswep_imc_enable_throttle P" "hswep_imc_disable_throttle P" "imc_limit P" "imc_enabled P" thrt_pwr
proof unfold_locales
  fix r
  show "set_threshold (hswep_imc_ops P r) = Some (hswep_imc_set_threshold P)"
    "enable_throttle (hswep_imc_ops P r) = Some (hswep_imc_enable_throttle P)"
    "disable_throttle (hswep_imc_ops P r) = Some (hswep_imc_disable_throttle P)"
    by (cases r; simp add: hswep_imc_ops_def)+
next
  fix d th h h' e x and i :: nat
  assume i: "i < 3"
  note simps = dimms_spec [OF i] imc_limit_def imc_enabled_def
  show "hswep_imc_set_threshold P d th h = (0, h') \<Longrightarrow> imc_limit P h' d i = thrt_pwr th"
    by (auto simp: hswep_imc_set_threshold_def simps limit_bits)
  show "hswep_imc_set_threshold P d th h = (e, h') \<Longrightarrow> imc_enabled P h' x i = imc_enabled P h x i \<and>
      (x \<noteq> d \<longrightarrow> imc_limit P h' x i = imc_limit P h x i)"
    by (cases "x = d") (auto simp: hswep_imc_set_threshold_def simps enable_bits)
  show "hswep_imc_enable_throttle P d h = (0, h') \<Longrightarrow> imc_enabled P h' d i"
    by (auto simp: hswep_imc_enable_throttle_def simps enable_bits)
  show "hswep_imc_enable_throttle P d h = (e, h') \<Longrightarrow> imc_limit P h' x i = imc_limit P h x i \<and>
      (x \<noteq> d \<longrightarrow> imc_enabled P h' x i = imc_enabled P h x i)"
    by (cases "x = d") (auto simp: hswep_imc_enable_throttle_def simps limit_bits)
  show "\<not> imc_enabled P (hswep_imc_disable_throttle P d h) d i"
    by (simp add: hswep_imc_disable_throttle_def simps enable_bits)
  show "imc_limit P (hswep_imc_disable_throttle P d h) x i = imc_limit P h x i \<and>
      (x \<noteq> d \<longrightarrow> imc_enabled P (hswep_imc_disable_throttle P d h) x i = imc_enabled P h x i)"
    by (cases "x = d") (simp_all add: hswep_imc_disable_throttle_def simps limit_bits)
next
  fix d th h
  show "fst (hswep_imc_set_threshold P d th h) = 0" "fst (hswep_imc_enable_throttle P d h) = 0"
    by (simp_all add: hswep_imc_set_threshold_def hswep_imc_enable_throttle_def)
qed

text \<open>The client's lemmas for the Haswell-EP methods.\<close>

context imc_regs
begin

lemmas hswep_set_code = set_threshold_code
lemmas hswep_set_frame = set_threshold_frame
lemmas hswep_set_spec = set_threshold_spec
lemmas hswep_en_code = enable_throttle_code
lemmas hswep_en_frame = enable_throttle_frame
lemmas hswep_en_spec = enable_throttle_spec
lemmas hswep_dis_frame = disable_throttle_frame
lemmas hswep_dis_spec = disable_throttle_spec
lemmas hswep_set_all_code = set_nodes_code
lemmas hswep_set_all_spec = set_nodes_spec
lemmas hswep_en_all_code = enable_nodes_code
lemmas hswep_en_all_spec = enable_nodes_spec
lemmas hswep_en_all_fails = enable_nodes_fails
lemmas hswep_dis_all_frame = disable_all_frame
lemmas hswep_dis_all_spec = disable_all_spec

end

lemma dimm_off_inj: "i < 3 \<Longrightarrow> j < 3 \<Longrightarrow> dimm_off i = dimm_off j \<longleftrightarrow> i = j"
proof -
  assume "i < 3" "j < 3"
  then have "i = 0 \<or> i = 1 \<or> i = 2" "j = 0 \<or> j = 1 \<or> j = 2" by auto
  then show ?thesis by (auto simp: dimm_off_def)
qed

interpretation ref_imc: imc_regs ref_platform
  by unfold_locales (auto simp: dimm_def dimm_off_inj)

end
