(* ===== verification/Imc_Init.thy ===== *)
theory Imc_Init
  imports Imc_Contract
begin

text \<open>
  Creating and releasing the memory controller devices: the IMC initialisation as an
  instance of the device scan of theory \<open>Registry\<close>, its outcomes, and the properties of the
  throttling operations on the Haswell-EP methods.
\<close>

section \<open>Initialisation and exit\<close>

definition imc_of :: "'h platform \<Rightarrow> ('h, 'm) imc_st_scheme \<Rightarrow> pdev \<Rightarrow> uncore_imc" where
  "imc_of P s d = \<lparr>imc_nodeid = uncore_pcibus_to_nodeid s (bus_number P d), imc_pdev = d,
     imc_ops = the (uncore_imc_ops s)\<rparr>"

definition bad_node :: "'h platform \<Rightarrow> ('h, 'm) imc_st_scheme \<Rightarrow> pdev \<Rightarrow> bool" where
  "bad_node P s d \<longleftrightarrow>
     (let n = sint (uncore_pcibus_to_nodeid s (bus_number P d)) in n < 0 \<or> n > 8)"

definition imc_reg_inv :: "('h, 'm) imc_st_scheme \<Rightarrow> bool" where
  "imc_reg_inv s \<longleftrightarrow> uncore_imc_ops s \<noteq> None"

definition imc_held :: "('h, 'm) imc_st_scheme \<Rightarrow> pdev multiset" where
  "imc_held s = mset (map imc_pdev (uncore_imc_devices s))"

lemma imc_new_eq:
  assumes "imc_reg_inv s"
  shows "uncore_imc_new_device P (Some d) s =
    (if kzalloc_ok P (allocs s)
     then (0, s\<lparr>allocs := Suc (allocs s), imc_warned := imc_warned s \<or> bad_node P s d,
       uncore_imc_devices := uncore_imc_devices s @ [imc_of P s d]\<rparr>)
     else (- ENOMEM, s\<lparr>allocs := Suc (allocs s)\<rparr>))"
  using assms
  by (auto simp: uncore_imc_new_device_def kzalloc_def imc_reg_inv_def imc_of_def bad_node_def Let_def
      intro!: imc_st.equality)

interpretation imc_table: device_table "\<lambda>e d. uncore_imc_new_device P (Some d)" imc_reg_inv imc_held
  for P :: "'h platform"
proof (unfold_locales, goal_cases)
  case (3 s d ret s')
  then show ?case by (auto simp: imc_new_eq) (auto simp: imc_reg_inv_def split: if_splits)
next
  case (4 s d ret s')
  then show ?case by (auto simp: imc_new_eq imc_held_def imc_of_def split: if_splits)
next
  case (5 s d ret s')
  then show ?case by (auto simp: imc_new_eq split: if_splits)
qed (simp_all add: imc_reg_inv_def imc_held_def)

lemma imc_exit_eq:
  "uncore_imc_exit s =
     s\<lparr>krefs := (\<lambda>x. krefs s x - int (count (imc_held s) x)), uncore_imc_devices := []\<rparr>"
proof -
  have "imc_free l s =
      s\<lparr>krefs := (\<lambda>x. krefs s x - int (count (mset (map imc_pdev l)) x)), uncore_imc_devices := []\<rparr>"
    for l and s :: "('a, 'b) imc_st_scheme"
  proof (induction l arbitrary: s)
    case (Cons imc l)
    have "(\<lambda>x. krefs (pci_dev_put (Some (imc_pdev imc)) s) x - int (count (mset (map imc_pdev l)) x)) =
        (\<lambda>x. krefs s x - int (count (mset (map imc_pdev (imc # l))) x))"
      by (auto simp: pci_dev_put_eq)
    with Cons [of "pci_dev_put (Some (imc_pdev imc)) s"] show ?case
      by (simp add: pci_dev_put_eq)
  qed simp
  then show ?thesis by (simp add: uncore_imc_exit_def imc_held_def)
qed

text \<open>What registering the devices \<open>ds\<close> does.\<close>

definition imc_added :: "'h platform \<Rightarrow> pdev list \<Rightarrow> int \<Rightarrow> ('h, 'm) imc_st_scheme \<Rightarrow>
    ('h, 'm) imc_st_scheme \<Rightarrow> bool" where
  "imc_added P ds ret s s' \<longleftrightarrow>
     (\<exists>a k w es. s' = s\<lparr>allocs := a, krefs := k, imc_warned := w,
        uncore_imc_devices := uncore_imc_devices s @ map (imc_of P s) es\<rparr> \<and> allocs s \<le> a \<and>
      (ret = 0 \<longrightarrow> es = ds \<and> (w \<longleftrightarrow> imc_warned s \<or> (\<exists>d \<in> set ds. bad_node P s d))))"

lemma imc_added_trans:
  assumes "imc_added P ds 0 s s1" "imc_added P es ret s1 s'"
  shows "imc_added P (ds @ es) ret s s'"
proof -
  obtain a k w where s1: "s1 = s\<lparr>allocs := a, krefs := k, imc_warned := w,
      uncore_imc_devices := uncore_imc_devices s @ map (imc_of P s) ds\<rparr>"
    "w \<longleftrightarrow> imc_warned s \<or> (\<exists>d \<in> set ds. bad_node P s d)" "allocs s \<le> a"
    using assms(1) unfolding imc_added_def by blast
  have of1: "imc_of P s1 = imc_of P s" "bad_node P s1 = bad_node P s"
    by (auto simp: imc_of_def bad_node_def s1(1))
  obtain a' k' w' es' where s': "s' = s1\<lparr>allocs := a', krefs := k', imc_warned := w',
      uncore_imc_devices := uncore_imc_devices s1 @ map (imc_of P s1) es'\<rparr>"
    "ret = 0 \<longrightarrow> es' = es \<and> (w' \<longleftrightarrow> imc_warned s1 \<or> (\<exists>d \<in> set es. bad_node P s1 d))" "allocs s1 \<le> a'"
    using assms(2) unfolding imc_added_def by blast
  show ?thesis
    unfolding imc_added_def
    by (intro exI [of _ a'] exI [of _ k'] exI [of _ w'] exI [of _ "ds @ es'"])
      (use s' s1 of1 in auto)
qed

lemma imc_added_refs:
  "imc_added P [] 0 s (get_device d s)" "imc_added P [] 0 s (pci_dev_put x s)"
proof -
  show "imc_added P [] 0 s (get_device d s)"
    unfolding imc_added_def get_device_def
    by (intro exI [of _ "allocs s"] exI [of _ "(krefs s)(d := krefs s d + 1)"] exI [of _ "imc_warned s"]) simp
  show "imc_added P [] 0 s (pci_dev_put x s)"
    unfolding imc_added_def pci_dev_put_eq
    by (intro exI [of _ "allocs s"] exI [of _ "\<lambda>y. krefs s y - (if x = Some y then 1 else 0)"]
        exI [of _ "imc_warned s"]) simp
qed

lemma imc_new_added:
  assumes "imc_reg_inv s" "uncore_imc_new_device P (Some d) s = (ret, s')"
  shows "imc_added P [d] ret s s' \<and> ((\<forall>k. kzalloc_ok P k) \<longrightarrow> ret = 0)"
proof (cases "kzalloc_ok P (allocs s)")
  case True
  with assms have "ret = 0" "s' = s\<lparr>allocs := Suc (allocs s), krefs := krefs s,
      imc_warned := imc_warned s \<or> bad_node P s d,
      uncore_imc_devices := uncore_imc_devices s @ map (imc_of P s) [d]\<rparr>"
    by (simp_all add: imc_new_eq)
  then show ?thesis
    unfolding imc_added_def
    by (intro conjI impI exI [of _ "Suc (allocs s)"] exI [of _ "krefs s"]
        exI [of _ "imc_warned s \<or> bad_node P s d"] exI [of _ "[d]"]) auto
next
  case False
  with assms have r: "ret \<noteq> 0" and s': "s' = s\<lparr>allocs := Suc (allocs s), krefs := krefs s,
      imc_warned := imc_warned s, uncore_imc_devices := uncore_imc_devices s @ map (imc_of P s) []\<rparr>"
    by (auto simp: imc_new_eq)
  have "imc_added P [d] ret s s'"
    unfolding imc_added_def using r s' le_SucI [OF order_refl] by blast
  with False show ?thesis by blast
qed

lemma imc_added_inv: "imc_added P ds ret s s' \<Longrightarrow> imc_reg_inv s' = imc_reg_inv s"
  by (auto simp: imc_added_def imc_reg_inv_def)

lemma imc_scan_added:
  "imc_reg_inv s \<Longrightarrow> scan_list (\<lambda>d. uncore_imc_new_device P (Some d)) from ds s = (ret, s') \<Longrightarrow>
   imc_added P ds ret s s' \<and> ((\<forall>k. kzalloc_ok P k) \<longrightarrow> ret = 0)"
proof (induction ds arbitrary: "from" s)
  case Nil
  then show ?case using imc_added_refs(2) by auto
next
  case (Cons d ds)
  let ?g = "get_device d (pci_dev_put from (get_device d s))"
  obtain r s2 where n: "uncore_imc_new_device P (Some d) ?g = (r, s2)" by fastforce
  have g: "imc_added P [] 0 s ?g"
    using imc_added_trans [OF imc_added_trans [OF imc_added_refs(1) imc_added_refs(2)] imc_added_refs(1)]
    by simp
  have inv: "imc_reg_inv ?g" using imc_added_inv [OF g] Cons.prems(1) by simp
  note new = imc_new_added [OF inv n]
  have step: "imc_added P [d] r s s2" using imc_added_trans [OF g new [THEN conjunct1]] by simp
  show ?case
  proof (cases "r = 0")
    case True
    with Cons.prems(2) n have sc: "scan_list (\<lambda>d. uncore_imc_new_device P (Some d)) (Some d) ds s2 = (ret, s')"
      by simp
    have "imc_reg_inv s2" using imc_added_inv [OF step] Cons.prems(1) by simp
    note ih = Cons.IH [OF this sc]
    show ?thesis using imc_added_trans [OF step [unfolded True] ih [THEN conjunct1]] ih by simp
  next
    case False
    with Cons.prems(2) n have "ret = r" "s' = s2" by simp_all
    with False step new show ?thesis by (auto simp: imc_added_def)
  qed
qed

lemma imc_ids_added:
  "imc_reg_inv s \<Longrightarrow>
   scan_ids (\<lambda>e d. uncore_imc_new_device P (Some d)) (ent_devs devs) es s = (ret, s') \<Longrightarrow>
   imc_added P (concat (map (ent_devs devs) es)) ret s s' \<and> ((\<forall>k. kzalloc_ok P k) \<longrightarrow> ret = 0)"
proof (induction es arbitrary: s)
  case Nil
  then show ?case using imc_added_refs(2) [of P s None] by (simp add: pci_dev_put_def)
next
  case (Cons e es)
  obtain r s1 where n: "scan_list (\<lambda>d. uncore_imc_new_device P (Some d)) None (ent_devs devs e) s = (r, s1)"
    by fastforce
  note step = imc_scan_added [OF Cons.prems(1) n]
  show ?case
  proof (cases "r = 0")
    case True
    with Cons.prems(2) n have sc: "scan_ids (\<lambda>e d. uncore_imc_new_device P (Some d)) (ent_devs devs) es s1 = (ret, s')"
      by simp
    have "imc_reg_inv s1" using imc_added_inv step Cons.prems(1) by blast
    note ih = Cons.IH [OF this sc]
    show ?thesis
      using imc_added_trans [OF step [THEN conjunct1, unfolded True] ih [THEN conjunct1]] ih by simp
  next
    case False
    with Cons.prems(2) n have "ret = r" "s' = s1" by simp_all
    with False step show ?thesis by (auto simp: imc_added_def)
  qed
qed

lemma imc_ids_chain:
  assumes "enumerates P devs" "\<And>e. e \<in> set es \<Longrightarrow> vendor e \<noteq> 0" "vendor z = 0"
  shows "uncore_imc_ids P (es @ [z]) s =
    Some (scan_ids (\<lambda>e d. uncore_imc_new_device P (Some d)) (ent_devs devs) es s)"
  using assms(2)
proof (induction es arbitrary: s)
  case Nil
  then show ?case using assms(3) by simp
next
  case (Cons e es)
  have "pci_scan P (\<lambda>d. uncore_imc_new_device P (Some d)) (vendor e) (device e) None s =
      Some (scan_list (\<lambda>d. uncore_imc_new_device P (Some d)) None (ent_devs devs e) s)"
    using assms(1) by (intro pci_scan_chain) (simp add: enumerates_def)
  with Cons show ?case by (auto split: prod.splits)
qed

definition imc_devs :: "(u32 \<Rightarrow> u32 \<Rightarrow> pdev list) \<Rightarrow> pdev list" where
  "imc_devs devs = concat (map (ent_devs devs) (butlast HSWEP_E5_IMC))"

abbreviation imc_prepared :: "('h, 'm) imc_st_scheme \<Rightarrow> ('h, 'm) imc_st_scheme" where
  "imc_prepared s \<equiv> s\<lparr>uncore_imc_device_ids := HSWEP_E5_IMC, uncore_imc_ops := Some HSWEP_E5_IMC_OPS\<rparr>"

text \<open>Every outcome of the initialisation.\<close>

lemma imc_init_cases:
  assumes "x86_model P = 63" "enumerates P devs" "uncore_imc_devices s = []"
  obtains (ok) s' where "uncore_imc_init (hswep_imc_ops P) P s = Some (0, s')"
      "imc_added P (imc_devs devs) 0 (imc_prepared s) s'"
      "krefs s' = (\<lambda>x. krefs s x + int (count (imc_held s') x))"
  | (failed) e s' d where "e \<noteq> 0" "\<exists>k. \<not> kzalloc_ok P k"
      "uncore_imc_init (hswep_imc_ops P) P s = Some (e, uncore_imc_exit s')"
      "imc_added P (imc_devs devs) e (imc_prepared s) s'"
      "krefs (uncore_imc_exit s') = (krefs s)(d := krefs s d + 2)"
proof -
  obtain r s2 where sc: "scan_ids (\<lambda>e d. uncore_imc_new_device P (Some d)) (ent_devs devs)
      (butlast HSWEP_E5_IMC) (imc_prepared s) = (r, s2)" by fastforce
  have "HSWEP_E5_IMC = butlast HSWEP_E5_IMC @ [null_entry]" by (simp add: HSWEP_E5_IMC_def)
  moreover have "e \<in> set (butlast HSWEP_E5_IMC) \<Longrightarrow> vendor e \<noteq> 0" for e
    by (auto simp: HSWEP_E5_IMC_def imc_entry_def PCI_VENDOR_ID_INTEL_def)
  ultimately have "uncore_imc_ids P HSWEP_E5_IMC (imc_prepared s) = Some (r, s2)"
    using imc_ids_chain [OF assms(2), of "butlast HSWEP_E5_IMC" null_entry "imc_prepared s"] sc
    by (simp add: null_entry_def)
  then have init: "uncore_imc_init (hswep_imc_ops P) P s =
      Some (if r \<noteq> 0 then (r, uncore_imc_exit s2) else (0, s2))"
    using assms(1) by (simp add: uncore_imc_init_def hswep_imc_init_def hswep_imc_ops_def)
  have inv: "imc_reg_inv (imc_prepared s)" by (simp add: imc_reg_inv_def)
  note added = imc_ids_added [OF inv sc, folded imc_devs_def]
  have h0: "surplus imc_held (imc_prepared s) x = krefs s x" for x
    using assms(3) by (simp add: surplus_def imc_held_def)
  show thesis
  proof (cases "r = 0")
    case True
    have "\<forall>x. surplus imc_held s2 x = surplus imc_held (imc_prepared s) x"
      using imc_table.table_ok [OF inv sc [unfolded True]] by simp
    then have "krefs s2 = (\<lambda>x. krefs s x + int (count (imc_held s2) x))"
      unfolding h0 by (simp add: surplus_def fun_eq_iff algebra_simps)
    with ok [of s2] init added True show thesis by simp
  next
    case False
    obtain d where d: "\<And>x. surplus imc_held s2 x = krefs s x + (if x = d then 2 else 0)"
      using imc_table.table_fails [OF inv sc False] unfolding h0 by blast
    have "krefs (uncore_imc_exit s2) = (krefs s)(d := krefs s d + 2)"
      using d by (auto simp: imc_exit_eq surplus_def fun_eq_iff algebra_simps)
    with failed [of r s2 d] init added False show thesis by auto
  qed
qed

lemma imc_init_facts:
  assumes "x86_model P = 63" "enumerates P devs" "uncore_imc_devices s = []"
  shows "\<exists>ret s'. uncore_imc_init (hswep_imc_ops P) P s = Some (ret, s') \<and> panicked s' = panicked s \<and>
    ((\<forall>k. kzalloc_ok P k) \<longrightarrow> ret = 0) \<and>
    (if ret = 0
     then uncore_imc_devices s' = map (imc_of P s') (imc_devs devs) \<and>
       krefs s' = (\<lambda>x. krefs s x + int (count (mset (imc_devs devs)) x))
     else uncore_imc_devices s' = [] \<and> (\<exists>d. krefs s' = (krefs s)(d := krefs s d + 2)))"
  using assms
proof (cases rule: imc_init_cases [of P devs s])
  case (ok s')
  then obtain a k w where s': "s' = (imc_prepared s)\<lparr>allocs := a, krefs := k, imc_warned := w,
      uncore_imc_devices := uncore_imc_devices (imc_prepared s) @ map (imc_of P (imc_prepared s)) (imc_devs devs)\<rparr>"
    unfolding imc_added_def by blast
  then have d: "uncore_imc_devices s' = map (imc_of P s') (imc_devs devs)"
    using assms(3) by (simp add: imc_of_def)
  then have "imc_held s' = mset (imc_devs devs)" by (simp add: imc_held_def comp_def imc_of_def)
  then show ?thesis
    using ok(1,3) d by (intro exI [of _ 0] exI [of _ s']) (simp, simp add: s')
next
  case (failed e s' d)
  then have "panicked s' = panicked s" unfolding imc_added_def by auto
  with failed show ?thesis
    by (intro exI [of _ e] exI [of _ "uncore_imc_exit s'"]) (auto simp: imc_exit_eq)
qed

text \<open>The module as it is loaded, and the reference machine with its two controllers.\<close>

definition imc_loaded :: "'h \<Rightarrow> 'm \<Rightarrow> ('h, 'm) imc_st_scheme" where
  "imc_loaded h m = uncore_loaded h (imc_st_ext [] None [] False m)"

lemma imc_loaded_sel [simp]:
  "uncore_imc_devices (imc_loaded h m) = []" "krefs (imc_loaded h m) x = 0" "world (imc_loaded h m) = h"
  by (simp_all add: imc_loaded_def uncore_loaded_def)

abbreviation ref_imc_st :: "ref_hw imc_st" where
  "ref_imc_st \<equiv> (imc_loaded ref_hw0 ())\<lparr>uncore_imc_devices :=
     [\<lparr>imc_nodeid = 0, imc_pdev = 3, imc_ops = HSWEP_E5_IMC_OPS\<rparr>,
      \<lparr>imc_nodeid = 1, imc_pdev = 6, imc_ops = HSWEP_E5_IMC_OPS\<rparr>]\<rparr>"

lemmas ref_imc_regs = ref_imc.imc_regs_axioms

section \<open>Properties\<close>

lemma set_threshold_facts:
  assumes "imc_regs P"
  shows "case uncore_imc_set_threshold (hswep_imc_ops P) node threshold s of (r, s') \<Rightarrow>
    r = (if node > 8 then - EINVAL
         else if on_nodes {node} (uncore_imc_devices s) = {} then - ENXIO else 0) \<and>
    s' = s\<lparr>world := world s'\<rparr> \<and>
    (\<forall>d. \<forall>i<3. imc_enabled P (world s') d i = imc_enabled P (world s) d i \<and>
      imc_limit P (world s') d i =
        (if r = 0 \<and> d \<in> on_nodes {node} (uncore_imc_devices s) then thrt_pwr threshold
         else imc_limit P (world s) d i))"
proof -
  obtain r s' where u: "uncore_imc_set_threshold (hswep_imc_ops P) node threshold s = (r, s')" by fastforce
  have r: "r = (if node > 8 then - EINVAL
      else if on_nodes {node} (uncore_imc_devices s) = {} then - ENXIO else 0)"
    using imc_regs.hswep_set_code [OF assms, of node threshold s] u by simp
  have same: "s' = s" if "r \<noteq> 0"
  proof (cases "node > 8")
    case True
    with u show ?thesis by (simp add: uncore_imc_set_threshold_def UNCORE_MAX_SOCKET_def)
  next
    case False
    with r that have "filter (\<lambda>imc. imc_nodeid imc = node) (uncore_imc_devices s) = []"
      by (auto simp: on_nodes_def filter_empty_conv split: if_splits)
    with u False show ?thesis
      by (simp add: uncore_imc_set_threshold_def UNCORE_MAX_SOCKET_def set_walk_none)
  qed
  note spec = imc_regs.hswep_set_spec [OF assms u]
  show ?thesis
    using imc_regs.hswep_set_frame [OF assms u] r spec(1) spec(2) spec(3) same
    by (auto simp: u)
qed

text \<open>C19: setting the threshold of a node returns an error for a node out of range and for a
  node without memory controller, and 0 otherwise; then every DIMM of every controller of the
  node has the limit of the threshold, and nothing else has changed: neither the enable bits
  nor any limit on another node nor anything in the kernel.\<close>

theorem set_threshold_correct:
  assumes "imc_regs P"
  shows "case uncore_imc_set_threshold (hswep_imc_ops P) node threshold s of (r, s') \<Rightarrow>
    r = (if node > 8 then - EINVAL
         else if on_nodes {node} (uncore_imc_devices s) = {} then - ENXIO else 0) \<and>
    s' = s\<lparr>world := world s'\<rparr> \<and>
    (\<forall>d. \<forall>i<3. imc_enabled P (world s') d i = imc_enabled P (world s) d i \<and>
      imc_limit P (world s') d i =
        (if r = 0 \<and> d \<in> on_nodes {node} (uncore_imc_devices s) then thrt_pwr threshold
         else imc_limit P (world s) d i))"
  using assms by (rule set_threshold_facts)

lemma set_threshold_correct_witness:
  "\<exists>s'. uncore_imc_set_threshold (hswep_imc_ops ref_platform) 1 2 ref_imc_st = (0, s') \<and>
     imc_limit ref_platform (world s') 6 0 = 0xff \<and>
     imc_limit ref_platform (world s') 3 0 = imc_limit ref_platform ref_hw0 3 0"
  using set_threshold_correct [OF ref_imc_regs, where node = 1 and threshold = 2 and s = ref_imc_st]
  by (auto simp: thrt_pwr_def split: prod.splits)

text \<open>C20: enabling the throttling of a node sets the enable bit of every DIMM of the node's
  controllers and no other bit; it fails, changing nothing, for a node out of range or without
  controller. Disabling it clears the enable bits of the same DIMMs and touches nothing else.\<close>

theorem node_throttle_correct:
  assumes "imc_regs P"
  shows "(case uncore_imc_enable_throttle (hswep_imc_ops P) node s of (r, s') \<Rightarrow>
      r = (if node > 8 then - EINVAL
           else if on_nodes {node} (uncore_imc_devices s) = {} then - ENXIO else 0) \<and>
      s' = s\<lparr>world := world s'\<rparr> \<and>
      (\<forall>d. \<forall>i<3. imc_limit P (world s') d i = imc_limit P (world s) d i \<and>
        (imc_enabled P (world s') d i \<longleftrightarrow> imc_enabled P (world s) d i \<or>
          r = 0 \<and> d \<in> on_nodes {node} (uncore_imc_devices s)))) \<and>
    (let s' = uncore_imc_disable_throttle (hswep_imc_ops P) node s
     in s' = s\<lparr>world := world s'\<rparr> \<and>
       (\<forall>d. \<forall>i<3. imc_limit P (world s') d i = imc_limit P (world s) d i \<and>
         (imc_enabled P (world s') d i \<longleftrightarrow> imc_enabled P (world s) d i \<and>
           d \<notin> on_nodes ({node} \<inter> {..8}) (uncore_imc_devices s))))"
proof (rule conjI, goal_cases)
  case 1
  obtain r s' where u: "uncore_imc_enable_throttle (hswep_imc_ops P) node s = (r, s')" by fastforce
  have r: "r = (if node > 8 then - EINVAL
      else if on_nodes {node} (uncore_imc_devices s) = {} then - ENXIO else 0)"
    using imc_regs.hswep_en_code [OF assms, of node s] u by simp
  obtain h where "s' = s\<lparr>world := h\<rparr>" using imc_regs.hswep_en_frame [OF assms u] by blast
  moreover have "on_nodes ({node} \<inter> {..8}) (uncore_imc_devices s) = {}" if "r \<noteq> 0"
    using r that by (auto simp: on_nodes_def split: if_splits)
  ultimately show ?case
    using r imc_regs.hswep_en_spec [OF assms u] by (auto simp: u)
next
  case 2
  obtain h where "uncore_imc_disable_throttle (hswep_imc_ops P) node s = s\<lparr>world := h\<rparr>"
    using imc_regs.hswep_dis_frame [OF assms, of node s] by blast
  then show ?case
    using imc_regs.hswep_dis_spec [OF assms, of _ node s] by (simp add: Let_def)
qed

lemma node_throttle_correct_witness:
  "\<exists>s'. uncore_imc_enable_throttle (hswep_imc_ops ref_platform) 1 ref_imc_st = (0, s') \<and>
     imc_enabled ref_platform (world s') 6 2 \<and>
     \<not> imc_enabled ref_platform (world (uncore_imc_disable_throttle (hswep_imc_ops ref_platform) 1 ref_imc_st)) 6 2"
proof -
  have "({1} \<inter> {..8} :: u32 set) = {1}" by auto
  with node_throttle_correct [OF ref_imc_regs, where node = 1 and s = ref_imc_st] show ?thesis
    by (auto simp: Let_def split: prod.splits)
qed

text \<open>C17: when every online node has a memory controller, the two operations on all nodes
  succeed and leave every DIMM of the online nodes throttled at the threshold.\<close>

theorem throttle_all_correct:
  assumes "imc_regs P" "online_nodes P \<noteq> []"
    and "\<And>n. n \<in> set (online_nodes P) \<Longrightarrow> n \<le> 8 \<and> on_nodes {n} (uncore_imc_devices s) \<noteq> {}"
  shows "\<exists>s1 s2. uncore_imc_set_threshold_all (hswep_imc_ops P) P threshold s = (0, s1) \<and>
    uncore_imc_enable_throttle_all (hswep_imc_ops P) P s1 = (0, s2) \<and>
    (\<forall>d \<in> on_nodes (set (online_nodes P)) (uncore_imc_devices s). \<forall>i<3.
      imc_limit P (world s2) d i = thrt_pwr threshold \<and> imc_enabled P (world s2) d i)"
proof -
  obtain r1 s1 where a: "set_threshold_nodes (hswep_imc_ops P) threshold (online_nodes P) (- ENXIO) s = (r1, s1)"
    by fastforce
  then have r1: "r1 = 0"
    using imc_regs.hswep_set_all_code [OF assms(1), of "online_nodes P" s threshold "- ENXIO"] assms(2,3) by simp
  note sp = imc_regs.hswep_set_all_spec [OF assms(1) a [unfolded r1]]
  have "s1 = s\<lparr>world := world s1\<rparr>" using sp [of 0] by simp
  then have dev: "uncore_imc_devices s1 = uncore_imc_devices s"
    by (metis imc_st.select_convs(3) imc_st.surjective kern.update_convs(1))
  obtain r2 s2 where b: "enable_nodes (hswep_imc_ops P) P (online_nodes P) (- ENXIO) s1 = (r2, s2)"
    by fastforce
  then have r2: "r2 = 0"
    using imc_regs.hswep_en_all_code [OF assms(1), of "online_nodes P" s1 P "- ENXIO"] assms(2,3) dev by simp
  note ep = imc_regs.hswep_en_all_spec [OF assms(1) b [unfolded r2]]
  have "\<forall>d \<in> on_nodes (set (online_nodes P)) (uncore_imc_devices s). \<forall>i<3.
      imc_limit P (world s2) d i = thrt_pwr threshold \<and> imc_enabled P (world s2) d i"
    using sp ep by (auto simp: dev)
  with a b r1 r2 show ?thesis
    by (simp add: uncore_imc_set_threshold_all_def uncore_imc_enable_throttle_all_def)
qed

lemma throttle_all_correct_witness:
  "\<exists>s1 s2. uncore_imc_set_threshold_all (hswep_imc_ops ref_platform) ref_platform 4 ref_imc_st = (0, s1) \<and>
    uncore_imc_enable_throttle_all (hswep_imc_ops ref_platform) ref_platform s1 = (0, s2) \<and>
    imc_limit ref_platform (world s2) 6 1 = 0x7f"
proof -
  have "n \<in> set (online_nodes ref_platform) \<Longrightarrow>
      n \<le> 8 \<and> on_nodes {n} (uncore_imc_devices ref_imc_st) \<noteq> {}" for n
    by auto
  from throttle_all_correct [OF ref_imc_regs _ this, of 4] show ?thesis
    by (auto simp: thrt_pwr_def)
qed

text \<open>C18: when an online node has no memory controller \<open>uncore_imc_enable_throttle_all\<close> fails,
  and its error path leaves no DIMM of an online node throttled, not even one that was before
  the call.\<close>

theorem enable_all_rolls_back:
  assumes "imc_regs P" "n \<in> set (online_nodes P)" "on_nodes {n} (uncore_imc_devices s) = {}"
    and "d \<in> on_nodes (set (online_nodes P) \<inter> {..8}) (uncore_imc_devices s)" "i < 3"
  shows "case uncore_imc_enable_throttle_all (hswep_imc_ops P) P s of (r, s') \<Rightarrow>
    r \<noteq> 0 \<and> \<not> imc_enabled P (world s') d i"
proof -
  obtain r s' where u: "enable_nodes (hswep_imc_ops P) P (online_nodes P) (- ENXIO) s = (r, s')" by fastforce
  have "r \<noteq> 0"
    using imc_regs.hswep_en_all_fails [OF assms(1), of n "online_nodes P" s P "- ENXIO"] assms(2,3) u by simp
  moreover have "online_nodes P \<noteq> []" using assms(2) by auto
  ultimately show ?thesis
    using imc_regs.hswep_en_all_spec [OF assms(1) u assms(5), of d] assms(4) u
    by (auto simp: uncore_imc_enable_throttle_all_def)
qed

lemma enable_all_rolls_back_witness:
  "case uncore_imc_enable_throttle_all (hswep_imc_ops ref_platform) ref_platform
       (ref_imc_st\<lparr>uncore_imc_devices := [\<lparr>imc_nodeid = 0, imc_pdev = 3, imc_ops = HSWEP_E5_IMC_OPS\<rparr>]\<rparr>)
     of (r, s') \<Rightarrow> r \<noteq> 0 \<and> \<not> imc_enabled ref_platform (world s') 3 0"
  by (rule enable_all_rolls_back [OF ref_imc_regs, of 1]) auto

text \<open>C21: \<open>uncore_imc_init\<close> ends and never dies. It succeeds when memory lasts: then there is
  one entry for each device the kernel enumerates for the id table, in order, with the node of
  its bus, and each holds one reference on its device. When it fails the list is empty and all
  references are dropped but the two on the device that could not be registered.\<close>

theorem imc_init_outcome:
  assumes "x86_model P = 63" "enumerates P devs" "uncore_imc_devices s = []"
  shows "\<exists>ret s'. uncore_imc_init (hswep_imc_ops P) P s = Some (ret, s') \<and> panicked s' = panicked s \<and>
    ((\<forall>k. kzalloc_ok P k) \<longrightarrow> ret = 0) \<and>
    (if ret = 0
     then uncore_imc_devices s' = map (imc_of P s') (imc_devs devs) \<and>
       krefs s' = (\<lambda>x. krefs s x + int (count (mset (imc_devs devs)) x))
     else uncore_imc_devices s' = [] \<and> (\<exists>d. krefs s' = (krefs s)(d := krefs s d + 2)))"
  using assms by (rule imc_init_facts)

lemma imc_init_outcome_witness:
  "\<exists>s'. uncore_imc_init (hswep_imc_ops ref_platform) ref_platform (imc_loaded ref_hw0 ()) = Some (0, s') \<and>
     uncore_imc_devices s' = map (imc_of ref_platform s') [3, 6]"
proof -
  have "imc_devs ref_devs = [3, 6]" by code_simp
  with imc_init_outcome [OF _ ref_enumerates, of "imc_loaded ref_hw0 ()"] show ?thesis
    by (auto split: if_splits)
qed

lemma imc_exit_undoes_init:
  assumes "x86_model P = 63" "enumerates P devs" "uncore_imc_devices s = []"
    and "uncore_imc_init (hswep_imc_ops P) P s = Some (0, s')"
    and "uncore_imc_devices s'' = uncore_imc_devices s'" "krefs s'' = krefs s'"
  shows "uncore_imc_devices (uncore_imc_exit s'') = [] \<and> krefs (uncore_imc_exit s'') = krefs s"
proof -
  have "imc_held s'' = mset (imc_devs devs)"
    using imc_init_facts [OF assms(1-3)] assms(4,5) by (simp add: imc_held_def imc_of_def comp_def)
  then show ?thesis
    using imc_init_facts [OF assms(1-3)] assms(4,6) by (simp add: imc_exit_eq)
qed

text \<open>C15: the exits undo successful initialisations. \<open>uncore_pci_exit\<close> brings all reference counts back to
  what they were, empties the PCI lists, leaves no box of a PCI type in memory, and run once more
  changes nothing; \<open>uncore_imc_exit\<close> empties the list of controllers and brings every reference count
  back, whatever happened in between to the other parts of the state.\<close>

theorem exits_undo_inits:
  assumes "x86_model P = 63" "enumerates P devs"
    and "uncore_pci_init P junk s = Some (0, s')" "no_boxes HSWEP_UNCORE_PCI_TYPE s" "no_leak s"
    and "uncore_imc_devices t = []" "uncore_imc_init (hswep_imc_ops P) P t = Some (0, t')"
    and "uncore_imc_devices t'' = uncore_imc_devices t'" "krefs t'' = krefs t'"
  shows "krefs (uncore_pci_exit s') = krefs s \<and> no_boxes HSWEP_UNCORE_PCI_TYPE (uncore_pci_exit s') \<and>
    (\<forall>a b. box_heap (uncore_pci_exit s') a = Some b \<longrightarrow> box_type b \<notin> set HSWEP_UNCORE_PCI_TYPE) \<and>
    panicked (uncore_pci_exit s') = panicked s \<and>
    uncore_pci_exit (uncore_pci_exit s') = uncore_pci_exit s' \<and>
    uncore_imc_devices (uncore_imc_exit t'') = [] \<and> krefs (uncore_imc_exit t'') = krefs t"
  using pci_exit_undoes_init [OF assms(1-5)] imc_exit_undoes_init [OF assms(1,2,6-9)] by blast

lemma exits_undo_inits_witness:
  "\<exists>s t. uncore_pci_init ref_platform 0 ref_st = Some (0, s) \<and>
     uncore_imc_init (hswep_imc_ops ref_platform) ref_platform (imc_loaded ref_hw0 ()) = Some (0, t) \<and>
     krefs (uncore_pci_exit s) = krefs ref_st \<and> no_boxes HSWEP_UNCORE_PCI_TYPE (uncore_pci_exit s) \<and>
     uncore_imc_devices (uncore_imc_exit t) = [] \<and> krefs (uncore_imc_exit t) 3 = 0"
proof -
  obtain s where s: "uncore_pci_init ref_platform 0 ref_st = Some (0, s)"
    using ref_pci_init [where m = "()"] by blast
  obtain t where t: "uncore_imc_init (hswep_imc_ops ref_platform) ref_platform (imc_loaded ref_hw0 ()) = Some (0, t)"
    using imc_init_facts [OF _ ref_enumerates, of "imc_loaded ref_hw0 ()"] by auto
  from exits_undo_inits [OF _ ref_enumerates s ref_lists(1) loaded_boxes(2) _ t refl refl] s t show ?thesis by simp
qed

end
