(* ===== verification/Emulate_Nvm.thy ===== *)
theory Emulate_Nvm
  imports Imc_Init
begin

text \<open>
  The emulation of non-volatile memory: \<open>emulate_nvm.c\<close>, \<open>emulate_nvm_proc.c\<close> and
  \<open>uncore_proc.c\<close>, in the order of the files. The timer handler, the start and the end of
  the latency and bandwidth models, the CPU hotplug that prepares the machine, and the two
  /proc files. The properties are in \<open>Emulate_Latency\<close>, \<open>Emulate_Control\<close> and \<open>Module_Life\<close>.
\<close>

section \<open>Globals\<close>

record 'h emu_st = "'h imc_st" +
  dram_read_latency_ns :: u64
  nvm_read_latency_ns :: u64
  read_latency_delta_ns :: u64
  polling_cpu :: u32
  polling_node :: u32
  emulate_nvm_cpu :: u32
  emulate_nvm_node :: u32
  emulate_nvm_hrtimer_duration_ns :: u64
  hrtimer_jiffies :: u64
  emulation_started :: bool
  latency_started :: bool
  HA_Box_0 :: "box_ptr option"
  HA_Box_1 :: "box_ptr option"
  emu_event :: "uncore_event option"
  proc_counts :: u64
  emulate_proc_registed :: bool
  bw_ratio :: int
  uncore_proc_registed :: bool

text \<open>The state when the module has been loaded: the static variables hold their initial values,
  and no device is held, no /proc entry exists.\<close>

definition emu_loaded :: "'h \<Rightarrow> 'm \<Rightarrow> ('h, 'm) emu_st_scheme" where
  "emu_loaded h m =
     uncore_loaded h
       \<lparr>uncore_imc_device_ids = [], uncore_imc_ops = None, uncore_imc_devices = [],
        imc_warned = False, dram_read_latency_ns = 0, nvm_read_latency_ns = 0, read_latency_delta_ns = 0,
        polling_cpu = 0, polling_node = 0, emulate_nvm_cpu = 0, emulate_nvm_node = 0,
        emulate_nvm_hrtimer_duration_ns = 0, hrtimer_jiffies = 0, emulation_started = False,
        latency_started = False, HA_Box_0 = None, HA_Box_1 = None, emu_event = None,
        proc_counts = 0, emulate_proc_registed = False, bw_ratio = 1, uncore_proc_registed = False,
        \<dots> = m\<rparr>"

lemma emu_loaded_sel [simp]:
  "world (emu_loaded h m) = h" "krefs (emu_loaded h m) = (\<lambda>_. 0)" "procs (emu_loaded h m) = []"
  "proc_faults (emu_loaded h m) = 0" "\<not> panicked (emu_loaded h m)" "box_heap (emu_loaded h m) = Map.empty"
  "uncore_imc_devices (emu_loaded h m) = []" "emulate_nvm_cpu (emu_loaded h m) = 0"
  "emulate_nvm_node (emu_loaded h m) = 0" "emulation_started (emu_loaded h m) = False"
  "latency_started (emu_loaded h m) = False" "emulate_proc_registed (emu_loaded h m) = False"
  "uncore_proc_registed (emu_loaded h m) = False" "uncore_pci_type (emu_loaded h m) = []"
  "uncore_msr_type (emu_loaded h m) = []"
  by (simp_all add: emu_loaded_def uncore_loaded_def)

type_synonym 'h tables = "'h ops_tables \<times> 'h imc_tables"

text \<open>Accesses through a box pointer: a method of the box on the hardware, and an update of the
  box itself. A freed or \<open>NULL\<close> pointer kills the kernel.\<close>

definition on_box :: "box_ptr option \<Rightarrow> (uncore_box_type \<Rightarrow> uncore_box \<Rightarrow> 'h \<Rightarrow> 'h) \<Rightarrow>
    ('h, 'm) pmu_st_scheme \<Rightarrow> ('h, 'm) pmu_st_scheme" where
  "on_box p f s =
     (case Option.bind p (box_heap s) of
        None \<Rightarrow> die s
      | Some box \<Rightarrow> on_world (f (types s (box_type box)) box) s)"

definition upd_box :: "box_ptr option \<Rightarrow> (uncore_box \<Rightarrow> uncore_box) \<Rightarrow>
    ('h, 'm) pmu_st_scheme \<Rightarrow> ('h, 'm) pmu_st_scheme" where
  "upd_box p f s =
     (case p of
        None \<Rightarrow> die s
      | Some a \<Rightarrow>
          (case box_heap s a of
             None \<Rightarrow> die s
           | Some box \<Rightarrow> s\<lparr>box_heap := (box_heap s)(a := Some (f box))\<rparr>))"

section \<open>The delay\<close>

definition emulate_nvm_func :: "u64 \<Rightarrow> u32 \<Rightarrow> ('h, 'm) kern_scheme \<Rightarrow> ('h, 'm) kern_scheme" where
  "emulate_nvm_func delay_ns cpu s = udelay (delay_ns div 1000) cpu s"

definition counts_to_delay_ns :: "('h, 'm) emu_st_scheme \<Rightarrow> u64 \<Rightarrow> u64" where
  "counts_to_delay_ns s counts = counts * read_latency_delta_ns s"

text \<open>The timer handler, run on the CPU the timer is bound to with the box its timer is in.\<close>

definition emulate_nvm_hrtimer :: "'h ops_tables \<Rightarrow> 'h platform \<Rightarrow> box_ptr \<Rightarrow>
    ('h, 'm) emu_st_scheme \<Rightarrow> hrtimer_restart \<times> ('h, 'm) emu_st_scheme" where
  "emulate_nvm_hrtimer T P a s =
     (case box_heap s a of
        None \<Rightarrow> (HRTIMER_NORESTART, die s)
      | Some box \<Rightarrow>
          (let ty = types s (box_type box); cpu = this_cpu P;
               s = on_world (uncore_disable_box T cpu ty box) s;
               counts = uncore_read_counter T cpu ty box (world s) (stack_junk64 P);
               s = s\<lparr>proc_counts := counts\<rparr>;
               delay_ns = counts_to_delay_ns s counts;
               s = snd (smp_call_function_single P (emulate_nvm_cpu s) (emulate_nvm_func delay_ns) s);
               s = on_world (uncore_write_counter T cpu ty box 0) s;
               s = on_world (uncore_enable_box T cpu ty box) s;
               s = s\<lparr>hrtimer_jiffies := hrtimer_jiffies s + 1\<rparr>;
               s = upd_box (Some a) (\<lambda>b. hrtimer_forward (hrtimer_duration b) b) s
           in (HRTIMER_RESTART, s)))"

section \<open>Latency\<close>

definition start_emulate_latency :: "'h ops_tables \<Rightarrow> 'h platform \<Rightarrow> ('h, 'm) emu_st_scheme \<Rightarrow>
    int \<times> ('h, 'm) emu_st_scheme" where
  "start_emulate_latency T P s =
     (let ha = array_at (uncore_pci_type s) UNCORE_PCI_HA_ID;
          (b0, s) = uncore_get_first_box ha 0 s; s = s\<lparr>HA_Box_0 := b0\<rparr>;
          (b1, s) = uncore_get_first_box ha 1 s; s = s\<lparr>HA_Box_1 := b1\<rparr>
      in if b0 = None \<or> b1 = None then (- ENXIO, s)
         else
           (let s = s\<lparr>emu_event := Some ha_requests_remote_reads\<rparr>; cpu = this_cpu P;
                s = upd_box b1 (uncore_box_bind_event (emu_event s)) s;
                s = on_box b1 (uncore_init_box T cpu) s;
                s = on_box b1 (uncore_disable_box T cpu) s;
                s = on_box b1 (\<lambda>ty box. uncore_enable_event T cpu ty box ha_requests_remote_reads) s;
                s = on_box b1 (uncore_enable_box T cpu) s;
                s = upd_box b1 (uncore_box_change_hrtimer Emulate_nvm_hrtimer) s;
                s = upd_box b1 (uncore_box_change_duration (emulate_nvm_hrtimer_duration_ns s)) s;
                s = upd_box b1 uncore_box_start_hrtimer s
            in (0, s\<lparr>latency_started := True\<rparr>)))"

definition finish_emulate_latency :: "'h ops_tables \<Rightarrow> 'h platform \<Rightarrow> ('h, 'm) emu_st_scheme \<Rightarrow>
    ('h, 'm) emu_st_scheme" where
  "finish_emulate_latency T P s =
     (if latency_started s
      then (let cpu = this_cpu P;
                s = upd_box (HA_Box_0 s) uncore_box_cancel_hrtimer s;
                s = upd_box (HA_Box_1 s) uncore_box_cancel_hrtimer s;
                s = on_box (HA_Box_0 s) (uncore_disable_box T cpu) s;
                s = on_box (HA_Box_1 s) (uncore_disable_box T cpu) s;
                s = on_box (HA_Box_0 s) (uncore_clear_box T cpu) s;
                s = on_box (HA_Box_1 s) (uncore_clear_box T cpu) s
            in s\<lparr>latency_started := False\<rparr>)
      else s)"

text \<open>What it prints between disabling and clearing: the registers of each box once it is disabled, and the
  global registers of every node.\<close>

definition shown_box :: "'h ops_tables \<Rightarrow> 'h platform \<Rightarrow> box_ptr option \<Rightarrow> ('h, 'm) pmu_st_scheme \<Rightarrow>
    u64 list option" where
  "shown_box T P p s =
     Option.bind (Option.bind p (box_heap s))
       (\<lambda>box. Some (uncore_show_box T (this_cpu P) (types s (box_type box)) box (world s)))"

definition finish_latency_report :: "'h ops_tables \<Rightarrow> 'h platform \<Rightarrow> ('h, 'm) emu_st_scheme \<Rightarrow>
    (u64 list \<times> u64 list \<times> (string \<times> (u32 \<times> u32 list) list) option) option" where
  "finish_latency_report T P s =
     (if latency_started s
      then (let cpu = this_cpu P;
                s = upd_box (HA_Box_0 s) uncore_box_cancel_hrtimer s;
                s = upd_box (HA_Box_1 s) uncore_box_cancel_hrtimer s;
                s = on_box (HA_Box_0 s) (uncore_disable_box T cpu) s;
                shown0 = shown_box T P (HA_Box_0 s) s;
                s = on_box (HA_Box_1 s) (uncore_disable_box T cpu) s;
                shown1 = shown_box T P (HA_Box_1 s) s
            in Option.bind shown0 (\<lambda>regs0. Option.bind shown1 (\<lambda>regs1.
                 Some (regs0, regs1, uncore_print_global_pmu P (Some (uncore_pmu_desc s)) s))))
      else None)"

section \<open>Bandwidth\<close>

text \<open>The results of both calls are dropped.\<close>

definition start_emulate_bandwidth :: "'h imc_tables \<Rightarrow> 'h platform \<Rightarrow> ('h, 'm) emu_st_scheme \<Rightarrow>
    int \<times> ('h, 'm) emu_st_scheme" where
  "start_emulate_bandwidth T P s =
     (let s = snd (uncore_imc_set_threshold_all T P 1 s);
          s = snd (uncore_imc_enable_throttle_all T P s)
      in (0, s))"

definition finish_emulate_bandwidth :: "'h imc_tables \<Rightarrow> 'h platform \<Rightarrow> ('h, 'm) emu_st_scheme \<Rightarrow>
    ('h, 'm) emu_st_scheme" where
  "finish_emulate_bandwidth T P s = uncore_imc_disable_throttle_all T P s"

text \<open>The parameters, as they are printed when the emulation starts: the interval of the timer in
  nanoseconds and milliseconds, both CPUs with their nodes, and the latencies.\<close>

definition show_emulate_parameter :: "('h, 'm) emu_st_scheme \<Rightarrow>
    (u64 \<times> u64) \<times> (u32 \<times> u32) \<times> (u32 \<times> u32) \<times> (u64 \<times> u64 \<times> u64)" where
  "show_emulate_parameter s =
     ((emulate_nvm_hrtimer_duration_ns s, emulate_nvm_hrtimer_duration_ns s div 1000000),
      (polling_cpu s, polling_node s), (emulate_nvm_cpu s, emulate_nvm_node s),
      (nvm_read_latency_ns s, dram_read_latency_ns s, read_latency_delta_ns s))"

section \<open>CPU hotplug\<close>

text \<open>\<open>for_each_cpu\<close> and \<open>for_each_cpu_not\<close> test the mask of the node when they reach a CPU, and
  the mask holds the CPUs that are online then. The results of \<open>cpu_down\<close> and \<open>cpu_up\<close> are
  dropped.\<close>

definition offline_node :: "'h platform \<Rightarrow> u32 \<Rightarrow> u32 \<Rightarrow> 'h \<Rightarrow> 'h" where
  "offline_node P node keep h =
     fold (\<lambda>cpu h. if cpumask_of_node P h node cpu \<and> cpu \<noteq> keep then snd (cpu_down P cpu h) else h)
       (possible_cpus P) h"

definition online_others :: "'h platform \<Rightarrow> u32 \<Rightarrow> u32 \<Rightarrow> 'h \<Rightarrow> 'h" where
  "online_others P node keep h =
     fold (\<lambda>cpu h. if \<not> cpumask_of_node P h node cpu \<and> cpu \<noteq> keep then snd (cpu_up P cpu h) else h)
       (possible_cpus P) h"

definition online_node :: "'h platform \<Rightarrow> u32 \<Rightarrow> u32 \<Rightarrow> 'h \<Rightarrow> 'h" where
  "online_node P node keep h =
     fold (\<lambda>cpu h. if cpumask_of_node P h node cpu \<and> cpu \<noteq> keep then snd (cpu_up P cpu h) else h)
       (possible_cpus P) h"

definition prepare_platform_configuration :: "'h platform \<Rightarrow> ('h, 'm) emu_st_scheme \<Rightarrow>
    int \<times> ('h, 'm) emu_st_scheme" where
  "prepare_platform_configuration P s =
     (if this_cpu P \<noteq> polling_cpu s then (- 1, s)
      else
        (let s = on_world (offline_node P (emulate_nvm_node s) (emulate_nvm_cpu s)) s;
             s = on_world (offline_node P (polling_node s) (polling_cpu s)) s
         in (0, s)))"

definition restore_platform_configuration :: "'h platform \<Rightarrow> ('h, 'm) emu_st_scheme \<Rightarrow>
    ('h, 'm) emu_st_scheme" where
  "restore_platform_configuration P s =
     (let s = on_world (online_others P (emulate_nvm_node s) (emulate_nvm_cpu s)) s
      in on_world (online_node P (polling_node s) (polling_cpu s)) s)"

section \<open>/proc/emulate_nvm\<close>

text \<open>What the file shows: the last counts, the delay they stand for, the timer runs.\<close>

definition emulate_nvm_proc_show :: "('h, 'm) emu_st_scheme \<Rightarrow> u64 list" where
  "emulate_nvm_proc_show s =
     [proc_counts s, proc_counts s * read_latency_delta_ns s, hrtimer_jiffies s]"

text \<open>\<open>buf\<close> is the user's buffer, \<open>None\<close> when it cannot be read.\<close>

definition emulate_nvm_proc_write :: "nat \<Rightarrow> nat \<Rightarrow> string option \<Rightarrow> int" where
  "emulate_nvm_proc_write cnt offs buf =
     (if cnt \<noteq> 2 \<or> offs \<noteq> 0 then - EINVAL
      else case buf of None \<Rightarrow> - EFAULT | Some ctl \<Rightarrow> - EINVAL)"

definition emulate_nvm_proc_create :: "'h platform \<Rightarrow> ('h, 'm) emu_st_scheme \<Rightarrow>
    int \<times> ('h, 'm) emu_st_scheme" where
  "emulate_nvm_proc_create P s =
     (case proc_create P ''emulate_nvm'' s of (ok, s) \<Rightarrow>
       if ok then (0, s\<lparr>emulate_proc_registed := True\<rparr>) else (- ENOENT, s))"

definition emulate_nvm_proc_remove :: "('h, 'm) emu_st_scheme \<Rightarrow> ('h, 'm) emu_st_scheme" where
  "emulate_nvm_proc_remove s =
     (if emulate_proc_registed s then remove_proc_entry ''emulate_nvm'' s else s)"

section \<open>Starting and finishing the emulation\<close>

definition start_emulate_nvm :: "'h tables \<Rightarrow> 'h platform \<Rightarrow> ('h, 'm) emu_st_scheme \<Rightarrow>
    ('h, 'm) emu_st_scheme" where
  "start_emulate_nvm T P s =
     (let s = s\<lparr>dram_read_latency_ns := 100, nvm_read_latency_ns := 300, read_latency_delta_ns := 200,
            polling_cpu := 6, emulate_nvm_cpu := 0\<rparr>;
          s = s\<lparr>polling_node := cpu_to_node P (polling_cpu s),
            emulate_nvm_node := cpu_to_node P (emulate_nvm_cpu s)\<rparr>;
          s = s\<lparr>emulate_nvm_hrtimer_duration_ns := 1000000 * 100\<rparr>
      in case emulate_nvm_proc_create P s of (ret, s) \<Rightarrow>
        if ret \<noteq> 0 then s
        else (case prepare_platform_configuration P s of (ret, s) \<Rightarrow>
          if ret \<noteq> 0 then emulate_nvm_proc_remove s
          else (case start_emulate_bandwidth (snd T) P s of (ret, s) \<Rightarrow>
            if ret \<noteq> 0 then emulate_nvm_proc_remove (restore_platform_configuration P s)
            else (case start_emulate_latency (fst T) P s of (ret, s) \<Rightarrow>
              if ret \<noteq> 0
              then emulate_nvm_proc_remove
                (restore_platform_configuration P (finish_emulate_bandwidth (snd T) P s))
              else s\<lparr>emulation_started := True\<rparr>))))"

definition finish_emulate_nvm :: "'h tables \<Rightarrow> 'h platform \<Rightarrow> ('h, 'm) emu_st_scheme \<Rightarrow>
    ('h, 'm) emu_st_scheme" where
  "finish_emulate_nvm T P s =
     (if emulation_started s
      then (let s = emulate_nvm_proc_remove s;
                s = restore_platform_configuration P s;
                s = finish_emulate_bandwidth (snd T) P s;
                s = finish_emulate_latency (fst T) P s
            in s\<lparr>emulation_started := False\<rparr>)
      else s)"

section \<open>/proc/uncore_pmu\<close>

definition pmu_proc_show :: "('h, 'm) emu_st_scheme \<Rightarrow> int" where
  "pmu_proc_show s = bw_ratio s"

text \<open>The results of the threshold calls are dropped.\<close>

definition set_bw :: "'h imc_tables \<Rightarrow> int \<Rightarrow> u32 \<Rightarrow> ('h, 'm) emu_st_scheme \<Rightarrow> ('h, 'm) emu_st_scheme" where
  "set_bw T ratio threshold s =
     (let s = s\<lparr>bw_ratio := ratio\<rparr>;
          s = snd (uncore_imc_set_threshold T 0 threshold s)
      in snd (uncore_imc_set_threshold T 1 threshold s))"

definition uncore_proc_write :: "'h imc_tables \<Rightarrow> nat \<Rightarrow> nat \<Rightarrow> string option \<Rightarrow>
    ('h, 'm) emu_st_scheme \<Rightarrow> int \<times> ('h, 'm) emu_st_scheme" where
  "uncore_proc_write T cnt offs buf s =
     (if cnt \<noteq> 2 \<or> offs \<noteq> 0 then (- EINVAL, s)
      else (case buf of
          None \<Rightarrow> (- EFAULT, s)
        | Some ctl \<Rightarrow>
            if ctl ! 0 = CHR ''0'' then (int cnt, set_bw T 1 1 s)
            else if ctl ! 0 = CHR ''2'' then (int cnt, set_bw T 2 2 s)
            else if ctl ! 0 = CHR ''4'' then (int cnt, set_bw T 4 4 s)
            else (- EINVAL, s)))"

definition uncore_proc_create :: "'h platform \<Rightarrow> ('h, 'm) emu_st_scheme \<Rightarrow>
    int \<times> ('h, 'm) emu_st_scheme" where
  "uncore_proc_create P s =
     (case proc_create P ''uncore_pmu'' s of (ok, s) \<Rightarrow>
       if ok then (0, s\<lparr>uncore_proc_registed := True\<rparr>) else (- ENOENT, s))"

definition uncore_proc_remove :: "('h, 'm) emu_st_scheme \<Rightarrow> ('h, 'm) emu_st_scheme" where
  "uncore_proc_remove s =
     (if uncore_proc_registed s then remove_proc_entry ''uncore_pmu'' s else s)"

end
