(* ===== verification/Emulate_Latency.thy ===== *)
theory Emulate_Latency
  imports Emulate_Nvm
begin

text \<open>
  The latency model: what one run of the timer handler does, and over a whole session that
  the delay sent to the emulated CPU accounts for every remote read the hardware counted.
\<close>

section \<open>The methods and the timer of a box\<close>

text \<open>No Haswell-EP method looks at the timer of its box, its duration or its event.\<close>

lemma method_box:
  assumes "idx b = idx box" "pdev b = pdev box"
  shows "uncore_init_box (hswep_ops P) cpu ty b = uncore_init_box (hswep_ops P) cpu ty box"
    "uncore_disable_box (hswep_ops P) cpu ty b = uncore_disable_box (hswep_ops P) cpu ty box"
    "uncore_enable_box (hswep_ops P) cpu ty b = uncore_enable_box (hswep_ops P) cpu ty box"
    "uncore_enable_event (hswep_ops P) cpu ty b = uncore_enable_event (hswep_ops P) cpu ty box"
    "uncore_write_counter (hswep_ops P) cpu ty b = uncore_write_counter (hswep_ops P) cpu ty box"
    "uncore_read_counter (hswep_ops P) cpu ty b = uncore_read_counter (hswep_ops P) cpu ty box"
  by (intro ext; simp add: assms box_api_defs hswep_ops_eq HSWEP_UNCORE_MSR_BOX_OPS_def
      HSWEP_UNCORE_PCI_BOX_OPS_def msr_method_defs pci_method_defs msr_addr_defs)+

lemmas method_timer [simp] = method_box [of "box\<lparr>hrtimer := r\<rparr>" box for box r, simplified]

lemma read_old:
  "uncore_read_counter (hswep_ops P) cpu ty box h old = uncore_read_counter (hswep_ops P) cpu ty box h 0"
  by (simp add: uncore_read_counter_def hswep_ops_eq HSWEP_UNCORE_MSR_BOX_OPS_def HSWEP_UNCORE_PCI_BOX_OPS_def)

section \<open>One run of the handler\<close>

context hswep_pci_box
begin

lemma handler_run:
  assumes "box_heap s a = Some (box\<lparr>hrtimer := r\<rparr>)" "types s (box_type box) = ty" "this_cpu P = cpu"
    and "smp_status P (uncore_disable_box (hswep_ops P) cpu ty box (world s)) (emulate_nvm_cpu s) = 0"
  shows "emulate_nvm_hrtimer (hswep_ops P) P a s =
    (HRTIMER_RESTART,
     s\<lparr>world := snd (sample (world s)),
       delays := (emulate_nvm_cpu s, fst (sample (world s)) * read_latency_delta_ns s div 1000) # delays s,
       proc_counts := fst (sample (world s)), hrtimer_jiffies := hrtimer_jiffies s + 1,
       box_heap := (box_heap s)(a := Some (box\<lparr>hrtimer := r\<lparr>hr_queued := Some (hrtimer_duration box)\<rparr>\<rparr>))\<rparr>)"
  using assms
  by (simp add: emulate_nvm_hrtimer_def Let_def on_world_def smp_call_function_single_def
      emulate_nvm_func_def udelay_def counts_to_delay_ns_def sample_def upd_box_def hrtimer_forward_def
      read_old [of _ _ _ _ _ "stack_junk64 P"])

end

section \<open>A session\<close>

text \<open>The hardware counts on the box while the timer fires from time to time.\<close>

fun emu_run :: "'h ops_tables \<Rightarrow> 'h platform \<Rightarrow> (nat \<Rightarrow> 'h \<Rightarrow> 'h) \<Rightarrow> box_ptr \<Rightarrow> box_step list \<Rightarrow>
    ('h, 'm) emu_st_scheme \<Rightarrow> ('h, 'm) emu_st_scheme" where
  "emu_run T P tick a [] s = s"
| "emu_run T P tick a (Count n # xs) s = emu_run T P tick a xs (on_world (tick n) s)"
| "emu_run T P tick a (Sample # xs) s = emu_run T P tick a xs (snd (emulate_nvm_hrtimer T P a s))"

fun samples :: "box_step list \<Rightarrow> nat" where
  "samples [] = 0"
| "samples (Count n # xs) = samples xs"
| "samples (Sample # xs) = Suc (samples xs)"

text \<open>A 48-bit count times a delta of at most 16 bits stays below \<open>2 ^ 64\<close>.\<close>

lemma delay_exact:
  fixes c d :: u64
  assumes "unat c < 2 ^ 48" "unat d < 2 ^ 16"
  shows "c * d div 1000 = of_nat (unat c * unat d div 1000)"
proof -
  have "unat c * unat d < 2 ^ 48 * 2 ^ 16"
    using assms by (intro mult_strict_mono) simp_all
  then have "unat (c * d) = unat c * unat d"
    by (simp add: unat_word_ariths take_bit_nat_eq_self)
  then have "unat (c * d div 1000) = unat c * unat d div 1000"
    by (simp add: unat_div_distrib)
  moreover have "c * d div 1000 = of_nat (unat (c * d div 1000))" by simp
  ultimately show ?thesis by metis
qed

text \<open>The emulated CPU stays reachable: \<open>up\<close> holds of the hardware states in which it is, and
  neither counting nor a write to the box changes that.\<close>

locale emulation = hswep_pci_counting +
  fixes target :: u32 and up :: "'a \<Rightarrow> bool"
  assumes up_status: "up h \<Longrightarrow> smp_status P h target = 0"
    and up_tick: "up h \<Longrightarrow> up (tick n h)"
    and up_write: "up h \<Longrightarrow> up (pci_write_config_dword P d r v h)"
begin

lemma up_methods:
  assumes "up h"
  shows "up (uncore_disable_box (hswep_ops P) cpu ty box h)" "up (uncore_enable_box (hswep_ops P) cpu ty box h)"
    "up (uncore_write_counter (hswep_ops P) cpu ty box v h)"
  using assms by (simp_all add: api_simps disable_eq enable_eq write_eq up_write)

lemma up_sample: "up h \<Longrightarrow> up (snd (sample h))"
  by (simp add: sample_def up_methods)

lemma emu_run_sim:
  assumes "types s (box_type box) = ty" "this_cpu P = cpu" "box_heap s a = Some (box\<lparr>hrtimer := r\<rparr>)"
    and "emulate_nvm_cpu s = target" "up (world s)"
  shows "\<exists>r' pc. emu_run (hswep_ops P) P tick a xs s =
    s\<lparr>world := snd (box_run xs (world s)),
      delays := rev (map (\<lambda>c. (emulate_nvm_cpu s, c * read_latency_delta_ns s div 1000))
        (fst (box_run xs (world s)))) @ delays s,
      proc_counts := pc, hrtimer_jiffies := hrtimer_jiffies s + of_nat (samples xs),
      box_heap := (box_heap s)(a := Some (box\<lparr>hrtimer := r'\<rparr>))\<rparr>"
  using assms
proof (induction xs arbitrary: s r)
  case Nil
  then show ?case
    by (intro exI [of _ r] exI [of _ "proc_counts s"]) (simp add: fun_upd_idem)
next
  case (Cons x xs)
  show ?case
  proof (cases x)
    case (Count n)
    have "box_heap (on_world (tick n) s) a = Some (box\<lparr>hrtimer := r\<rparr>)"
      "types (on_world (tick n) s) (box_type box) = ty"
      "emulate_nvm_cpu (on_world (tick n) s) = target" "up (world (on_world (tick n) s))"
      using Cons.prems by (simp_all add: on_world_def up_tick)
    from Cons.IH [OF this(2) Cons.prems(2) this(1,3,4)] Cons.prems(4) Count show ?thesis
      by (simp add: on_world_def)
  next
    case Sample
    obtain c h1 where smp: "sample (world s) = (c, h1)" by fastforce
    let ?r = "r\<lparr>hr_queued := Some (hrtimer_duration box)\<rparr>"
    let ?s = "s\<lparr>world := h1, delays := (emulate_nvm_cpu s, c * read_latency_delta_ns s div 1000) # delays s,
        proc_counts := c, hrtimer_jiffies := hrtimer_jiffies s + 1,
        box_heap := (box_heap s)(a := Some (box\<lparr>hrtimer := ?r\<rparr>))\<rparr>"
    have h: "snd (emulate_nvm_hrtimer (hswep_ops P) P a s) = ?s"
      using handler_run [OF Cons.prems(3,1,2)] up_status [OF up_methods(1) [OF Cons.prems(5)]] Cons.prems(4)
      by (simp add: smp)
    obtain cs h2 where b: "box_run xs h1 = (cs, h2)" by fastforce
    have "types ?s (box_type box) = ty" "box_heap ?s a = Some (box\<lparr>hrtimer := ?r\<rparr>)"
      "emulate_nvm_cpu ?s = target" "up (world ?s)"
      using Cons.prems up_sample [of "world s"] smp by simp_all
    from Cons.IH [OF this(1) Cons.prems(2) this(2-4)] show ?thesis
      by (simp add: Sample h smp b add.assoc del: fun_upd_apply)
  qed
qed

end


context emulation
begin

lemma length_periods: "length (periods xs a) = samples xs"
  by (induction xs a rule: periods.induct) simp_all

text \<open>The delays of a session, whatever the counter does: each is what its period counted, modulo the
  width of the counter.\<close>

lemma delays_wrap:
  assumes "this_cpu P = cpu" "box_heap s a = Some box" "types s (box_type box) = ty"
    and "\<not> frozen_pci (world s)"
    and "emulate_nvm_cpu s = target" "up (world s)"
    and "unat (read_latency_delta_ns s) < 2 ^ 16"
    and "unat (uncore_read_counter (hswep_ops P) cpu ty box (world s) 0) = n"
  shows "let s' = emu_run (hswep_ops P) P tick a xs s in
    delays s' = map (\<lambda>c. (emulate_nvm_cpu s, of_nat (c mod 2 ^ 48 * unat (read_latency_delta_ns s) div 1000)))
      (rev (periods xs n)) @ delays s \<and>
    unat (uncore_read_counter (hswep_ops P) cpu ty box (world s') 0) = unsampled xs n mod 2 ^ 48"
proof -
  let ?d = "read_latency_delta_ns s" and ?w = "fst (box_run xs (world s))"
  have "box_heap s a = Some (box\<lparr>hrtimer := hrtimer box\<rparr>)" using assms(2) by simp
  from emu_run_sim [OF assms(3,1) this assms(5,6)] obtain r pc where e:
    "emu_run (hswep_ops P) P tick a xs s = s\<lparr>world := snd (box_run xs (world s)),
      delays := rev (map (\<lambda>c. (emulate_nvm_cpu s, c * ?d div 1000)) ?w) @ delays s,
      proc_counts := pc, hrtimer_jiffies := hrtimer_jiffies s + of_nat (samples xs),
      box_heap := (box_heap s)(a := Some (box\<lparr>hrtimer := r\<rparr>))\<rparr>" by blast
  have "unat (uncore_read_counter (hswep_ops P) cpu ty box (world s) 0) = n mod 2 ^ 48"
    using read_less [of "world s"] assms(8) by simp
  note run = run_wraps [OF assms(4) this, of xs]
  have "unat c < 2 ^ 48" if "c \<in> set ?w" for c
  proof -
    have "unat c \<in> set (map unat ?w)" using that by simp
    then show ?thesis by (subst (asm) conjunct1 [OF run]) auto
  qed
  then have "map (\<lambda>c. (emulate_nvm_cpu s, c * ?d div 1000)) ?w =
      map (\<lambda>c. (emulate_nvm_cpu s, of_nat (c * unat ?d div 1000))) (map unat ?w)"
    using assms(7) by (simp add: delay_exact)
  with run show ?thesis by (simp add: e Let_def rev_map comp_def)
qed

lemma delays_account:
  assumes "this_cpu P = cpu" "box_heap s a = Some box" "types s (box_type box) = ty"
    and "\<not> frozen_pci (world s)"
    and "emulate_nvm_cpu s = target" "up (world s)"
    and "unat (read_latency_delta_ns s) < 2 ^ 16"
    and "no_overflow xs (unat (uncore_read_counter (hswep_ops P) cpu ty box (world s) 0))"
  shows "\<exists>cs. let s' = emu_run (hswep_ops P) P tick a xs s in
    length cs = samples xs \<and>
    delays s' = map (\<lambda>c. (emulate_nvm_cpu s, of_nat (c * unat (read_latency_delta_ns s) div 1000)))
      (rev cs) @ delays s \<and>
    sum_list cs + unat (uncore_read_counter (hswep_ops P) cpu ty box (world s') 0) =
      unat (uncore_read_counter (hswep_ops P) cpu ty box (world s) 0) + counted xs \<and>
    (\<forall>c \<in> set cs. c < 2 ^ 48)"
  using delays_wrap [OF assms(1-7) refl, of xs] no_overflow_periods [OF assms(8)]
    periods_account [of xs "unat (uncore_read_counter (hswep_ops P) cpu ty box (world s) 0)"]
  by (intro exI [of _ "periods xs (unat (uncore_read_counter (hswep_ops P) cpu ty box (world s) 0))"])
    (simp add: Let_def length_periods cong: map_cong)

end

lemma pci_counting_frozen:
  assumes "emulation P d ty cpu box tick target up"
  shows "hswep_pci_box.frozen_pci P d ty h = bit (pci_val P h d (box_ctl ty)) 8"
proof -
  have "hswep_pci_box P d ty box" using assms by (simp add: emulation_def hswep_pci_counting_def)
  from hswep_pci_box.frozen_pci_def [OF this] show ?thesis by simp
qed

text \<open>The truncation to microseconds, over a list of counts.\<close>

lemma truncation_bound:
  "1000 * sum_list (map (\<lambda>c. c * d div 1000) cs) \<le> d * sum_list cs \<and>
   d * sum_list cs \<le> 1000 * sum_list (map (\<lambda>c. c * d div 1000) cs) + 999 * length cs" for d :: nat
proof (induction cs)
  case (Cons c cs)
  define q r S M where "q = c * d div 1000" "r = c * d mod 1000" "S = d * sum_list cs"
    "M = sum_list (map (\<lambda>c. c * d div 1000) cs)"
  have "d * c = 1000 * q + r" "r < 1000" by (simp_all add: q_r_S_M_def mult.commute)
  moreover have "1000 * M \<le> S" "S \<le> 1000 * M + 999 * length cs"
    using Cons by (simp_all add: q_r_S_M_def)
  ultimately have "1000 * (q + M) \<le> d * c + S \<and> d * c + S \<le> 1000 * (q + M) + 999 * Suc (length cs)"
    by simp
  then show ?case by (simp add: q_r_S_M_def distrib_left)
qed simp

section \<open>Properties of a session\<close>

text \<open>The reference machine with one home agent box, 200 ns per remote read.\<close>

abbreviation ref_emu_box :: uncore_box where
  "ref_emu_box \<equiv> (blank_box 0)\<lparr>nodeid := 1, box_type := Pci_type 0, pdev := Some 5\<rparr>"

definition ref_emu :: "ref_hw emu_st" where
  "ref_emu = (emu_loaded ref_hw0 ())\<lparr>box_heap := [7 \<mapsto> ref_emu_box], read_latency_delta_ns := 200\<rparr>"

lemma ref_pci_online: "online (ref_pci_write d r v h) = online h" "online (ref_tick d n h) = online h"
  by (simp_all add: ref_pci_write_def ref_tick_def Let_def)

interpretation ref_emulation: emulation ref_platform d HSWEP_UNCORE_HA cpu "box\<lparr>pdev := Some d\<rparr>"
    "ref_tick d" target "\<lambda>h. target < 12 \<and> online h target"
  for d cpu box target
  by unfold_locales (simp_all add: ref_pci_online)

lemma ref_emu_facts:
  "emulation ref_platform 5 HSWEP_UNCORE_HA cpu ref_emu_box (ref_tick 5) target
     (\<lambda>h. target < 12 \<and> online h target)"
  "box_heap ref_emu 7 = Some ref_emu_box" "types ref_emu (box_type ref_emu_box) = HSWEP_UNCORE_HA"
  "\<not> bit (pci_val ref_platform (world ref_emu) 5 (box_ctl HSWEP_UNCORE_HA)) 8"
  "read_latency_delta_ns ref_emu = 200" "emulate_nvm_cpu ref_emu = 0" "delays ref_emu = []" "online (world ref_emu) 0"
  "uncore_read_counter (hswep_ops ref_platform) cpu HSWEP_UNCORE_HA ref_emu_box (world ref_emu) 0 = 0"
proof -
  have w: "world ref_emu = ref_hw0"
    and "types ref_emu = hswep_types" by (simp_all add: ref_emu_def emu_loaded_def uncore_loaded_def)
  then show "types ref_emu (box_type ref_emu_box) = HSWEP_UNCORE_HA"
    by (simp add: hswep_types_def HSWEP_UNCORE_PCI_BOXES_def)
  show c: "emulation ref_platform 5 HSWEP_UNCORE_HA cpu ref_emu_box (ref_tick 5) target
      (\<lambda>h. target < 12 \<and> online h target)" for cpu target
    using ref_emulation.emulation_axioms [of 5 cpu "(blank_box 0)\<lparr>nodeid := 1, box_type := Pci_type 0\<rparr>" target]
    by simp
  have ha: "box_ctl HSWEP_UNCORE_HA = 0xF4" "perf_ctr HSWEP_UNCORE_HA = 0xA0"
    using monitored_types(1) by (simp_all add: monitored_def)
  show "\<not> bit (pci_val ref_platform (world ref_emu) 5 (box_ctl HSWEP_UNCORE_HA)) 8"
    by (simp add: w ha ref_pci_defs ref_hw0_def)
  have "hswep_pci_box ref_platform 5 HSWEP_UNCORE_HA ref_emu_box"
    using c [of cpu 0] by (simp add: emulation_def hswep_pci_counting_def)
  note b = hswep_pci_box.api_simps(7) [OF this] hswep_pci_box.read_eq [OF this]
  show "uncore_read_counter (hswep_ops ref_platform) cpu HSWEP_UNCORE_HA ref_emu_box (world ref_emu) 0 = 0"
    by (simp add: b ha w ref_pci_defs ref_hw0_def)
qed (simp_all add: ref_emu_def emu_loaded_def uncore_loaded_def ref_hw0_def)

text \<open>C10: the total delay is the latency difference times the number of sampled reads, short by
  less than one microsecond for each run of the handler (the truncation of the division).\<close>

theorem emulated_delay_total:
  assumes "emulation P d ty (this_cpu P) box tick (emulate_nvm_cpu s) up"
    and "box_heap s a = Some box" "types s (box_type box) = ty"
    and "\<not> bit (pci_val P (world s) d (box_ctl ty)) 8"
    and "up (world s)" "unat (read_latency_delta_ns s) < 2 ^ 16"
    and "no_overflow xs (unat (uncore_read_counter (hswep_ops P) (this_cpu P) ty box (world s) 0))"
  shows "\<exists>ds. let s' = emu_run (hswep_ops P) P tick a xs s;
      left = unat (uncore_read_counter (hswep_ops P) (this_cpu P) ty box (world s') 0);
      reads = unat (uncore_read_counter (hswep_ops P) (this_cpu P) ty box (world s) 0) + counted xs - left;
      total = sum_list (map (unat \<circ> snd) ds)
    in delays s' = ds @ delays s \<and> length ds = samples xs \<and> (\<forall>x \<in> set ds. fst x = emulate_nvm_cpu s) \<and>
       1000 * total \<le> unat (read_latency_delta_ns s) * reads \<and>
       unat (read_latency_delta_ns s) * reads \<le> 1000 * total + 999 * samples xs"
proof -
  let ?d = "unat (read_latency_delta_ns s)"
  let ?s = "emu_run (hswep_ops P) P tick a xs s"
  let ?rd = "\<lambda>h. unat (uncore_read_counter (hswep_ops P) (this_cpu P) ty box h 0)"
  have "\<not> hswep_pci_box.frozen_pci P d ty (world s)"
    using assms(4) by (simp add: pci_counting_frozen [OF assms(1)])
  from emulation.delays_account [OF assms(1) refl assms(2,3) this refl assms(5-7)]
  obtain cs where cs: "length cs = samples xs" "\<forall>c \<in> set cs. c < 2 ^ 48"
    "delays ?s = map (\<lambda>c. (emulate_nvm_cpu s, of_nat (c * ?d div 1000))) (rev cs) @ delays s"
    "sum_list cs + ?rd (world ?s) = ?rd (world s) + counted xs"
    by (auto simp: Let_def)
  let ?ds = "map (\<lambda>c. (emulate_nvm_cpu s, of_nat (c * ?d div 1000) :: u64)) (rev cs)"
  have "unat (of_nat (c * ?d div 1000) :: u64) = c * ?d div 1000" if "c \<in> set cs" for c
  proof -
    have "c * ?d < 2 ^ 48 * 2 ^ 16"
      using cs(2) that assms(6) by (intro mult_strict_mono) auto
    then have "c * ?d div 1000 < 2 ^ 64" by simp
    then show ?thesis by (simp add: unat_of_nat take_bit_nat_eq_self)
  qed
  then have "sum_list (map (unat \<circ> snd) ?ds) = sum_list (map (\<lambda>c. c * ?d div 1000) cs)"
    by (auto simp: comp_def rev_map [symmetric] intro!: arg_cong [of _ _ sum_list])
  moreover have "?rd (world s) + counted xs - ?rd (world ?s) = sum_list cs"
    using cs(4) by simp
  ultimately show ?thesis
    using cs(1,3) truncation_bound [of ?d cs] by (intro exI [of _ ?ds]) (auto simp: Let_def)
qed

lemma emulated_delay_total_witness:
  "\<exists>ds. let s' = emu_run (hswep_ops ref_platform) ref_platform (ref_tick 5) 7 [Count 5, Sample, Count 7, Sample] ref_emu;
      left = unat (uncore_read_counter (hswep_ops ref_platform) 6 HSWEP_UNCORE_HA ref_emu_box (world s') 0);
      total = sum_list (map (unat \<circ> snd) ds)
    in delays s' = ds \<and> length ds = samples [Count 5, Sample, Count 7, Sample] \<and> 1000 * total \<le> 200 * (12 - left) \<and>
      200 * (12 - left) \<le> 1000 * total + 1998"
  using emulated_delay_total [OF ref_emu_facts(1-4), of "[Count 5, Sample, Count 7, Sample]"]
  by (auto simp: ref_emu_facts(5-9) Let_def)

text \<open>C9: without any bound on the reads. A run of the handler charges the number of reads since the run
  before it modulo \<open>2 ^ 48\<close>, the width of the counter: a longer period loses multiples of it, and the
  delays are right again from the next run on.\<close>

theorem emulated_delays_wrap:
  assumes "emulation P d ty (this_cpu P) box tick (emulate_nvm_cpu s) up"
    and "box_heap s a = Some box" "types s (box_type box) = ty"
    and "\<not> bit (pci_val P (world s) d (box_ctl ty)) 8"
    and "up (world s)" "unat (read_latency_delta_ns s) < 2 ^ 16"
    and "unat (uncore_read_counter (hswep_ops P) (this_cpu P) ty box (world s) 0) = n"
  shows "let s' = emu_run (hswep_ops P) P tick a xs s in
    delays s' = map (\<lambda>c. (emulate_nvm_cpu s, of_nat (c mod 2 ^ 48 * unat (read_latency_delta_ns s) div 1000)))
      (rev (periods xs n)) @ delays s \<and>
    unat (uncore_read_counter (hswep_ops P) (this_cpu P) ty box (world s') 0) = unsampled xs n mod 2 ^ 48 \<and>
    sum_list (periods xs n) + unsampled xs n = n + counted xs"
proof -
  have "\<not> hswep_pci_box.frozen_pci P d ty (world s)"
    using assms(4) by (simp add: pci_counting_frozen [OF assms(1)])
  from emulation.delays_wrap [OF assms(1) refl assms(2,3) this refl assms(5-7), of xs] show ?thesis
    by (simp add: Let_def periods_account)
qed

lemma emulated_delays_wrap_witness:
  "delays (emu_run (hswep_ops ref_platform) ref_platform (ref_tick 5) 7 [Count (2 ^ 48 + 5), Sample, Count 10, Sample] ref_emu) =
     [(0, 2), (0, 1)]"
  using emulated_delays_wrap [OF ref_emu_facts(1-4) _ _ refl, of "[Count (2 ^ 48 + 5), Sample, Count 10, Sample]"]
  by (simp add: ref_emu_facts(5-9) Let_def)

section \<open>Starting the latency model\<close>

text \<open>The register writes on the home agent of node 1 are a session of the box contract; in it
  the event select register holds the event's enable value.\<close>

context hswep_pci_box
begin

lemma session_event:
  assumes "\<not> bit (ucast (ev_enable e) :: u32) 17"
  shows "pci_val P (session e h) d (perf_ctl ty) = ucast (ev_enable e)"
  using assms
  by (simp add: session_def api_simps enable_eq disable_eq hswep_uncore_pci_enable_event_def box_dev
      pci_addr_defs regs_apart ctl_sel sel_sel ctl_rst bits bit_simps)

lemma session_facts:
  "uncore_read_counter (hswep_ops P) cpu ty box (session e h) 0 = 0"
  "\<not> bit (pci_val P (session e h) d (box_ctl ty)) 8"
  using session_starts [of e h] by (simp_all add: frozen_pci_def)

lemmas session_eq = session_def

end

lemma event_rst: "\<not> bit (ucast (ev_enable ha_requests_remote_reads) :: u32) 17"
  by code_simp

lemma upd_box_live: "box_heap s a = Some b \<Longrightarrow>
    upd_box (Some a) f s = s\<lparr>box_heap := (box_heap s)(a := Some (f b))\<rparr>"
  by (simp add: upd_box_def)

lemma on_box_live: "box_heap s a = Some b \<Longrightarrow>
    on_box (Some a) f s = s\<lparr>world := f (types s (box_type b)) b (world s)\<rparr>"
  by (simp add: on_box_def on_world_def)

text \<open>The box after the start, and the whole effect when both home agents are there.\<close>

definition emulating :: "u64 \<Rightarrow> uncore_box \<Rightarrow> uncore_box" where
  "emulating ns box =
     box\<lparr>event := Some ha_requests_remote_reads, hrtimer_duration := ns,
         hrtimer := \<lparr>hr_function = Some Emulate_nvm_hrtimer, hr_queued = Some ns\<rparr>\<rparr>"

lemma hrtimer_eta: "r\<lparr>hr_function := f, hr_queued := q\<rparr> = \<lparr>hr_function = f, hr_queued = q\<rparr>" for r :: hrtimer
  by (cases r) simp

lemma start_latency_none:
  assumes "array_at (uncore_pci_type s) UNCORE_PCI_HA_ID = Some t"
    and "uncore_get_first_box (Some t) 0 s = (b0, s)"
    and "uncore_get_first_box (Some t) 1 (s\<lparr>HA_Box_0 := b0\<rparr>) = (b1, s\<lparr>HA_Box_0 := b0\<rparr>)"
    and "b0 = None \<or> b1 = None"
  shows "start_emulate_latency T P s = (- ENXIO, s\<lparr>HA_Box_0 := b0, HA_Box_1 := b1\<rparr>)"
  using assms by (auto simp: start_emulate_latency_def Let_def)

lemma start_latency_ok:
  assumes "array_at (uncore_pci_type s) UNCORE_PCI_HA_ID = Some t"
    and "uncore_get_first_box (Some t) 0 s = (Some a0, s)"
    and "uncore_get_first_box (Some t) 1 (s\<lparr>HA_Box_0 := Some a0\<rparr>) = (Some a1, s\<lparr>HA_Box_0 := Some a0\<rparr>)"
    and "box_heap s a1 = Some box" "types s (box_type box) = ty" "this_cpu P = c"
    and "box\<lparr>event := Some ha_requests_remote_reads\<rparr> = box1"
  shows "start_emulate_latency T P s =
    (0, s\<lparr>HA_Box_0 := Some a0, HA_Box_1 := Some a1, emu_event := Some ha_requests_remote_reads,
       world := uncore_enable_box T c ty box1 (uncore_enable_event T c ty box1 ha_requests_remote_reads
         (uncore_disable_box T c ty box1 (uncore_init_box T c ty box1 (world s)))),
       box_heap := (box_heap s)(a1 := Some (emulating (emulate_nvm_hrtimer_duration_ns s) box)),
       latency_started := True\<rparr>)"
  using assms(1-6)
  by (simp add: start_emulate_latency_def Let_def upd_box_live on_box_live uncore_box_bind_event_def
      emulating_def box_timer_defs assms(7) [symmetric] hrtimer_eta)

text \<open>The two lookups.\<close>

lemma get_first_box_eq:
  assumes "wf_boxes p arr s" "t \<in> set arr" "node \<le> 8"
  shows "uncore_get_first_box (Some t) node s =
    (find (\<lambda>a. nodeid (the (box_heap s a)) = node) (linked s t), s)"
  using assms(3)
  by (simp add: uncore_get_first_box_def walk_boxes_find [OF assms(1,2)] UNCORE_MAX_SOCKET_def
      linorder_not_less [symmetric])

abbreviation HA_type :: type_ref where
  "HA_type \<equiv> Pci_type UNCORE_PCI_HA_ID"

lemma ha_type: "HA_type \<in> set HSWEP_UNCORE_PCI_TYPE"
    "array_at HSWEP_UNCORE_PCI_TYPE UNCORE_PCI_HA_ID = Some HA_type"
  by (simp_all add: HSWEP_UNCORE_PCI_TYPE_def pci_id_defs array_at_def)

lemma ha_lookups:
  assumes "wf_boxes True HSWEP_UNCORE_PCI_TYPE s"
  defines "b n \<equiv> find (\<lambda>a. nodeid (the (box_heap s a)) = n) (linked s HA_type)"
  shows "uncore_get_first_box (Some HA_type) 0 s = (b 0, s)"
    "uncore_get_first_box (Some HA_type) 1 (s\<lparr>HA_Box_0 := b 0\<rparr>) = (b 1, s\<lparr>HA_Box_0 := b 0\<rparr>)"
proof -
  show "uncore_get_first_box (Some HA_type) 0 s = (b 0, s)"
    by (simp add: get_first_box_eq [OF assms(1) ha_type(1)] b_def)
  have "wf_boxes True HSWEP_UNCORE_PCI_TYPE (s\<lparr>HA_Box_0 := b 0\<rparr>)"
    by (rule wf_boxes_cong [OF _ _ _ assms(1)]) simp_all
  from get_first_box_eq [OF this ha_type(1), of 1]
  show "uncore_get_first_box (Some HA_type) 1 (s\<lparr>HA_Box_0 := b 0\<rparr>) = (b 1, s\<lparr>HA_Box_0 := b 0\<rparr>)"
    by (simp add: b_def linked_def)
qed

text \<open>The home agents of a state behave as the manual documents.\<close>

definition ha_boxes_work :: "'h platform \<Rightarrow> ('h, 'm) pmu_st_scheme \<Rightarrow> bool" where
  "ha_boxes_work P s \<longleftrightarrow>
     (\<forall>b \<in> set (view s HA_type). \<exists>d. hswep_pci_box P d (types s HA_type) b)"

lemma start_latency_facts:
  assumes "wf_boxes True HSWEP_UNCORE_PCI_TYPE s" "uncore_pci_type s = HSWEP_UNCORE_PCI_TYPE"
    and "ha_boxes_work P s"
  shows "case start_emulate_latency (hswep_ops P) P s of (r, s') \<Rightarrow> panicked s' = panicked s \<and>
    (if \<exists>n \<in> {0, 1}. \<forall>b \<in> set (view s HA_type). nodeid b \<noteq> n
     then r = - ENXIO \<and> s' = s\<lparr>HA_Box_0 := HA_Box_0 s', HA_Box_1 := HA_Box_1 s'\<rparr>
     else r = 0 \<and> latency_started s' \<and>
       (\<exists>a b d. HA_Box_1 s' = Some a \<and> box_heap s a = Some b \<and> nodeid b = 1 \<and> pdev b = Some d \<and>
          box_heap s' = (box_heap s)(a := Some (emulating (emulate_nvm_hrtimer_duration_ns s) b)) \<and>
          uncore_read_counter (hswep_ops P) (this_cpu P) (types s HA_type) b (world s') 0 = 0 \<and>
          \<not> bit (pci_val P (world s') d (box_ctl (types s HA_type))) 8 \<and>
          pci_val P (world s') d (perf_ctl (types s HA_type)) =
            ucast (ev_enable ha_requests_remote_reads)))"
proof -
  let ?b = "\<lambda>n. find (\<lambda>a. nodeid (the (box_heap s a)) = n) (linked s HA_type)"
  note arr = ha_type(2) [folded assms(2)]
  note look = ha_lookups [OF assms(1)]
  have none: "?b n = None \<longleftrightarrow> (\<forall>b \<in> set (view s HA_type). nodeid b \<noteq> n)" for n
    by (auto simp: find_None_iff view_def)
  show ?thesis
  proof (cases "?b 0 = None \<or> ?b 1 = None")
    case True
    then show ?thesis
      using start_latency_none [OF arr look True] none by auto
  next
    case False
    then obtain a0 a1 where a: "?b 0 = Some a0" "?b 1 = Some a1" by auto
    then have a1: "a1 \<in> set (linked s HA_type)" "nodeid (the (box_heap s a1)) = 1"
      by (auto simp: find_Some_iff)
    obtain b where b: "box_heap s a1 = Some b" "box_type b = HA_type"
      using wf_boxesD(5) [OF assms(1) ha_type(1) a1(1)] by (auto simp: box_ok_def)
    then have "b \<in> set (view s HA_type)" using a1(1) by (force simp: view_def)
    then obtain d where d: "hswep_pci_box P d (types s HA_type) b"
      using assms(3) by (auto simp: ha_boxes_work_def)
    have ty: "types s (box_type b) = types s HA_type" using b(2) by simp
    let ?b1 = "b\<lparr>event := Some ha_requests_remote_reads\<rparr>"
    have d1: "hswep_pci_box P d (types s HA_type) ?b1" "pdev b = Some d"
      using d by (simp_all add: hswep_pci_box_def hswep_pci_box_axioms_def)
    note start = start_latency_ok [OF arr look [unfolded a] b(1) ty refl refl,
        of "hswep_ops P" P]
    note reads = method_box(6) [of b ?b1, simplified]
    show ?thesis
      using none [of 0] none [of 1] a a1(2) b(1) d1(2)
        hswep_pci_box.session_facts [OF d1(1), unfolded hswep_pci_box.session_eq [OF d1(1)], of "this_cpu P"]
        hswep_pci_box.session_event [OF d1(1) event_rst, unfolded hswep_pci_box.session_eq [OF d1(1)], of "this_cpu P"]
      by (auto simp: start reads)
  qed
qed

text \<open>The initialisation keeps the registers and methods of the types, so on the reference
  machine the home agents work.\<close>

lemma pci_init_layout:
  assumes "x86_model P = 63" "enumerates P devs" "uncore_pci_init P junk s = Some (0, s')"
  shows "layout (types s' t) = layout (types s t)" "pmu_st.more s' = pmu_st.more s"
    "uncore_pci_type s' = HSWEP_UNCORE_PCI_TYPE"
proof -
  have "\<exists>m. pmu_frame (pci_prepared m s) s'"
  proof (rule pci_init_cases [OF assms(1,2), of junk s])
    fix m s'' assume "uncore_pci_init P junk s = Some (0, s'')"
      "pci_added P (type_devices devs HSWEP_UNCORE_PCI_TYPE (butlast HSWEP_UNCORE_PCI_IDS)) 0 (pci_prepared m s) s''"
    then show ?thesis using assms(3) by (auto simp: pci_added_def)
  qed (use assms(3) in simp_all)
  then obtain m where m: "pmu_frame (pci_prepared m s) s'" by blast
  show "layout (types s' t) = layout (types s t)" "pmu_st.more s' = pmu_st.more s"
    "uncore_pci_type s' = HSWEP_UNCORE_PCI_TYPE"
    by (simp_all add: pmu_frame_sel [OF m]) (simp_all add: pci_prepared_def types_init_eq)
qed

lemma layout_pci_box:
  assumes "layout ty = layout ty'" "hswep_pci_box P d ty' box"
  shows "hswep_pci_box P d ty box"
  using assms(2) by (simp add: hswep_pci_box_def hswep_pci_box_axioms_def layout_sel [OF assms(1)])

lemma loaded_ha_type: "types (uncore_loaded h m) HA_type = HSWEP_UNCORE_HA"
  by (simp add: uncore_loaded_def hswep_types_def pci_id_defs HSWEP_UNCORE_PCI_BOXES_def)

lemma ref_emu_boxes:
  obtains s' :: "ref_hw emu_st" where "wf_boxes True HSWEP_UNCORE_PCI_TYPE s'"
    "uncore_pci_type s' = HSWEP_UNCORE_PCI_TYPE" "ha_boxes_work ref_platform s'"
    "map nodeid (view s' HA_type) = [0, 1]"
proof -
  obtain s' :: "ref_hw emu_st" where i: "uncore_pci_init ref_platform 0 (emu_loaded ref_hw0 ()) = Some (0, s')"
    and w: "wf_boxes True HSWEP_UNCORE_PCI_TYPE s'" and v: "map nodeid (view s' HA_type) = [0, 1]"
    unfolding emu_loaded_def UNCORE_PCI_HA_ID_def by (rule ref_ha_boxes)
  note lay = pci_init_layout [OF _ ref_enumerates i]
  have "layout (types s' HA_type) = layout HSWEP_UNCORE_HA"
    using lay(1) [of HA_type] by (simp add: emu_loaded_def loaded_ha_type)
  then have "\<exists>d. hswep_pci_box ref_platform d (types s' HA_type) b" if b: "b \<in> set (view s' HA_type)" for b
  proof -
    obtain a where "a \<in> set (linked s' HA_type)" "b = the (box_heap s' a)" using b by (auto simp: view_def)
    moreover from this(1) have "box_ok True s' HA_type a" by (rule wf_boxesD(5) [OF w ha_type(1)])
    ultimately obtain d where "pdev b = Some d" by (auto simp: box_ok_def)
    then have "b\<lparr>pdev := Some d\<rparr> = b" by (cases b) simp
    with ref_hswep_pci_box [OF monitored_types(1), of d b] layout_pci_box [OF \<open>layout _ = _\<close>]
    show ?thesis by metis
  qed
  then have "ha_boxes_work ref_platform s'" by (simp add: ha_boxes_work_def)
  with that w v lay(3) show thesis by simp
qed

text \<open>C11: starting the latency model fails with \<open>-ENXIO\<close>, changing nothing but the two
  pointers, if and only if node 0 or node 1 has no home agent. Otherwise the home agent of
  node 1 counts remote reads from zero (its event select holds the event, its counter is
  cleared and running), its timer is queued with the emulation's handler and period, and no
  other box is touched.\<close>

theorem start_latency_outcome:
  assumes "wf_boxes True HSWEP_UNCORE_PCI_TYPE s" "uncore_pci_type s = HSWEP_UNCORE_PCI_TYPE"
    and "ha_boxes_work P s"
  shows "case start_emulate_latency (hswep_ops P) P s of (r, s') \<Rightarrow> panicked s' = panicked s \<and>
    (if \<exists>n \<in> {0, 1}. \<forall>b \<in> set (view s HA_type). nodeid b \<noteq> n
     then r = - ENXIO \<and> s' = s\<lparr>HA_Box_0 := HA_Box_0 s', HA_Box_1 := HA_Box_1 s'\<rparr>
     else r = 0 \<and> latency_started s' \<and>
       (\<exists>a b d. HA_Box_1 s' = Some a \<and> box_heap s a = Some b \<and> nodeid b = 1 \<and> pdev b = Some d \<and>
          box_heap s' = (box_heap s)(a := Some (emulating (emulate_nvm_hrtimer_duration_ns s) b)) \<and>
          uncore_read_counter (hswep_ops P) (this_cpu P) (types s HA_type) b (world s') 0 = 0 \<and>
          \<not> bit (pci_val P (world s') d (box_ctl (types s HA_type))) 8 \<and>
          pci_val P (world s') d (perf_ctl (types s HA_type)) =
            ucast (ev_enable ha_requests_remote_reads)))"
  using assms by (rule start_latency_facts)

lemma start_latency_outcome_witness:
  "\<exists>s. fst (start_emulate_latency (hswep_ops ref_platform) ref_platform (s :: ref_hw emu_st)) = 0 \<and>
     latency_started (snd (start_emulate_latency (hswep_ops ref_platform) ref_platform s))"
proof -
  obtain s' :: "ref_hw emu_st" where s': "wf_boxes True HSWEP_UNCORE_PCI_TYPE s'"
    "uncore_pci_type s' = HSWEP_UNCORE_PCI_TYPE" "ha_boxes_work ref_platform s'"
    and v: "map nodeid (view s' HA_type) = [0, 1]" by (rule ref_emu_boxes)
  from v have "nodeid ` set (view s' HA_type) = {0, 1}"
    by (metis list.set_map list.simps(15) list.set(1))
  then have "\<forall>n \<in> {0, 1}. \<exists>b \<in> set (view s' HA_type). nodeid b = n" by (metis imageE)
  with start_latency_outcome [OF s'] show ?thesis
    by (intro exI [of _ s']) (auto split: prod.splits)
qed

section \<open>Finishing the latency model\<close>

text \<open>Clearing a box deselects its event.\<close>

context hswep_pci_box
begin

lemma clear_sel: "pci_val P (uncore_clear_box (hswep_ops P) cpu ty box h) d (perf_ctl ty) = 0"
  by (simp add: regs_apart api_simps hswep_uncore_pci_init_box_def box_dev pci_addr_defs frame ctl_sel bits)

lemma clear_read: "uncore_read_counter (hswep_ops P) cpu ty box (uncore_clear_box (hswep_ops P) cpu ty box h) 0 = 0"
  using read_init by (simp add: api_simps)

end

lemma clear_is_init: "uncore_clear_box (hswep_ops P) = uncore_init_box (hswep_ops P)"
  by (simp add: fun_eq_iff box_api_defs hswep_ops_eq HSWEP_UNCORE_MSR_BOX_OPS_def HSWEP_UNCORE_PCI_BOX_OPS_def)

lemma cancel_twice: "uncore_box_cancel_hrtimer (uncore_box_cancel_hrtimer b) = uncore_box_cancel_hrtimer b"
  by (simp add: uncore_box_cancel_hrtimer_def)

lemma finish_latency_eq:
  fixes s :: "('h, 'm) emu_st_scheme"
  assumes "latency_started s" "HA_Box_0 s = Some a0" "HA_Box_1 s = Some a1"
    and "box_heap s a0 = Some b0" "box_heap s a1 = Some b1"
    and "uncore_box_cancel_hrtimer b0 = c0" "uncore_box_cancel_hrtimer b1 = c1"
    and "types s (box_type b0) = ty0" "types s (box_type b1) = ty1"
  shows "finish_emulate_latency T P s =
    s\<lparr>box_heap := (box_heap s)(a0 := Some c0, a1 := Some c1),
      world := uncore_clear_box T (this_cpu P) ty1 c1 (uncore_clear_box T (this_cpu P) ty0 c0
        (uncore_disable_box T (this_cpu P) ty1 c1 (uncore_disable_box T (this_cpu P) ty0 c0 (world s)))),
      latency_started := False\<rparr>"
proof -
  have t: "box_type c0 = box_type b0" "box_type c1 = box_type b1"
    using assms(6,7) by (auto simp: uncore_box_cancel_hrtimer_def)
  obtain H where H: "H = (box_heap s)(a0 := Some c0, a1 := Some c1)" by blast
  have b: "b0 = b1" "c0 = c1" if "a0 = a1" using that assms(4-7) by simp_all
  have h: "H a0 = Some c0" "H a1 = Some c1" using b by (auto simp: H)
  have u: "upd_box (Some a0) uncore_box_cancel_hrtimer s = s\<lparr>box_heap := (box_heap s)(a0 := Some c0)\<rparr>"
    "upd_box (Some a1) uncore_box_cancel_hrtimer (s\<lparr>box_heap := (box_heap s)(a0 := Some c0)\<rparr>) = s\<lparr>box_heap := H\<rparr>"
    using assms(4-7) b cancel_twice [of b1] by (auto simp: upd_box_def H)
  show ?thesis
    using assms(1-3,8,9) h t by (simp add: finish_emulate_latency_def Let_def u on_box_live H [symmetric])
qed

lemma finish_latency_idle: "\<not> latency_started s \<Longrightarrow> finish_emulate_latency T P s = s"
  by (simp add: finish_emulate_latency_def)

text \<open>C12: finishing the latency model. Both timers are cancelled and no other part of the module's state changes but
  the flag; the home agent of node 1 is left with a cleared counter and no event selected, so it counts nothing
  from then on; finishing once more does nothing.\<close>

theorem finish_latency_outcome:
  fixes s :: "('h, 'm) emu_st_scheme"
  assumes "latency_started s" "HA_Box_0 s = Some a0" "HA_Box_1 s = Some a1"
    and "box_heap s a0 = Some b0" "box_heap s a1 = Some b1"
    and "hswep_pci_box P d (types s (box_type b1)) b1"
  shows "let s' = finish_emulate_latency (hswep_ops P) P s in
    s' = s\<lparr>box_heap := (box_heap s)(a0 := Some (uncore_box_cancel_hrtimer b0), a1 := Some (uncore_box_cancel_hrtimer b1)),
           world := world s', latency_started := False\<rparr> \<and>
    uncore_read_counter (hswep_ops P) (this_cpu P) (types s (box_type b1)) b1 (world s') 0 = 0 \<and>
    pci_val P (world s') d (perf_ctl (types s (box_type b1))) = 0 \<and>
    finish_emulate_latency (hswep_ops P) P s' = s'"
proof -
  have c: "uncore_clear_box (hswep_ops P) k ty (uncore_box_cancel_hrtimer b1) = uncore_clear_box (hswep_ops P) k ty b1" for k ty
    by (simp add: clear_is_init uncore_box_cancel_hrtimer_def)
  note eq = finish_latency_eq [OF assms(1-5) refl refl refl refl, of "hswep_ops P" P, unfolded c]
  show ?thesis
    by (simp add: Let_def eq hswep_pci_box.clear_sel [OF assms(6)] hswep_pci_box.clear_read [OF assms(6)]
        finish_latency_idle)
qed

lemma finish_latency_outcome_witness:
  "let s' = finish_emulate_latency (hswep_ops ref_platform) ref_platform
      (ref_emu\<lparr>HA_Box_0 := Some 7, HA_Box_1 := Some 7, latency_started := True\<rparr>)
   in pci_val ref_platform (world s') 5 (perf_ctl HSWEP_UNCORE_HA) = 0 \<and> \<not> latency_started s'"
proof -
  let ?s = "ref_emu\<lparr>HA_Box_0 := Some 7, HA_Box_1 := Some 7, latency_started := True\<rparr>"
  have "hswep_pci_box ref_platform 5 HSWEP_UNCORE_HA ref_emu_box"
    using ref_emu_facts(1) [of 6 0] by (simp add: emulation_def hswep_pci_counting_def)
  moreover obtain s' where s': "finish_emulate_latency (hswep_ops ref_platform) ref_platform ?s = s'" by blast
  ultimately have e: "s' = ?s\<lparr>box_heap := (box_heap ?s)(7 := Some (uncore_box_cancel_hrtimer ref_emu_box),
        7 := Some (uncore_box_cancel_hrtimer ref_emu_box)), world := world s', latency_started := False\<rparr>"
    and p: "pci_val ref_platform (world s') 5 (perf_ctl HSWEP_UNCORE_HA) = 0"
    using finish_latency_outcome [of ?s 7 7 ref_emu_box ref_emu_box ref_platform 5] ref_emu_facts(2,3)
    unfolding Let_def s' by simp_all
  from arg_cong [OF e, of latency_started] have "\<not> latency_started s'" by simp
  with p show ?thesis by (simp add: s')
qed

end
