(* ===== verification/Emulate_Control.thy ===== *)
theory Emulate_Control
  imports Emulate_Latency
begin

text \<open>
  The control side of the emulation: which CPUs \<open>prepare_platform_configuration\<close> and
  \<open>restore_platform_configuration\<close> leave online, under the contract \<open>cpu_hotplug\<close> of the
  kernel's hotplug calls, and what a write to /proc/uncore_pmu does to the memory
  controllers.
\<close>

section \<open>The contract of CPU hotplug\<close>

text \<open>\<open>on h c\<close>: CPU \<open>c\<close> is online. The mask of a node holds its CPUs that are online; a CPU can
  be taken down while another one stays up, and brought up at any time; neither call
  changes another CPU.\<close>

locale cpu_hotplug =
  fixes P :: "'h platform" and on :: "'h \<Rightarrow> u32 \<Rightarrow> bool"
  assumes node_mask: "c < nr_cpu_ids P \<Longrightarrow> cpumask_of_node P h n c \<longleftrightarrow> on h c \<and> cpu_to_node P c = n"
    and down: "on h c \<Longrightarrow> on h k \<Longrightarrow> k \<noteq> c \<Longrightarrow> on (snd (cpu_down P c h)) x \<longleftrightarrow> on h x \<and> x \<noteq> c"
    and up: "c < nr_cpu_ids P \<Longrightarrow> on (snd (cpu_up P c h)) x \<longleftrightarrow> on h x \<or> x = c"
begin

lemmas possible = set_possible_cpus [of _ P]

text \<open>The three loops, over any list of CPUs.\<close>

lemma offline_fold:
  "on h keep \<Longrightarrow> set cs \<subseteq> set (possible_cpus P) \<Longrightarrow>
   on (fold (\<lambda>cpu h. if cpumask_of_node P h node cpu \<and> cpu \<noteq> keep then snd (cpu_down P cpu h) else h) cs h) x \<longleftrightarrow>
     on h x \<and> \<not> (x \<in> set cs \<and> cpu_to_node P x = node \<and> x \<noteq> keep)"
proof (induction cs arbitrary: h)
  case (Cons c cs)
  have c: "c < nr_cpu_ids P" using Cons.prems(2) possible by auto
  show ?case
  proof (cases "on h c \<and> cpu_to_node P c = node \<and> c \<noteq> keep")
    case True
    then have d: "on (snd (cpu_down P c h)) y \<longleftrightarrow> on h y \<and> y \<noteq> c" for y
      using down [OF _ Cons.prems(1)] by blast
    from True Cons.IH [of "snd (cpu_down P c h)"] Cons.prems show ?thesis
      by (auto simp: node_mask [OF c] d)
  next
    case False
    with Cons.IH [of h] Cons.prems show ?thesis by (auto simp: node_mask [OF c])
  qed
qed simp

abbreviation online_loop :: "('h \<Rightarrow> u32 \<Rightarrow> bool) \<Rightarrow> u32 list \<Rightarrow> 'h \<Rightarrow> 'h" where
  "online_loop Q cs h \<equiv> fold (\<lambda>c h. if Q h c then snd (cpu_up P c h) else h) cs h"

lemma online_grows: "set cs \<subseteq> set (possible_cpus P) \<Longrightarrow> on h x \<Longrightarrow> on (online_loop Q cs h) x"
proof (induction cs arbitrary: h)
  case (Cons c cs)
  then have "on (if Q h c then snd (cpu_up P c h) else h) x"
    using up [of c h x] possible by auto
  from Cons.IH [OF _ this] Cons.prems show ?case by simp
qed simp

lemma online_covers:
  "set cs \<subseteq> set (possible_cpus P) \<Longrightarrow> c \<in> set cs \<Longrightarrow> (\<And>h. Q h c \<or> on h c) \<Longrightarrow> on (online_loop Q cs h) c"
proof (induction cs arbitrary: h)
  case (Cons x cs)
  show ?case
  proof (cases "c = x")
    case True
    then have "on (if Q h x then snd (cpu_up P x h) else h) c"
      using up [of x h c] Cons.prems(1) Cons.prems(3) [of h] possible by auto
    from online_grows [OF _ this] Cons.prems(1) show ?thesis by simp
  next
    case False
    with Cons.IH Cons.prems show ?thesis by simp
  qed
qed simp

lemma offline_node_on:
  "on h keep \<Longrightarrow> x < nr_cpu_ids P \<Longrightarrow>
     on (offline_node P node keep h) x \<longleftrightarrow> on h x \<and> (cpu_to_node P x = node \<longrightarrow> x = keep)"
  unfolding offline_node_def by (subst offline_fold) (auto simp: possible)

lemma online_others_on:
  assumes "on h keep" "x < nr_cpu_ids P"
  shows "on (online_others P node keep h) x"
proof (cases "x = keep")
  case True
  with assms(1) show ?thesis unfolding online_others_def by (simp add: online_grows)
next
  case False
  then have "(\<not> cpumask_of_node P h node x \<and> x \<noteq> keep) \<or> on h x" for h
    using node_mask [OF assms(2)] by blast
  with assms(2) show ?thesis unfolding online_others_def by (intro online_covers) (simp_all add: possible)
qed

lemma online_node_grows: "on h x \<Longrightarrow> on (online_node P node keep h) x"
  unfolding online_node_def by (simp add: online_grows)

end

interpretation ref_hotplug: cpu_hotplug ref_platform online
  by unfold_locales auto

section \<open>Properties of the platform configuration\<close>

text \<open>C23: the preparation is refused, with the CPUs as they were, unless the module is loaded on
  the polling CPU. Otherwise of the two nodes only the emulated and the polling CPU stay
  online, and every CPU of another node stays as it was. The restoration brings every
  possible CPU online, those that were offline before the emulation started included.\<close>

theorem platform_configuration:
  assumes "cpu_hotplug P on" "on (world s) (emulate_nvm_cpu s)" "on (world s) (polling_cpu s)"
    and "cpu_to_node P (emulate_nvm_cpu s) = emulate_nvm_node s" "emulate_nvm_cpu s < nr_cpu_ids P"
    and "cpu_to_node P (polling_cpu s) = polling_node s" "polling_cpu s < nr_cpu_ids P"
    and "emulate_nvm_node s \<noteq> polling_node s"
  shows "(case prepare_platform_configuration P s of (r, s') \<Rightarrow>
      s' = s\<lparr>world := world s'\<rparr> \<and>
      (if this_cpu P \<noteq> polling_cpu s then r = - 1 \<and> s' = s
       else r = 0 \<and> (\<forall>c < nr_cpu_ids P. on (world s') c \<longleftrightarrow> on (world s) c \<and>
         (cpu_to_node P c \<in> {emulate_nvm_node s, polling_node s} \<longrightarrow>
            c \<in> {emulate_nvm_cpu s, polling_cpu s})))) \<and>
    (\<exists>h. restore_platform_configuration P s = s\<lparr>world := h\<rparr> \<and> (\<forall>c < nr_cpu_ids P. on h c))"
proof -
  let ?h = "offline_node P (emulate_nvm_node s) (emulate_nvm_cpu s) (world s)"
  note off = cpu_hotplug.offline_node_on [OF assms(1)]
  have "on ?h (polling_cpu s)"
    using off [OF assms(2,7)] assms(3,6,8) by auto
  note off2 = off [OF this]
  have "\<exists>h. restore_platform_configuration P s = s\<lparr>world := h\<rparr> \<and> (\<forall>c < nr_cpu_ids P. on h c)"
    using cpu_hotplug.online_node_grows [OF assms(1)] cpu_hotplug.online_others_on [OF assms(1,2)]
    by (auto simp: restore_platform_configuration_def Let_def on_world_def)
  then show ?thesis
    using off [OF assms(2)] off2 assms(4,6,8)
    by (auto simp: prepare_platform_configuration_def Let_def on_world_def)
qed

lemma platform_configuration_witness:
  "case prepare_platform_configuration ref_platform
       ((emu_loaded ref_hw0 ())\<lparr>polling_cpu := 6, polling_node := 1\<rparr> :: ref_hw emu_st) of (r, s') \<Rightarrow>
     r = 0 \<and> online (world s') 0 \<and> online (world s') 6 \<and> \<not> online (world s') 3 \<and> \<not> online (world s') 11"
proof -
  let ?s = "(emu_loaded ref_hw0 ())\<lparr>polling_cpu := 6, polling_node := 1\<rparr> :: ref_hw emu_st"
  have "(3 :: u32) div 6 = 0" "(11 :: u32) div 6 = 1" "(6 :: u32) div 6 = 1" by code_simp+
  with platform_configuration [OF ref_hotplug.cpu_hotplug_axioms, of ?s] show ?thesis
    by (auto simp: ref_hw0_def split: prod.splits)
qed

section \<open>/proc/uncore_pmu\<close>

text \<open>The threshold a command stands for.\<close>

definition bw_command :: "char \<Rightarrow> u32 option" where
  "bw_command c =
     (if c = CHR ''0'' then Some 1 else if c = CHR ''2'' then Some 2
      else if c = CHR ''4'' then Some 4 else None)"

lemma set_bw_facts:
  assumes "imc_regs P"
  shows "\<exists>h. set_bw (hswep_imc_ops P) k th s = s\<lparr>bw_ratio := k, world := h\<rparr> \<and>
    (\<forall>d. \<forall>i<3. imc_enabled P h d i = imc_enabled P (world s) d i \<and>
       imc_limit P h d i = (if d \<in> on_nodes {0, 1} (uncore_imc_devices s) then thrt_pwr th
                            else imc_limit P (world s) d i))"
proof -
  let ?s0 = "s\<lparr>bw_ratio := k\<rparr>"
  obtain r1 s1 where u1: "uncore_imc_set_threshold (hswep_imc_ops P) 0 th ?s0 = (r1, s1)" by fastforce
  obtain r2 s2 where u2: "uncore_imc_set_threshold (hswep_imc_ops P) 1 th s1 = (r2, s2)" by fastforce
  note f1 = set_threshold_facts [OF assms, where node = 0 and threshold = th and s = ?s0, unfolded u1, simplified]
  note f2 = set_threshold_facts [OF assms, where node = 1 and threshold = th and s = s1, unfolded u2, simplified]
  have "s1 = ?s0\<lparr>world := world s1\<rparr>" using f1 by blast
  then obtain h1 where s1: "s1 = ?s0\<lparr>world := h1\<rparr>" by blast
  have "s2 = s1\<lparr>world := world s2\<rparr>" using f2 by blast
  then obtain h2 where s2: "s2 = s1\<lparr>world := h2\<rparr>" by blast
  have n: "on_nodes {0, 1} l = on_nodes {0} l \<union> on_nodes {1} l" for l
    using on_nodes_Un [of "{0}" "{1}" l] by (simp add: insert_commute)
  have "set_bw (hswep_imc_ops P) k th s = s2" by (simp add: set_bw_def u1 u2)
  then show ?thesis
    using f1 f2 by (intro exI [of _ h2]) (auto simp: s1 s2 n)
qed

text \<open>C22: a write of two bytes at offset 0 that starts with 0, 2 or 4 is accepted: the file then
  shows the ratio 1, 2 or 4, and every DIMM of nodes 0 and 1 has the limit of that ratio; no
  enable bit and no other node is touched. Every other write fails and changes nothing.\<close>

theorem bandwidth_command:
  assumes "imc_regs P" "\<And>ctl. buf = Some ctl \<Longrightarrow> length ctl = cnt"
  shows "case uncore_proc_write (hswep_imc_ops P) cnt offs buf s of (r, s') \<Rightarrow>
    (case (if cnt = 2 \<and> offs = 0 then Option.bind buf (\<lambda>ctl. bw_command (hd ctl)) else None) of
       None \<Rightarrow> r \<in> {- EINVAL, - EFAULT} \<and> s' = s
     | Some k \<Rightarrow> r = 2 \<and> pmu_proc_show s' = uint k \<and>
         s' = s\<lparr>bw_ratio := uint k, world := world s'\<rparr> \<and>
         (\<forall>d. \<forall>i<3. imc_enabled P (world s') d i = imc_enabled P (world s) d i \<and>
            imc_limit P (world s') d i =
              (if d \<in> on_nodes {0, 1} (uncore_imc_devices s) then thrt_pwr k
               else imc_limit P (world s) d i)))"
proof (cases buf)
  case None
  then show ?thesis by (simp add: uncore_proc_write_def)
next
  case (Some ctl)
  show ?thesis
  proof (cases "cnt = 2 \<and> offs = 0")
    case True
    then have h: "ctl ! 0 = hd ctl" using assms(2) [OF Some] by (cases ctl) auto
    show ?thesis
    proof (cases "bw_command (hd ctl)")
      case None
      with True Some h show ?thesis by (simp add: uncore_proc_write_def bw_command_def split: if_splits)
    next
      case k: (Some k)
      then have w: "uncore_proc_write (hswep_imc_ops P) cnt offs buf s = (2, set_bw (hswep_imc_ops P) (uint k) k s)"
        using True Some h by (auto simp: uncore_proc_write_def bw_command_def split: if_splits)
      obtain x where x: "set_bw (hswep_imc_ops P) (uint k) k s = s\<lparr>bw_ratio := uint k, world := x\<rparr>"
        "\<forall>d. \<forall>i<3. imc_enabled P x d i = imc_enabled P (world s) d i \<and>
           imc_limit P x d i = (if d \<in> on_nodes {0, 1} (uncore_imc_devices s) then thrt_pwr k
                                else imc_limit P (world s) d i)"
        using set_bw_facts [OF assms(1)] by blast
      then show ?thesis unfolding w using True Some k by (simp add: pmu_proc_show_def)
    qed
  next
    case False
    with Some show ?thesis by (auto simp: uncore_proc_write_def)
  qed
qed

lemma bandwidth_command_witness:
  "\<exists>s'. uncore_proc_write (hswep_imc_ops ref_platform) 2 0 (Some ''4x'')
       ((emu_loaded ref_hw0 ())\<lparr>uncore_imc_devices := uncore_imc_devices ref_imc_st\<rparr>) = (2, s') \<and>
     pmu_proc_show s' = 4 \<and> imc_limit ref_platform (world s') 6 1 = 0x7f"
  using bandwidth_command [OF ref_imc_regs, where buf = "Some ''4x''" and cnt = 2 and offs = 0 and
      s = "(emu_loaded ref_hw0 ())\<lparr>uncore_imc_devices := uncore_imc_devices ref_imc_st\<rparr>"]
  by (auto simp: bw_command_def thrt_pwr_def split: prod.splits)

end
