(* ===== verification/Emulation_Commands.thy ===== *)
theory Emulation_Commands
  imports Emulate_Control
begin

text \<open>
  The latency model and the bandwidth model run at the same time: the timer of the home agent fires while
  commands are written to /proc/uncore_pmu. Both access the configuration space of PCI devices; as
  long as the hardware keeps the registers of a home agent and those of the DIMMs apart, neither
  disturbs the other, in any interleaving.
\<close>

section \<open>What a threshold writes\<close>

text \<open>Setting a threshold writes words of the controllers on the list and nothing else.\<close>

lemma dimms_keep:
  assumes "\<And>r v h. Q h \<Longrightarrow> Q (pci_write_config_word P x r v h)" "Q h"
  shows "Q (hswep_dimms P f x h)"
  using assms by (simp add: hswep_dimms_def Let_def)

lemma set_table: "set_threshold (hswep_imc_ops P r) = Some (hswep_imc_set_threshold P)"
  by (cases r) (simp add: hswep_imc_ops_def)

lemma walk_keep:
  assumes "\<And>x r v h. x \<in> imc_pdev ` set l \<Longrightarrow> Q h \<Longrightarrow> Q (pci_write_config_word P x r v h)" "Q (world s)"
  shows "Q (world (snd (set_threshold_walk (hswep_imc_ops P) node th l r s)))"
  using assms
proof (induction l arbitrary: r s)
  case (Cons imc l)
  note IH = Cons.IH [OF Cons.prems(1)]
  have "Q (hswep_dimms P f (imc_pdev imc) (world s))" for f
    using Cons.prems by (intro dimms_keep [where Q = Q]) auto
  with IH Cons.prems(2) show ?case
    by (simp add: set_table hswep_imc_set_threshold_def)
qed simp

lemma command_keeps:
  assumes "\<And>x r v h. x \<in> on_nodes UNIV (uncore_imc_devices s) \<Longrightarrow> Q h \<Longrightarrow> Q (pci_write_config_word P x r v h)"
    and "Q (world s)" "imc_regs P"
  shows "Q (world (snd (uncore_proc_write (hswep_imc_ops P) cnt offs buf s)))"
proof -
  have th: "Q (world (snd (uncore_imc_set_threshold (hswep_imc_ops P) node th t)))"
    if "Q (world t)" "uncore_imc_devices t = uncore_imc_devices s" for node th and t :: "('a, 'b) emu_st_scheme"
    using that assms(1) walk_keep [of "uncore_imc_devices s" Q P t]
    by (auto simp: uncore_imc_set_threshold_def on_nodes_def)
  have dev: "uncore_imc_devices (snd (uncore_imc_set_threshold (hswep_imc_ops P) node th t)) = uncore_imc_devices t"
    for node th and t :: "('a, 'b) emu_st_scheme"
  proof -
    obtain r t' where u: "uncore_imc_set_threshold (hswep_imc_ops P) node th t = (r, t')" by fastforce
    then have "t' = t\<lparr>world := world t'\<rparr>"
      using set_threshold_facts [OF assms(3), where node = node and threshold = th and s = t] by simp
    from arg_cong [OF this, of uncore_imc_devices] show ?thesis by (simp add: u)
  qed
  have "Q (world (set_bw (hswep_imc_ops P) k th s))" for k th
    unfolding set_bw_def Let_def by (intro th) (simp_all add: dev assms(2))
  then show ?thesis using assms(2) by (auto simp: uncore_proc_write_def split: option.splits)
qed

text \<open>A command changes the ratio and the limits, and what it writes to a DIMM depends on that DIMM only.\<close>

definition command :: "nat \<Rightarrow> nat \<Rightarrow> string option \<Rightarrow> u32 option" where
  "command cnt offs buf = (if cnt = 2 \<and> offs = 0 then Option.bind buf (\<lambda>ctl. bw_command (ctl ! 0)) else None)"

lemma command_eq:
  "snd (uncore_proc_write T cnt offs buf s) =
     (case command cnt offs buf of None \<Rightarrow> s | Some k \<Rightarrow> set_bw T (uint k) k s)"
  by (cases buf) (auto simp: uncore_proc_write_def command_def bw_command_def)

definition dimms :: "'h platform \<Rightarrow> 'h \<Rightarrow> pdev \<Rightarrow> nat \<Rightarrow> u16 \<times> bool" where
  "dimms P h d i = (imc_limit P h d i, imc_enabled P h d i)"

lemma command_spec:
  assumes "imc_regs P"
  obtains h where "snd (uncore_proc_write (hswep_imc_ops P) cnt offs buf s) =
      s\<lparr>bw_ratio := (case command cnt offs buf of None \<Rightarrow> bw_ratio s | Some k \<Rightarrow> uint k), world := h\<rparr>"
    "\<And>d i. i < 3 \<Longrightarrow> dimms P h d i =
      (case command cnt offs buf of
         Some k \<Rightarrow> if d \<in> on_nodes {0, 1} (uncore_imc_devices s) then (thrt_pwr k, snd (dimms P (world s) d i))
                   else dimms P (world s) d i
       | None \<Rightarrow> dimms P (world s) d i)"
proof (cases "command cnt offs buf")
  case None
  then show thesis by (intro that [of "world s"]) (simp_all add: command_eq)
next
  case (Some k)
  obtain h where "set_bw (hswep_imc_ops P) (uint k) k s = s\<lparr>bw_ratio := uint k, world := h\<rparr>"
    "\<forall>d. \<forall>i<3. imc_enabled P h d i = imc_enabled P (world s) d i \<and>
       imc_limit P h d i = (if d \<in> on_nodes {0, 1} (uncore_imc_devices s) then thrt_pwr k
                            else imc_limit P (world s) d i)"
    using set_bw_facts [OF assms] by blast
  with Some show thesis by (intro that [of h]) (simp_all add: command_eq dimms_def)
qed

lemma bw_command_result:
  assumes "imc_regs P"
  shows "uncore_imc_devices (snd (uncore_proc_write (hswep_imc_ops P) cnt offs buf s)) = uncore_imc_devices s"
    "bw_ratio (snd (uncore_proc_write (hswep_imc_ops P) cnt offs buf s)) =
      (case command cnt offs buf of None \<Rightarrow> bw_ratio s | Some k \<Rightarrow> uint k)"
    "i < 3 \<Longrightarrow> dimms P (world (snd (uncore_proc_write (hswep_imc_ops P) cnt offs buf s))) x i =
      (case command cnt offs buf of
         Some k \<Rightarrow> if x \<in> on_nodes {0, 1} (uncore_imc_devices s) then (thrt_pwr k, snd (dimms P (world s) x i))
                   else dimms P (world s) x i
       | None \<Rightarrow> dimms P (world s) x i)"
  by (rule command_spec [OF assms, where cnt = cnt and offs = offs and buf = buf and s = s]; simp)+

section \<open>Registers that are kept apart\<close>

text \<open>The contract of the hardware: a word written to a controller of \<open>D\<close> does not reach the registers of
  the home agent, and neither a dword written to the home agent nor its counting reaches a DIMM.\<close>

locale emulation_apart = emulation +
  fixes D :: "pdev set"
  assumes word_box: "x \<in> D \<Longrightarrow> q \<in> {box_ctl ty, perf_ctr ty, perf_ctr ty + 4} \<Longrightarrow>
      pci_val P (pci_write_config_word P x r v h) d q = pci_val P h d q"
    and word_up: "x \<in> D \<Longrightarrow> up h \<Longrightarrow> up (pci_write_config_word P x r v h)"
    and box_dimm: "x \<in> D \<Longrightarrow> i < 3 \<Longrightarrow> dimm P (pci_write_config_dword P d r w h) x i = dimm P h x i"
    and tick_dimm: "x \<in> D \<Longrightarrow> i < 3 \<Longrightarrow> dimm P (tick n h) x i = dimm P h x i"
    and dimm_regs: "imc_regs P"

datatype emu_event = Home_agent box_step | Command nat nat "string option"

text \<open>A session with both: the home agent counts, its timer fires, and /proc/uncore_pmu is written.\<close>

fun emu_session :: "'h tables \<Rightarrow> 'h platform \<Rightarrow> (nat \<Rightarrow> 'h \<Rightarrow> 'h) \<Rightarrow> box_ptr \<Rightarrow> emu_event list \<Rightarrow>
    ('h, 'm) emu_st_scheme \<Rightarrow> ('h, 'm) emu_st_scheme" where
  "emu_session T P tick a [] s = s"
| "emu_session T P tick a (Home_agent x # xs) s = emu_session T P tick a xs (emu_run (fst T) P tick a [x] s)"
| "emu_session T P tick a (Command cnt offs buf # xs) s =
     emu_session T P tick a xs (snd (uncore_proc_write (snd T) cnt offs buf s))"

fun is_command :: "emu_event \<Rightarrow> bool" where
  "is_command (Home_agent x) = False"
| "is_command (Command cnt offs buf) = True"

context emulation_apart
begin

text \<open>What a session of the home agent depends on, and what a session of commands does.\<close>

definition same_latency :: "box_ptr \<Rightarrow> ('a, 'm) emu_st_scheme \<Rightarrow> ('a, 'm) emu_st_scheme \<Rightarrow> bool" where
  "same_latency a s t \<longleftrightarrow>
     (\<exists>r. box_heap s a = Some (box\<lparr>hrtimer := r\<rparr>) \<and> box_heap t a = Some (box\<lparr>hrtimer := r\<rparr>)) \<and>
     types s (box_type box) = ty \<and> types t (box_type box) = ty \<and>
     emulate_nvm_cpu s = target \<and> emulate_nvm_cpu t = target \<and>
     read_latency_delta_ns s = read_latency_delta_ns t \<and> delays s = delays t \<and> up (world s) \<and> up (world t) \<and>
     uncore_read_counter (hswep_ops P) cpu ty box (world s) 0 = uncore_read_counter (hswep_ops P) cpu ty box (world t) 0 \<and>
     frozen_pci (world s) = frozen_pci (world t)"

definition same_bandwidth :: "('a, 'm) emu_st_scheme \<Rightarrow> ('a, 'm) emu_st_scheme \<Rightarrow> bool" where
  "same_bandwidth s t \<longleftrightarrow>
     uncore_imc_devices s = uncore_imc_devices t \<and> bw_ratio s = bw_ratio t \<and>
     (\<forall>x \<in> D. \<forall>i<3. dimms P (world s) x i = dimms P (world t) x i)"

lemma handler_same:
  assumes "box_heap s a = Some (box\<lparr>hrtimer := r\<rparr>)" "types s (box_type box) = ty" "this_cpu P = cpu"
    and "emulate_nvm_cpu s = target" "up (world s)"
  shows "emu_run (hswep_ops P) P tick a [Sample] s =
    s\<lparr>world := snd (sample (world s)),
      delays := (target, fst (sample (world s)) * read_latency_delta_ns s div 1000) # delays s,
      proc_counts := fst (sample (world s)), hrtimer_jiffies := hrtimer_jiffies s + 1,
      box_heap := (box_heap s)(a := Some (box\<lparr>hrtimer := r\<lparr>hr_queued := Some (hrtimer_duration box)\<rparr>\<rparr>))\<rparr>"
  using handler_run [OF assms(1-3)] up_status [OF up_methods(1) [OF assms(5)]] assms(4) by simp

lemma step_latency:
  assumes "same_latency a s t" "this_cpu P = cpu"
  shows "same_latency a (emu_run (hswep_ops P) P tick a [x] s) (emu_run (hswep_ops P) P tick a [x] t)"
proof -
  obtain r where r: "box_heap s a = Some (box\<lparr>hrtimer := r\<rparr>)" "box_heap t a = Some (box\<lparr>hrtimer := r\<rparr>)"
    using assms(1) by (auto simp: same_latency_def)
  show ?thesis
  proof (cases x)
    case (Count n)
    with assms(1) show ?thesis by (auto simp: same_latency_def on_world_def tick_ctr frozen_tick up_tick)
  next
    case Sample
    note e = handler_same [OF r(1) _ assms(2)] handler_same [OF r(2) _ assms(2)]
    have "same_latency a (emu_run (hswep_ops P) P tick a [Sample] s) (emu_run (hswep_ops P) P tick a [Sample] t)"
      unfolding same_latency_def using assms(1) e
      by (intro conjI exI [of _ "r\<lparr>hr_queued := Some (hrtimer_duration box)\<rparr>"])
        (simp_all add: same_latency_def sample_reads sample_clears sample_runs up_sample del: emu_run.simps)
    with Sample show ?thesis by simp
  qed
qed

lemma command_latency:
  assumes "same_latency a s t" "on_nodes UNIV (uncore_imc_devices s) \<subseteq> D"
  shows "same_latency a (snd (uncore_proc_write (hswep_imc_ops P) cnt offs buf s)) t"
proof -
  let ?s = "snd (uncore_proc_write (hswep_imc_ops P) cnt offs buf s)"
  let ?Q = "\<lambda>h. up h \<and> (\<forall>q \<in> {box_ctl ty, perf_ctr ty, perf_ctr ty + 4}. pci_val P h d q = pci_val P (world s) d q)"
  have "?Q (world ?s)"
    using assms(1,2) by (intro command_keeps [where Q = ?Q] dimm_regs) (auto simp: word_box word_up same_latency_def)
  then have q: "up (world ?s)" "frozen_pci (world ?s) = frozen_pci (world s)"
    "uncore_read_counter (hswep_ops P) cpu ty box (world ?s) 0 = uncore_read_counter (hswep_ops P) cpu ty box (world s) 0"
    by (simp_all add: frozen_pci_def api_simps read_eq)
  obtain k h where "?s = s\<lparr>bw_ratio := k, world := h\<rparr>"
    by (rule command_spec [OF dimm_regs, where cnt = cnt and offs = offs and buf = buf and s = s])
  with q assms(1) show ?thesis by (simp add: same_latency_def)
qed

lemma sample_dimm: "x \<in> D \<Longrightarrow> i < 3 \<Longrightarrow> dimm P (snd (sample h)) x i = dimm P h x i"
  unfolding sample_def by (simp add: api_simps enable_eq write_eq disable_eq box_dimm)

lemma step_bandwidth:
  assumes "same_bandwidth s t" "this_cpu P = cpu" "same_latency a s s'"
  shows "same_bandwidth (emu_run (hswep_ops P) P tick a [x] s) t"
proof -
  obtain r where r: "box_heap s a = Some (box\<lparr>hrtimer := r\<rparr>)" using assms(3) by (auto simp: same_latency_def)
  show ?thesis
  proof (cases x)
    case (Count n)
    with assms(1) show ?thesis
      by (simp add: same_bandwidth_def on_world_def dimms_def imc_limit_def imc_enabled_def tick_dimm)
  next
    case Sample
    have "same_bandwidth (emu_run (hswep_ops P) P tick a [Sample] s) t"
      using assms handler_same [OF r _ assms(2)]
      by (simp add: same_bandwidth_def same_latency_def dimms_def imc_limit_def imc_enabled_def sample_dimm
          del: emu_run.simps)
    with Sample show ?thesis by simp
  qed
qed

lemma command_bandwidth:
  assumes "same_bandwidth s t"
  shows "same_bandwidth (snd (uncore_proc_write (hswep_imc_ops P) cnt offs buf s))
    (snd (uncore_proc_write (hswep_imc_ops P) cnt offs buf t))"
  using assms
  by (auto simp: same_bandwidth_def bw_command_result [OF dimm_regs] split: option.splits)

text \<open>A session against the session without its commands, and against its commands alone.\<close>

lemma session_latency:
  assumes "this_cpu P = cpu"
  shows "same_latency a s t \<Longrightarrow> on_nodes UNIV (uncore_imc_devices s) \<subseteq> D \<Longrightarrow>
    same_latency a (emu_session (hswep_ops P, hswep_imc_ops P) P tick a xs s)
      (emu_session (hswep_ops P, hswep_imc_ops P) P tick a (filter (Not \<circ> is_command) xs) t)"
proof (induction xs arbitrary: s t)
  case (Cons x xs)
  show ?case
  proof (cases x)
    case (Home_agent y)
    have "uncore_imc_devices (emu_run (hswep_ops P) P tick a [y] s) = uncore_imc_devices s"
      using step_bandwidth [of s s a t y] assms Cons.prems(1) by (auto simp: same_bandwidth_def)
    with Home_agent step_latency [OF Cons.prems(1) assms, of y] Cons.prems(2) Cons.IH show ?thesis by simp
  next
    case (Command cnt offs buf)
    have "uncore_imc_devices (snd (uncore_proc_write (hswep_imc_ops P) cnt offs buf s)) = uncore_imc_devices s"
      by (rule bw_command_result(1) [OF dimm_regs])
    with Command command_latency [OF Cons.prems] Cons.prems(2) Cons.IH show ?thesis by simp
  qed
qed simp

lemma session_bandwidth:
  assumes "this_cpu P = cpu"
  shows "same_bandwidth s t \<Longrightarrow> same_latency a s s' \<Longrightarrow> on_nodes UNIV (uncore_imc_devices s) \<subseteq> D \<Longrightarrow>
    same_bandwidth (emu_session (hswep_ops P, hswep_imc_ops P) P tick a xs s)
      (emu_session (hswep_ops P, hswep_imc_ops P) P tick a (filter is_command xs) t)"
proof (induction xs arbitrary: s t s')
  case (Cons x xs)
  show ?case
  proof (cases x)
    case (Home_agent y)
    have "uncore_imc_devices (emu_run (hswep_ops P) P tick a [y] s) = uncore_imc_devices s"
      using step_bandwidth [of s s a s' y] assms Cons.prems(2) by (auto simp: same_bandwidth_def)
    with Home_agent step_bandwidth [OF Cons.prems(1) assms Cons.prems(2), of y]
      step_latency [OF Cons.prems(2) assms, of y] Cons.prems(3) Cons.IH show ?thesis by simp
  next
    case (Command cnt offs buf)
    have "uncore_imc_devices (snd (uncore_proc_write (hswep_imc_ops P) cnt offs buf s)) = uncore_imc_devices s"
      by (rule bw_command_result(1) [OF dimm_regs])
    with Command command_bandwidth [OF Cons.prems(1), of cnt offs buf] command_latency [OF Cons.prems(2,3), of cnt offs buf]
      Cons.prems(3) Cons.IH show ?thesis by simp
  qed
qed simp

end

lemma ref_word_write:
  "pci_val ref_platform (pci_write_config_word ref_platform x r v h) = pci_val ref_platform h"
  "dimm ref_platform (pci_write_config_dword ref_platform d r w h) = dimm ref_platform h"
  "dimm ref_platform (ref_tick d n h) = dimm ref_platform h"
  by (simp_all add: fun_eq_iff ref_pci_defs dimm_def ref_tick_def Let_def)

interpretation ref_apart: emulation_apart ref_platform d HSWEP_UNCORE_HA cpu "box\<lparr>pdev := Some d\<rparr>"
    "ref_tick d" target "\<lambda>h. target < 12 \<and> online h target" D
  for d cpu box target D
  by unfold_locales (simp_all add: ref_imc.rd_ok ref_imc.wr ref_pci_online pci_val_def dimm_def ref_pci_defs ref_tick_def Let_def)

section \<open>Property\<close>

text \<open>C8: The latency and the bandwidth of the emulated memory are independent. In any interleaving of remote reads,
  timer runs and writes to /proc/uncore_pmu, the delays and the counter are those of the same session without
  the writes, and the ratio, the limits and the enable bits of the DIMMs are those of the writes alone.\<close>

theorem latency_bandwidth_independent:
  assumes "emulation_apart P d ty (this_cpu P) box tick (emulate_nvm_cpu s) up (on_nodes UNIV (uncore_imc_devices s))"
    and "box_heap s a = Some box" "types s (box_type box) = ty" "up (world s)"
  shows "let run = (\<lambda>xs. emu_session (hswep_ops P, hswep_imc_ops P) P tick a xs s);
      counter = (\<lambda>s. uncore_read_counter (hswep_ops P) (this_cpu P) ty box (world s) 0)
    in delays (run xs) = delays (run (filter (Not \<circ> is_command) xs)) \<and>
       counter (run xs) = counter (run (filter (Not \<circ> is_command) xs)) \<and>
       pmu_proc_show (run xs) = pmu_proc_show (run (filter is_command xs)) \<and>
       (\<forall>x \<in> on_nodes UNIV (uncore_imc_devices s). \<forall>i<3.
          imc_limit P (world (run xs)) x i = imc_limit P (world (run (filter is_command xs))) x i \<and>
          imc_enabled P (world (run xs)) x i = imc_enabled P (world (run (filter is_command xs))) x i)"
proof -
  have "box_heap s a = Some (box\<lparr>hrtimer := hrtimer box\<rparr>)" using assms(2) by simp
  then have l: "emulation_apart.same_latency P d ty (this_cpu P) box (emulate_nvm_cpu s) up a s s"
    using assms(3,4) unfolding emulation_apart.same_latency_def [OF assms(1)] by blast
  have b: "emulation_apart.same_bandwidth P (on_nodes UNIV (uncore_imc_devices s)) s s"
    by (simp add: emulation_apart.same_bandwidth_def [OF assms(1)])
  note l' = emulation_apart.session_latency [OF assms(1) refl l subset_refl, of xs]
    and b' = emulation_apart.session_bandwidth [OF assms(1) refl b l subset_refl, of xs]
  show ?thesis
    using l' b' unfolding emulation_apart.same_latency_def [OF assms(1)] emulation_apart.same_bandwidth_def [OF assms(1)]
    by (simp add: Let_def pmu_proc_show_def dimms_def)
qed

lemma latency_bandwidth_independent_witness:
  "let s = ref_emu\<lparr>uncore_imc_devices := uncore_imc_devices ref_imc_st\<rparr>;
      run = (\<lambda>xs. emu_session (hswep_ops ref_platform, hswep_imc_ops ref_platform) ref_platform (ref_tick 5) 7 xs s)
   in delays (run [Home_agent (Count 5), Command 2 0 (Some ''2x''), Home_agent Sample]) =
        delays (run [Home_agent (Count 5), Home_agent Sample]) \<and>
      pmu_proc_show (run [Home_agent (Count 5), Command 2 0 (Some ''2x''), Home_agent Sample]) = 2"
proof -
  let ?s = "ref_emu\<lparr>uncore_imc_devices := uncore_imc_devices ref_imc_st\<rparr>"
  have e: "emulation_apart ref_platform 5 HSWEP_UNCORE_HA cpu ref_emu_box (ref_tick 5) target
      (\<lambda>h. target < 12 \<and> online h target) D" for cpu target D
    using ref_apart.emulation_apart_axioms [of 5 cpu "(blank_box 0)\<lparr>nodeid := 1, box_type := Pci_type 0\<rparr>" target D] by simp
  have c: "command 2 0 (Some ''2x'') = Some 2" by (simp add: command_def bw_command_def)
  from latency_bandwidth_independent [OF e, of ?s 7 "[Home_agent (Count 5), Command 2 0 (Some ''2x''), Home_agent Sample]"]
  show ?thesis
    using ref_emu_facts
    by (simp add: Let_def pmu_proc_show_def bw_command_result [OF ref_imc_regs] c del: emu_run.simps)
qed

end
