(* ===== verification/Uncore_Module.thy ===== *)
theory Uncore_Module
  imports Emulate_Control
begin

text \<open>
  The module as a whole: \<open>uncore_init\<close> and \<open>uncore_exit\<close> of \<open>uncore_pmu.c\<close>, composed from the
  components as the code composes them, and the events that reach the module between the
  two.
\<close>

section \<open>Loading and unloading\<close>

text \<open>What \<open>uncore_init\<close> prints once every part is initialised; the walks over the
  lists of boxes would die on a damaged list.\<close>

definition uncore_report :: "'h platform \<Rightarrow> ('h, 'm) imc_st_scheme \<Rightarrow>
    ((string \<times> (u32 \<times> u32 list) list) option \<times> (u32 \<times> u32 list) list \<times>
     (string \<times> u32 \<times> (u32 \<times> u32) list) list \<times>
     (string \<times> u32 \<times> (u32 \<times> u32 \<times> pdev_info) list) list \<times>
     (u8 \<times> u32) list \<times> (u32 \<times> pdev_info) list) option" where
  "uncore_report P s =
     do {
       msr \<leftarrow> uncore_print_msr_boxes s;
       pci \<leftarrow> uncore_print_pci_boxes P s;
       Some (uncore_print_global_pmu P (Some (uncore_pmu_desc s)) s, uncore_print_node_info P s, msr, pci,
         uncore_print_pci_mapping s, uncore_print_imc_devices P s)
     }"

definition uncore_init :: "'h tables \<Rightarrow> 'h platform \<Rightarrow> int \<Rightarrow> ('h, 'm) emu_st_scheme \<Rightarrow>
    (int \<times> ('h, 'm) emu_st_scheme) option" where
  "uncore_init T P junk s =
     do {
       (ret, s) \<leftarrow> uncore_pci_init P junk s;
       if ret \<noteq> 0 then Some (ret, uncore_pci_exit s)
       else (case uncore_cpu_init P s of (ret, s) \<Rightarrow>
         if ret \<noteq> 0 then Some (ret, uncore_pci_exit (uncore_cpu_exit s))
         else do {
           (ret, s) \<leftarrow> uncore_imc_init (snd T) P s;
           if ret \<noteq> 0 then Some (ret, uncore_pci_exit (uncore_cpu_exit (uncore_imc_exit s)))
           else (case uncore_proc_create P s of (ret, s) \<Rightarrow>
             if ret \<noteq> 0 then Some (ret, uncore_pci_exit (uncore_cpu_exit (uncore_imc_exit s)))
             else (let s = uncore_clear_global_pmu P (Some (uncore_pmu_desc s)) s;
                       s = (if uncore_report P s = None then die s else s)
                   in Some (0, start_emulate_nvm T P s)))
         })
     }"

definition uncore_exit :: "'h tables \<Rightarrow> 'h platform \<Rightarrow> ('h, 'm) emu_st_scheme \<Rightarrow>
    ('h, 'm) emu_st_scheme" where
  "uncore_exit T P s =
     (let s = finish_emulate_nvm T P s;
          s = uncore_clear_global_pmu P (Some (uncore_pmu_desc s)) s;
          s = uncore_proc_remove s;
          s = uncore_imc_exit s;
          s = uncore_cpu_exit s
      in uncore_pci_exit s)"

section \<open>Events\<close>

text \<open>The kernel calls the function of a queued timer; a timer that does not ask to be restarted
  leaves the queue.\<close>

definition run_timer :: "'h ops_tables \<Rightarrow> 'h platform \<Rightarrow> box_ptr \<Rightarrow> ('h, 'm) emu_st_scheme \<Rightarrow>
    ('h, 'm) emu_st_scheme" where
  "run_timer T P a s =
     (case box_heap s a of
        None \<Rightarrow> die s
      | Some box \<Rightarrow>
          (case (case hr_function (hrtimer box) of
              None \<Rightarrow> (HRTIMER_NORESTART, die s)
            | Some Uncore_box_hrtimer_def \<Rightarrow>
                (case uncore_box_hrtimer_def box of (r, b) \<Rightarrow> (r, s\<lparr>box_heap := (box_heap s)(a := Some b)\<rparr>))
            | Some Emulate_nvm_hrtimer \<Rightarrow> emulate_nvm_hrtimer T P a s) of
             (HRTIMER_RESTART, s1) \<Rightarrow> s1
           | (HRTIMER_NORESTART, s1) \<Rightarrow> upd_box (Some a) uncore_box_cancel_hrtimer s1))"

text \<open>What can happen while the module is loaded: a timer fires, a user writes one of the two
  /proc files, the hardware or another part of the kernel moves on.\<close>

inductive module_step :: "'h tables \<Rightarrow> 'h platform \<Rightarrow> ('h, 'm) emu_st_scheme \<Rightarrow> ('h, 'm) emu_st_scheme \<Rightarrow> bool"
  for T :: "'h tables" and P :: "'h platform" where
  timer: "box_heap s a = Some box \<Longrightarrow> hr_queued (hrtimer box) \<noteq> None \<Longrightarrow>
    module_step T P s (run_timer (fst T) P a s)"
| bandwidth: "uncore_proc_write (snd T) cnt offs buf s = (r, s') \<Longrightarrow> module_step T P s s'"
| parameters: "emulate_nvm_proc_write cnt offs buf = r \<Longrightarrow> module_step T P s s"
| hardware: "module_step T P s (s\<lparr>world := h\<rparr>)"

inductive_cases module_stepE [consumes 1, case_names timer bandwidth parameters hardware]:
  "module_step T P s s'"

inductive module_run :: "'h tables \<Rightarrow> 'h platform \<Rightarrow> ('h, 'm) emu_st_scheme \<Rightarrow> ('h, 'm) emu_st_scheme \<Rightarrow> bool"
  for T :: "'h tables" and P :: "'h platform" where
  loaded: "module_run T P s s"
| event: "module_run T P s s1 \<Longrightarrow> module_step T P s1 s2 \<Longrightarrow> module_run T P s s2"

end
