(* ===== verification/Module_Parts.thy ===== *)
theory Module_Parts
  imports Uncore_Module
begin

text \<open>
  What each part of the module does to the state the whole module is judged by: the boxes
  of both families, their timers, the reference counts, the /proc entries. One lemma for
  each initialisation, for the start of the emulation, and for the changes that keep the
  boxes.
\<close>

section \<open>The life of the module\<close>

text \<open>\<open>quiet s s'\<close>: nothing visible outside the box and device tables has changed.\<close>

definition quiet :: "('h, 'm) emu_st_scheme \<Rightarrow> ('h, 'm) emu_st_scheme \<Rightarrow> bool" where
  "quiet s s' \<longleftrightarrow> world s' = world s \<and> procs s' = procs s \<and> proc_faults s' = proc_faults s \<and>
     delays s' = delays s \<and> panicked s' = panicked s \<and> imc_st.more s' = imc_st.more s"

abbreviation box_types :: "type_ref set" where
  "box_types \<equiv> set HSWEP_UNCORE_PCI_TYPE \<union> set HSWEP_UNCORE_MSR_TYPE"

text \<open>No box of a type outside the two arrays, and no timer is queued.\<close>

definition known_boxes :: "('h, 'm) pmu_st_scheme \<Rightarrow> bool" where
  "known_boxes s \<longleftrightarrow> no_leak s \<and> (\<forall>t. t \<notin> box_types \<longrightarrow> linked s t = [])"

definition idle :: "('h, 'm) pmu_st_scheme \<Rightarrow> bool" where
  "idle s \<longleftrightarrow> (\<forall>a b. box_heap s a = Some b \<longrightarrow> hr_queued (hrtimer b) = None)"

lemma known_empty: "known_boxes s \<Longrightarrow> (\<And>t. t \<in> box_types \<Longrightarrow> linked s t = []) \<Longrightarrow> box_heap s = Map.empty"
  by (rule no_leak_empty) (auto simp: known_boxes_def)

lemma idle_views:
  assumes "known_boxes s" "\<And>t b. t \<in> box_types \<Longrightarrow> b \<in> set (view s t) \<Longrightarrow> hr_queued (hrtimer b) = None"
  shows "idle s"
  unfolding idle_def
proof (intro allI impI)
  fix a b assume b: "box_heap s a = Some b"
  then have a: "a \<in> set (linked s (box_type b))" using assms(1) by (simp add: known_boxes_def no_leak_def)
  then have "box_type b \<in> box_types" using assms(1) by (auto simp: known_boxes_def)
  moreover have "b \<in> set (view s (box_type b))" using a b by (force simp: view_def)
  ultimately show "hr_queued (hrtimer b) = None" by (rule assms(2))
qed

lemma pci_boxes_idle: "b \<in> set (pci_boxes P m t i ds) \<Longrightarrow> hr_queued (hrtimer b) = None"
  by (induction ds arbitrary: i) (auto simp: pci_box_def)

lemma msr_box_idle: "hr_queued (hrtimer (msr_box t i)) = None"
  by (simp add: msr_box_def)

section \<open>Each initialisation, as the module uses it\<close>

lemma more_imc:
  assumes "pmu_st.more s' = pmu_st.more s"
  shows "imc_st.more s' = imc_st.more s" "uncore_imc_devices s' = uncore_imc_devices s"
  using assms by (cases s; cases s'; simp)+

lemma pmu_quiet:
  assumes "pmu_frame s s'"
  shows "quiet s s'" "uncore_imc_devices s' = uncore_imc_devices s"
  using pmu_frame_sel [OF assms] more_imc [OF pmu_frame_sel(11) [OF assms]] by (simp_all add: quiet_def)

lemma quiet_trans: "quiet s s' \<Longrightarrow> quiet s' s'' \<Longrightarrow> quiet s s''"
  by (simp add: quiet_def)

lemma released_linked: "linked (released p arr s) t = (if t \<in> set arr then [] else linked s t)"
  by (simp add: linked_def released_def Let_def)

lemma released_quiet:
  fixes s :: "('h, 'm) emu_st_scheme"
  shows "quiet s (released p arr s)" "uncore_imc_devices (released p arr s) = uncore_imc_devices s"
  using pmu_quiet [of s "released p arr s"] by simp_all

lemma pci_init_frame:
  fixes s :: "('h, 'm) emu_st_scheme"
  assumes "x86_model P = 63" "enumerates P devs" "\<And>t. linked s t = []" "uncore_pci_type s = []"
    and i: "uncore_pci_init P junk s = Some (ret, s')"
  shows "quiet s s' \<and> (\<forall>t. t \<notin> set HSWEP_UNCORE_PCI_TYPE \<longrightarrow> linked s' t = []) \<and>
    uncore_imc_devices s' = uncore_imc_devices s \<and> (ret \<noteq> 0 \<longrightarrow> uncore_pci_exit s' = s')"
proof -
  have prep: "quiet s (pci_prepared m s)" "uncore_imc_devices (pci_prepared m s) = uncore_imc_devices s"
      "linked (pci_prepared m s) t = []" for m t
    using assms(3) by (simp_all add: quiet_def pci_prepared_def types_init_eq linked_def)
  from assms(1,2) show ?thesis
  proof (cases rule: pci_init_cases [of P devs junk s])
    case (unmapped e m)
    with i assms(3,4) show ?thesis by (auto simp: quiet_def linked_def uncore_pci_exit_def)
  next
    case (ok m s2)
    with i have "ret = 0" "s2 = s'" by simp_all
    with ok(3) have a: "pmu_frame (pci_prepared m s) s'"
        "\<forall>t. t \<notin> set HSWEP_UNCORE_PCI_TYPE \<longrightarrow> types s' t = types (pci_prepared m s) t"
      by (simp_all add: pci_added_def)
    then show ?thesis
      using prep [of m] pmu_quiet [OF a(1)] \<open>ret = 0\<close> assms(3) by (auto simp: linked_def intro: quiet_trans)
  next
    case (failed e m s2 d)
    with i have s': "s' = released True HSWEP_UNCORE_PCI_TYPE s2" by simp
    from failed(5) have a: "pmu_frame (pci_prepared m s) s2"
        "\<forall>t. t \<notin> set HSWEP_UNCORE_PCI_TYPE \<longrightarrow> types s2 t = types (pci_prepared m s) t"
        "wf_boxes True HSWEP_UNCORE_PCI_TYPE s2"
      by (simp_all add: pci_added_def)
    have "uncore_pci_type s2 = HSWEP_UNCORE_PCI_TYPE" using pmu_frame_sel(6) [OF a(1)] by simp
    note e = pci_exit_facts(1,4) [OF this a(3)]
    have "linked s2 t = []" if "t \<notin> set HSWEP_UNCORE_PCI_TYPE" for t
      using that a(2) prep(3) [of m t] by (simp add: linked_def)
    then show ?thesis
      using prep [of m] pmu_quiet [OF a(1)] released_quiet [where s = s2] e
      by (auto simp: s' released_linked intro: quiet_trans)
  qed
qed

lemma pci_init_idle:
  assumes "x86_model P = 63" "enumerates P devs" "uncore_pci_init P junk s = Some (0, s')" "known_boxes s'"
    and "\<And>t. t \<notin> set HSWEP_UNCORE_PCI_TYPE \<Longrightarrow> linked s' t = []"
  shows "idle s'"
proof (rule idle_views [OF assms(4)])
  fix t b assume b: "b \<in> set (view s' t)"
  show "hr_queued (hrtimer b) = None"
  proof (cases "t \<in> set HSWEP_UNCORE_PCI_TYPE")
    case True
    from pci_init_view [OF assms(1-3) this] b show ?thesis using pci_boxes_idle by metis
  next
    case False
    with assms(5) b show ?thesis by (simp add: view_def)
  qed
qed

lemma pci_init_module:
  fixes s :: "('h, 'm) emu_st_scheme"
  assumes "x86_model P = 63" "enumerates P devs" "no_leak s" "\<And>t. linked s t = []" "uncore_pci_type s = []"
  shows "\<exists>ret s'. uncore_pci_init P junk s = Some (ret, s') \<and> quiet s s' \<and> known_boxes s' \<and>
    no_boxes HSWEP_UNCORE_MSR_TYPE s' \<and> uncore_imc_devices s' = uncore_imc_devices s \<and>
    (if ret = 0
     then uncore_pci_type s' = HSWEP_UNCORE_PCI_TYPE \<and> wf_boxes True HSWEP_UNCORE_PCI_TYPE s' \<and>
       krefs s' = (\<lambda>x. krefs s x + int (count (pci_held s') x)) \<and> idle s'
     else uncore_pci_exit s' = s' \<and> no_boxes HSWEP_UNCORE_PCI_TYPE s' \<and>
       (krefs s' = krefs s \<or> (\<exists>d. krefs s' = (krefs s)(d := krefs s d + 2))))"
proof -
  have "no_boxes HSWEP_UNCORE_PCI_TYPE s" using assms(4) by (simp add: no_boxes_def)
  from pci_init_balance [OF assms(1,2) this assms(3), of junk]
  obtain ret s' where i: "uncore_pci_init P junk s = Some (ret, s')" and bal: "no_leak s'"
    "if ret = 0 then krefs s' = (\<lambda>x. krefs s x + int (count (pci_held s') x))
     else no_boxes HSWEP_UNCORE_PCI_TYPE s' \<and>
       (krefs s' = krefs s \<or> (\<exists>d. krefs s' = (krefs s)(d := krefs s d + 2)))" by blast
  note f = pci_init_frame [OF assms(1,2,4,5) i]
  then have k: "known_boxes s'" using bal(1) by (auto simp: known_boxes_def)
  moreover have "no_boxes HSWEP_UNCORE_MSR_TYPE s'" using f pci_msr_apart by (auto simp: no_boxes_def)
  moreover have "idle s'" if "ret = 0"
    using pci_init_idle [OF assms(1,2) _ k] i that f by blast
  ultimately show ?thesis
    using i f bal(2) pci_init_wf [OF assms(1,2), of junk s s'] by (intro exI [of _ ret] exI [of _ s']) auto
qed

text \<open>The PCI boxes another initialisation leaves alone.\<close>

lemma same_pci_held:
  assumes "same_boxes HSWEP_UNCORE_PCI_TYPE s s'" "uncore_pci_type s = HSWEP_UNCORE_PCI_TYPE"
    and "uncore_pci_type s' = HSWEP_UNCORE_PCI_TYPE"
  shows "pci_held s' = pci_held s"
  using same_boxes_view [OF assms(1)] by (simp add: pci_held_def assms(2,3) cong: map_cong)

lemma cpu_init_frame:
  fixes s :: "('h, 'm) emu_st_scheme"
  assumes "x86_model P = 63" and i: "uncore_cpu_init P s = (ret, s')"
  shows "quiet s s' \<and> (\<forall>t. t \<notin> set HSWEP_UNCORE_MSR_TYPE \<longrightarrow> linked s' t = linked s t) \<and>
    uncore_imc_devices s' = uncore_imc_devices s \<and> uncore_pci_type s' = uncore_pci_type s \<and>
    uncore_msr_type s' = HSWEP_UNCORE_MSR_TYPE \<and> wf_boxes False HSWEP_UNCORE_MSR_TYPE s'"
proof -
  have prep: "quiet s (cpu_prepared P s)" "uncore_imc_devices (cpu_prepared P s) = uncore_imc_devices s"
    using more_imc [OF cpu_prepared_sel(13)] by (simp_all add: quiet_def)
  have prep_types: "box_list (types (cpu_prepared P s) t) = box_list (types s t)"
    if "t \<notin> set HSWEP_UNCORE_MSR_TYPE" for t
    using that by (simp add: cpu_prepared_def types_init_eq cpu_init_sel(14) [OF refl])
  from assms(1) show ?thesis
  proof (cases rule: cpu_init_cases [of P s])
    case (ok s2)
    with i have "s2 = s'" by simp
    with ok(2) have a: "pmu_frame (cpu_prepared P s) s'" "wf_boxes False HSWEP_UNCORE_MSR_TYPE s'"
        "\<forall>t. t \<notin> set HSWEP_UNCORE_MSR_TYPE \<longrightarrow> types s' t = types (cpu_prepared P s) t"
      by (simp_all add: msr_added_def)
    then show ?thesis
      using prep pmu_quiet [OF a(1)] pmu_frame_sel(6,7) [OF a(1)] prep_types
      by (auto simp: linked_def intro: quiet_trans)
  next
    case (failed e s2)
    with i have s': "s' = released False HSWEP_UNCORE_MSR_TYPE s2" by simp
    from failed(4) have a: "pmu_frame (cpu_prepared P s) s2" "wf_boxes False HSWEP_UNCORE_MSR_TYPE s2"
        "\<forall>t. t \<notin> set HSWEP_UNCORE_MSR_TYPE \<longrightarrow> types s2 t = types (cpu_prepared P s) t"
      by (simp_all add: msr_added_def)
    have f: "pmu_frame s2 s'" unfolding s' by simp
    have "linked s2 t = linked s t" if "t \<notin> set HSWEP_UNCORE_MSR_TYPE" for t
      using that a(3) prep_types [of t] by (simp add: linked_def)
    then show ?thesis
      using prep pmu_quiet [OF a(1)] released_quiet [where s = s2] pmu_frame_sel(6,7) [OF a(1)]
        pmu_frame_sel(6,7) [OF f] released_wf [OF a(2), of False]
      by (auto simp: s' released_linked intro: quiet_trans)
  qed
qed

text \<open>The MSR boxes that are made are idle, the PCI boxes stay as they are.\<close>

lemma cpu_init_idle:
  assumes "known_boxes s'" "same_boxes HSWEP_UNCORE_PCI_TYPE s s'" "wf_boxes True HSWEP_UNCORE_PCI_TYPE s" "idle s"
    and "\<And>t. t \<in> set HSWEP_UNCORE_MSR_TYPE \<Longrightarrow> \<exists>n. view s' t = map (msr_box t) [0..<n]"
  shows "idle s'"
proof (rule idle_views [OF assms(1)])
  fix t b assume t: "t \<in> box_types" and b: "b \<in> set (view s' t)"
  show "hr_queued (hrtimer b) = None"
  proof (cases "t \<in> set HSWEP_UNCORE_MSR_TYPE")
    case True
    with assms(5) b show ?thesis by (fastforce simp: msr_box_idle)
  next
    case False
    with t have t: "t \<in> set HSWEP_UNCORE_PCI_TYPE" by simp
    with b have "b \<in> set (view s t)" using same_boxes_view [OF assms(2)] by simp
    then obtain a where "a \<in> set (linked s t)" "b = the (box_heap s a)" by (auto simp: view_def)
    moreover from this(1) have "box_ok True s t a" by (rule wf_boxesD(5) [OF assms(3) t])
    ultimately show ?thesis using assms(4) by (auto simp: idle_def box_ok_def)
  qed
qed

lemma cpu_init_module:
  fixes s :: "('h, 'm) emu_st_scheme"
  assumes "x86_model P = 63" "known_boxes s" "no_boxes HSWEP_UNCORE_MSR_TYPE s" "idle s"
    and "wf_boxes True HSWEP_UNCORE_PCI_TYPE s" "uncore_pci_type s = HSWEP_UNCORE_PCI_TYPE"
  shows "\<exists>ret s'. uncore_cpu_init P s = (ret, s') \<and> quiet s s' \<and> known_boxes s' \<and>
    uncore_imc_devices s' = uncore_imc_devices s \<and> krefs s' = krefs s \<and> idle s' \<and>
    uncore_pci_type s' = HSWEP_UNCORE_PCI_TYPE \<and> wf_boxes True HSWEP_UNCORE_PCI_TYPE s' \<and>
    pci_held s' = pci_held s \<and> uncore_msr_type s' = HSWEP_UNCORE_MSR_TYPE \<and>
    wf_boxes False HSWEP_UNCORE_MSR_TYPE s' \<and> (ret \<noteq> 0 \<longrightarrow> no_boxes HSWEP_UNCORE_MSR_TYPE s')"
proof -
  obtain ret s' where i: "uncore_cpu_init P s = (ret, s')" by fastforce
  have nl: "no_leak s" using assms(2) by (simp add: known_boxes_def)
  note facts = cpu_init_facts [OF assms(1,3) nl, unfolded i, simplified]
  note f = cpu_init_frame [OF assms(1) i]
  have k: "known_boxes s'" using f facts assms(2) by (auto simp: known_boxes_def)
  have same: "same_boxes HSWEP_UNCORE_PCI_TYPE s s'" using facts assms(5) by blast
  have "\<exists>n. view s' t = map (msr_box t) [0..<n]" if "t \<in> set HSWEP_UNCORE_MSR_TYPE" for t
    using facts that by (cases "ret = 0") (auto simp: no_boxes_def view_def intro: exI [of _ 0])
  then have "idle s'" by (rule cpu_init_idle [OF k same assms(5,4)])
  with k f show ?thesis
    using i facts assms(6) same_boxes_wf [OF same assms(5)] same_pci_held [OF same assms(6)]
    by (intro exI [of _ ret] exI [of _ s']) auto
qed

lemma imc_init_module:
  fixes s :: "('h, 'm) emu_st_scheme"
  assumes "x86_model P = 63" "enumerates P devs" "uncore_imc_devices s = []"
  shows "\<exists>ret s'. uncore_imc_init (hswep_imc_ops P) P s = Some (ret, s') \<and> quiet s s' \<and>
    box_heap s' = box_heap s \<and> types s' = types s \<and> uncore_pci_type s' = uncore_pci_type s \<and>
    uncore_msr_type s' = uncore_msr_type s \<and> allocs s \<le> allocs s' \<and>
    (if ret = 0 then krefs s' = (\<lambda>x. krefs s x + int (count (imc_held s') x))
     else uncore_imc_devices s' = [] \<and> (\<exists>d. krefs s' = (krefs s)(d := krefs s d + 2)))"
  using assms
proof (cases rule: imc_init_cases [of P devs s])
  case (ok s')
  then obtain a k w es where "s' = (imc_prepared s)\<lparr>allocs := a, krefs := k, imc_warned := w,
      uncore_imc_devices := es\<rparr>" "allocs s \<le> a"
    unfolding imc_added_def by auto
  with ok(1,3) show ?thesis
    by (intro exI [of _ 0] exI [of _ s']) (simp add: quiet_def)
next
  case (failed e s' d)
  then obtain a k w es where "s' = (imc_prepared s)\<lparr>allocs := a, krefs := k, imc_warned := w,
      uncore_imc_devices := es\<rparr>" "allocs s \<le> a"
    unfolding imc_added_def by auto
  with failed(1,3,5) show ?thesis
    by (intro exI [of _ e] exI [of _ "uncore_imc_exit s'"]) (auto simp: quiet_def imc_exit_eq)
qed

section \<open>Changes that keep the boxes\<close>

text \<open>The members of a box that the lists and the reference counts depend on.\<close>

definition same_cores :: "('h, 'm) pmu_st_scheme \<Rightarrow> ('h, 'm) pmu_st_scheme \<Rightarrow> bool" where
  "same_cores s s' \<longleftrightarrow> types s' = types s \<and> allocs s \<le> allocs s' \<and>
     (\<forall>a. map_option (\<lambda>b. (idx b, box_type b, pdev b)) (box_heap s' a) =
        map_option (\<lambda>b. (idx b, box_type b, pdev b)) (box_heap s a))"

lemma same_cores_trans: "same_cores s s' \<Longrightarrow> same_cores s' s'' \<Longrightarrow> same_cores s s''"
  by (simp add: same_cores_def)

lemma same_cores_heap: "types s' = types s \<Longrightarrow> allocs s \<le> allocs s' \<Longrightarrow> box_heap s' = box_heap s \<Longrightarrow> same_cores s s'"
  by (simp add: same_cores_def)

lemma same_cores_box:
  "types s' = types s \<Longrightarrow> allocs s \<le> allocs s' \<Longrightarrow> box_heap s a = Some b \<Longrightarrow>
   box_heap s' = (box_heap s)(a := Some b') \<Longrightarrow> idx b' = idx b \<Longrightarrow> box_type b' = box_type b \<Longrightarrow> pdev b' = pdev b \<Longrightarrow>
   same_cores s s'"
  by (simp add: same_cores_def)

lemma cores_linked: "same_cores s s' \<Longrightarrow> linked s' t = linked s t"
  by (simp add: same_cores_def linked_def)

lemma cores_box:
  assumes "same_cores s s'"
  shows "box_heap s a = Some b \<Longrightarrow> \<exists>b'. box_heap s' a = Some b' \<and> idx b' = idx b \<and> box_type b' = box_type b \<and> pdev b' = pdev b"
    and "box_heap s' a = Some b' \<Longrightarrow> \<exists>b. box_heap s a = Some b \<and> idx b' = idx b \<and> box_type b' = box_type b \<and> pdev b' = pdev b"
    and "box_heap s' a = None \<longleftrightarrow> box_heap s a = None"
  using assms by (auto simp: same_cores_def map_option_case split: option.splits dest!: spec [of _ a])

lemma cores_the:
  assumes "same_cores s s'"
  shows "idx (the (box_heap s' a)) = idx (the (box_heap s a))" "pdev (the (box_heap s' a)) = pdev (the (box_heap s a))"
  using cores_box(1) [OF assms, of a] cores_box(3) [OF assms, of a] by (cases "box_heap s a"; fastforce)+

lemma cores_wf:
  assumes "same_cores s s'" "wf_boxes p arr s"
  shows "wf_boxes p arr s'"
proof -
  have l: "linked s' = linked s" using cores_linked [OF assms(1)] by (simp add: fun_eq_iff)
  have "map idx (view s' t) = map idx (view s t)" for t
    using cores_the(1) [OF assms(1)] by (simp add: view_def l)
  moreover have "box_ok p s t a \<Longrightarrow> box_ok p s' t a" for t a
    using cores_box(1) [OF assms(1), of a] assms(1) by (fastforce simp: box_ok_def same_cores_def)
  moreover have "types s' = types s" using assms(1) by (simp add: same_cores_def)
  ultimately show ?thesis using assms(2) by (simp add: wf_boxes_def l)
qed

lemma cores_known: "same_cores s s' \<Longrightarrow> known_boxes s \<Longrightarrow> known_boxes s'"
  using cores_box(2) [of s s'] cores_linked [of s s'] by (fastforce simp: known_boxes_def no_leak_def)

lemma cores_held:
  assumes "same_cores s s'" "uncore_pci_type s' = uncore_pci_type s"
  shows "pci_held s' = pci_held s"
proof -
  have "map (\<lambda>b. the (pdev b)) (view s' t) = map (\<lambda>b. the (pdev b)) (view s t)" for t
    using cores_the(2) [OF assms(1)] cores_linked [OF assms(1)] by (simp add: view_def)
  then show ?thesis by (simp add: pci_held_def assms(2) map_concat comp_def)
qed

section \<open>Starting and finishing the emulation\<close>

text \<open>The parts that only change the hardware.\<close>

lemma bandwidth_world:
  assumes "imc_regs P"
  shows "\<exists>h. start_emulate_bandwidth (hswep_imc_ops P) P s = (0, s\<lparr>world := h\<rparr>)"
    and "\<exists>h. finish_emulate_bandwidth (hswep_imc_ops P) P s = s\<lparr>world := h\<rparr>"
proof -
  obtain r1 s1 where u1: "uncore_imc_set_threshold_all (hswep_imc_ops P) P 1 s = (r1, s1)" by fastforce
  obtain r2 s2 where u2: "uncore_imc_enable_throttle_all (hswep_imc_ops P) P s1 = (r2, s2)" by fastforce
  have "s1 = s\<lparr>world := world s1\<rparr>"
    using imc_regs.hswep_set_all_spec [OF assms u1 [unfolded uncore_imc_set_threshold_all_def], of 0] by simp
  then obtain h1 where h1: "s1 = s\<lparr>world := h1\<rparr>" by blast
  obtain h2 where h2: "s2 = s1\<lparr>world := h2\<rparr>"
    using imc_regs.hswep_en_all_spec [OF assms u2 [unfolded uncore_imc_enable_throttle_all_def], of 0] by auto
  show "\<exists>h. start_emulate_bandwidth (hswep_imc_ops P) P s = (0, s\<lparr>world := h\<rparr>)"
    unfolding start_emulate_bandwidth_def u1 snd_conv u2 Let_def h2 by (auto simp: h1)
  show "\<exists>h. finish_emulate_bandwidth (hswep_imc_ops P) P s = s\<lparr>world := h\<rparr>"
    unfolding finish_emulate_bandwidth_def uncore_imc_disable_throttle_all_def
    by (rule imc_regs.hswep_dis_all_frame [OF assms])
qed

lemma platform_world:
  "\<exists>h. prepare_platform_configuration P s = (if this_cpu P \<noteq> polling_cpu s then - 1 else 0, s\<lparr>world := h\<rparr>)"
  "\<exists>h. restore_platform_configuration P s = s\<lparr>world := h\<rparr>"
proof -
  have "\<exists>h. s = s\<lparr>world := h\<rparr>" by (rule exI [of _ "world s"]) simp
  then show "\<exists>h. prepare_platform_configuration P s = (if this_cpu P \<noteq> polling_cpu s then - 1 else 0, s\<lparr>world := h\<rparr>)"
    by (auto simp: prepare_platform_configuration_def Let_def on_world_def)
  show "\<exists>h. restore_platform_configuration P s = s\<lparr>world := h\<rparr>"
    unfolding restore_platform_configuration_def Let_def on_world_def by (rule exI) simp
qed

text \<open>The two outcomes of the start of the latency model, on well-formed lists.\<close>

lemma start_latency_module:
  assumes "wf_boxes True HSWEP_UNCORE_PCI_TYPE s" "uncore_pci_type s = HSWEP_UNCORE_PCI_TYPE"
  obtains (none) b0 b1 where "start_emulate_latency T P s = (- ENXIO, s\<lparr>HA_Box_0 := b0, HA_Box_1 := b1\<rparr>)"
  | (ok) a0 a1 b h where "a0 \<in> set (linked s HA_type)" "a1 \<in> set (linked s HA_type)" "box_heap s a1 = Some b"
    "start_emulate_latency T P s = (0, s\<lparr>HA_Box_0 := Some a0, HA_Box_1 := Some a1,
       emu_event := Some ha_requests_remote_reads, world := h,
       box_heap := (box_heap s)(a1 := Some (emulating (emulate_nvm_hrtimer_duration_ns s) b)),
       latency_started := True\<rparr>)"
proof -
  let ?b = "\<lambda>n. find (\<lambda>a. nodeid (the (box_heap s a)) = n) (linked s HA_type)"
  note arr = ha_type(2) [folded assms(2)]
  note look = ha_lookups [OF assms(1)]
  show thesis
  proof (cases "?b 0 = None \<or> ?b 1 = None")
    case True
    from none [OF start_latency_none [OF arr look True]] show thesis .
  next
    case False
    then obtain a0 a1 where a: "?b 0 = Some a0" "?b 1 = Some a1" by auto
    then have l: "a0 \<in> set (linked s HA_type)" "a1 \<in> set (linked s HA_type)" by (auto simp: find_Some_iff)
    obtain b where b: "box_heap s a1 = Some b"
      using wf_boxesD(5) [OF assms(1) ha_type(1) l(2)] by (auto simp: box_ok_def)
    from ok [OF l b start_latency_ok [OF arr look [unfolded a] b refl refl refl]] show thesis .
  qed
qed

text \<open>The stages of the start: it is refused without a /proc entry and off CPU 6; else the latency model is
  started on a state that is prepared for it, and the start is undone when that fails.\<close>

abbreviation parametrised :: "'h platform \<Rightarrow> ('h, 'm) emu_st_scheme \<Rightarrow> ('h, 'm) emu_st_scheme" where
  "parametrised P s \<equiv> s\<lparr>dram_read_latency_ns := 100, nvm_read_latency_ns := 300, read_latency_delta_ns := 200,
     polling_cpu := 6, emulate_nvm_cpu := 0, polling_node := cpu_to_node P 6, emulate_nvm_node := cpu_to_node P 0,
     emulate_nvm_hrtimer_duration_ns := 100000000\<rparr>"

abbreviation prepared :: "'h platform \<Rightarrow> 'h \<Rightarrow> ('h, 'm) emu_st_scheme \<Rightarrow> ('h, 'm) emu_st_scheme" where
  "prepared P h s \<equiv> (parametrised P s)\<lparr>procs := ''emulate_nvm'' # procs s, emulate_proc_registed := True, world := h\<rparr>"

lemmas start_simps = start_emulate_nvm_def emulate_nvm_proc_create_def proc_create_def
  emulate_nvm_proc_remove_def remove_proc_entry_def Let_def

lemma start_refused:
  assumes "\<not> (proc_create_ok P ''emulate_nvm'' \<and> this_cpu P = 6)"
  shows "\<exists>h b. start_emulate_nvm T P s = (parametrised P s)\<lparr>emulate_proc_registed := b, world := h\<rparr>"
proof (cases "proc_create_ok P ''emulate_nvm''")
  case False
  then show ?thesis
    by (intro exI [of _ "world s"] exI [of _ "emulate_proc_registed s"]) (simp add: start_simps)
next
  case True
  obtain h where "prepare_platform_configuration P (prepared P (world s) s) =
      (if this_cpu P \<noteq> 6 then - 1 else 0, prepared P h s)"
    using platform_world(1) [of P "prepared P (world s) s"] by auto
  with True assms show ?thesis
    by (intro exI [of _ h] exI [of _ True]) (simp add: start_simps)
qed

lemma start_undone:
  assumes "imc_regs P" "emulate_proc_registed s" "procs s = ''emulate_nvm'' # ps"
  shows "\<exists>h. emulate_nvm_proc_remove (restore_platform_configuration P
    (finish_emulate_bandwidth (hswep_imc_ops P) P s)) = s\<lparr>world := h, procs := ps\<rparr>"
proof -
  obtain h1 where f: "finish_emulate_bandwidth (hswep_imc_ops P) P s = s\<lparr>world := h1\<rparr>"
    using bandwidth_world(2) [OF assms(1), of s] by (elim exE) (rule that)
  obtain h2 where "restore_platform_configuration P (s\<lparr>world := h1\<rparr>) = s\<lparr>world := h2\<rparr>"
    using platform_world(2) [of P "s\<lparr>world := h1\<rparr>"] by auto
  with f assms show ?thesis by (intro exI [of _ h2]) (simp add: start_simps)
qed

lemma start_goes_on:
  assumes "imc_regs P" "proc_create_ok P ''emulate_nvm''" "this_cpu P = 6"
  obtains h where "start_emulate_nvm (T, hswep_imc_ops P) P s =
    (case start_emulate_latency T P (prepared P h s) of (ret, s) \<Rightarrow>
       if ret \<noteq> 0 then emulate_nvm_proc_remove (restore_platform_configuration P
         (finish_emulate_bandwidth (hswep_imc_ops P) P s))
       else s\<lparr>emulation_started := True\<rparr>)"
proof -
  obtain h1 where p: "prepare_platform_configuration P (prepared P (world s) s) = (0, prepared P h1 s)"
    using platform_world(1) [of P "prepared P (world s) s"] assms(3) by auto
  obtain h2 where "start_emulate_bandwidth (hswep_imc_ops P) P (prepared P h1 s) = (0, prepared P h2 s)"
    using bandwidth_world(1) [OF assms(1), of "prepared P h1 s"] by auto
  with p assms show thesis 
    by (intro that [of h2])
      (simp add: start_emulate_nvm_def emulate_nvm_proc_create_def proc_create_def cong: if_cong prod.case_cong)
qed

text \<open>What the start of the emulation changes: the kernel's view is the same when it fails;
  when it succeeds there is one more /proc entry and one queued timer.\<close>

definition emu_frame :: "('h, 'm) emu_st_scheme \<Rightarrow> ('h, 'm) emu_st_scheme \<Rightarrow> bool" where
  "emu_frame s s' \<longleftrightarrow> types s' = types s \<and> allocs s' = allocs s \<and> krefs s' = krefs s \<and>
     proc_faults s' = proc_faults s \<and> panicked s' = panicked s \<and>
     uncore_pci_type s' = uncore_pci_type s \<and> uncore_msr_type s' = uncore_msr_type s \<and>
     uncore_imc_devices s' = uncore_imc_devices s \<and> uncore_proc_registed s' = uncore_proc_registed s"

lemma start_emulate_module:
  fixes s :: "('h, 'm) emu_st_scheme"
  assumes "imc_regs P" "wf_boxes True HSWEP_UNCORE_PCI_TYPE s" "uncore_pci_type s = HSWEP_UNCORE_PCI_TYPE"
    and "\<not> emulation_started s" "\<not> latency_started s"
  defines "s' \<equiv> start_emulate_nvm (hswep_ops P, hswep_imc_ops P) P s"
  shows "emu_frame s s' \<and>
    (if emulation_started s'
     then latency_started s' \<and> emulate_proc_registed s' \<and> procs s' = ''emulate_nvm'' # procs s \<and>
       (\<exists>a0 a1 b. HA_Box_0 s' = Some a0 \<and> HA_Box_1 s' = Some a1 \<and> a0 \<in> set (linked s HA_type) \<and>
          a1 \<in> set (linked s HA_type) \<and> box_heap s a1 = Some b \<and>
          box_heap s' = (box_heap s)(a1 := Some (emulating 100000000 b)))
     else \<not> latency_started s' \<and> procs s' = procs s \<and> box_heap s' = box_heap s)"
proof (cases "proc_create_ok P ''emulate_nvm'' \<and> this_cpu P = 6")
  case False
  obtain h b where "s' = (parametrised P s)\<lparr>emulate_proc_registed := b, world := h\<rparr>"
    using start_refused [OF False, of "(hswep_ops P, hswep_imc_ops P)" s, folded s'_def] by (elim exE) (rule that)
  with assms(4,5) show ?thesis by (simp add: emu_frame_def)
next
  case True
  then obtain h where st: "s' = (case start_emulate_latency (hswep_ops P) P (prepared P h s) of (ret, s) \<Rightarrow>
       if ret \<noteq> 0 then emulate_nvm_proc_remove (restore_platform_configuration P
         (finish_emulate_bandwidth (hswep_imc_ops P) P s))
       else s\<lparr>emulation_started := True\<rparr>)"
    using start_goes_on [OF assms(1), of "hswep_ops P" s, folded s'_def] by blast
  have "wf_boxes True HSWEP_UNCORE_PCI_TYPE (prepared P h s)" "uncore_pci_type (prepared P h s) = HSWEP_UNCORE_PCI_TYPE"
    using assms(3) by (simp_all add: wf_boxes_cong [OF _ _ _ assms(2)])
  then show ?thesis
  proof (cases rule: start_latency_module [of "prepared P h s" "hswep_ops P" P])
    case (none b0 b1)
    obtain h' where "emulate_nvm_proc_remove (restore_platform_configuration P (finish_emulate_bandwidth (hswep_imc_ops P) P
        ((prepared P h s)\<lparr>HA_Box_0 := b0, HA_Box_1 := b1\<rparr>))) =
      (prepared P h s)\<lparr>HA_Box_0 := b0, HA_Box_1 := b1, world := h', procs := procs s\<rparr>"
      using start_undone [OF assms(1), of "(prepared P h s)\<lparr>HA_Box_0 := b0, HA_Box_1 := b1\<rparr>" "procs s"] by auto
    with none assms(4,5) show ?thesis by (simp add: st emu_frame_def)
  next
    case (ok a0 a1 b' h')
    have "linked (prepared P h s) = linked s" by (simp add: linked_def fun_eq_iff)
    with ok assms(4,5) show ?thesis by (simp add: st emu_frame_def)
  qed
qed

end
