(* ===== verification/Module_Life.thy ===== *)
theory Module_Life
  imports Module_Parts
begin

text \<open>
  The life of the module: the invariant of the loaded module, that \<open>uncore_init\<close> establishes it,
  every event keeps it and \<open>uncore_exit\<close> leaves nothing behind.
\<close>

section \<open>The invariant of the loaded module\<close>

text \<open>Both families of boxes are well formed and nothing is leaked; every device reference is
  held by a box or a controller; the /proc entries are those the module will remove; and a
  timer is queued only on the home agent of the latency model, with its handler.\<close>

definition module_ok :: "('h, 'm) emu_st_scheme \<Rightarrow> bool" where
  "module_ok s \<longleftrightarrow>
     known_boxes s \<and> \<not> panicked s \<and>
     uncore_pci_type s = HSWEP_UNCORE_PCI_TYPE \<and> wf_boxes True HSWEP_UNCORE_PCI_TYPE s \<and>
     uncore_msr_type s = HSWEP_UNCORE_MSR_TYPE \<and> wf_boxes False HSWEP_UNCORE_MSR_TYPE s \<and>
     krefs s = (\<lambda>x. int (count (pci_held s) x) + int (count (imc_held s) x)) \<and>
     uncore_proc_registed s \<and> proc_faults s = 0 \<and>
     (emulation_started s \<longrightarrow> emulate_proc_registed s) \<and> latency_started s = emulation_started s \<and>
     procs s = (if emulation_started s then [''emulate_nvm''] else []) @ [''uncore_pmu''] \<and>
     (emulation_started s \<longrightarrow> (\<exists>a0 a1. HA_Box_0 s = Some a0 \<and> HA_Box_1 s = Some a1 \<and>
        a0 \<in> set (linked s HA_type) \<and> a1 \<in> set (linked s HA_type))) \<and>
     (\<forall>a b. box_heap s a = Some b \<longrightarrow> hr_queued (hrtimer b) \<noteq> None \<longrightarrow>
        emulation_started s \<and> HA_Box_1 s = Some a \<and> hr_function (hrtimer b) = Some Emulate_nvm_hrtimer)"

text \<open>Nothing is left: no box, no controller, no /proc entry.\<close>

definition unloaded :: "('h, 'm) emu_st_scheme \<Rightarrow> bool" where
  "unloaded s \<longleftrightarrow> box_heap s = Map.empty \<and> uncore_imc_devices s = [] \<and> procs s = [] \<and>
     proc_faults s = 0 \<and> \<not> panicked s"

subsection \<open>Releasing everything\<close>

text \<open>The three exits, in their order, on lists that are well formed.\<close>

lemma release_all:
  fixes s :: "('h, 'm) emu_st_scheme"
  assumes "known_boxes s" "uncore_pci_type s = HSWEP_UNCORE_PCI_TYPE" "wf_boxes True HSWEP_UNCORE_PCI_TYPE s"
    and "uncore_msr_type s = HSWEP_UNCORE_MSR_TYPE" "wf_boxes False HSWEP_UNCORE_MSR_TYPE s"
  defines "s' \<equiv> uncore_pci_exit (uncore_cpu_exit (uncore_imc_exit s))"
  shows "box_heap s' = Map.empty" "uncore_imc_devices s' = []"
    "krefs s' = (\<lambda>x. krefs s x - int (count (imc_held s) x) - int (count (pci_held s) x))"
    "procs s' = procs s" "proc_faults s' = proc_faults s" "panicked s' = panicked s"
proof -
  define s1 where "s1 = uncore_imc_exit s"
  have s1: "box_heap s1 = box_heap s" "types s1 = types s" "allocs s1 = allocs s"
      "uncore_pci_type s1 = HSWEP_UNCORE_PCI_TYPE" "uncore_msr_type s1 = HSWEP_UNCORE_MSR_TYPE"
      "uncore_imc_devices s1 = []" "krefs s1 = (\<lambda>x. krefs s x - int (count (imc_held s) x))"
      "procs s1 = procs s" "proc_faults s1 = proc_faults s" "panicked s1 = panicked s"
    by (simp_all add: s1_def imc_exit_eq assms(2,4))
  have c1: "same_cores s s1" using s1 by (simp add: same_cores_heap)
  have w1: "wf_boxes True HSWEP_UNCORE_PCI_TYPE s1" "wf_boxes False HSWEP_UNCORE_MSR_TYPE s1" "known_boxes s1"
    using cores_wf [OF c1 assms(3)] cores_wf [OF c1 assms(5)] cores_known [OF c1 assms(1)] by simp_all
  define s2 where "s2 = uncore_cpu_exit s1"
  have s2: "s2 = released False HSWEP_UNCORE_MSR_TYPE s1"
    using cpu_exit_eq [of s1] w1(2) by (simp add: s2_def s1)
  have f2: "pmu_frame s1 s2" unfolding s2 by simp
  have same2: "same_boxes HSWEP_UNCORE_PCI_TYPE s1 s2"
    unfolding s2 by (rule same_boxes_released [OF w1(2,1) pci_msr_apart])
  note w2 = same_boxes_wf [OF same2 w1(1)]
  have p2: "uncore_pci_type s2 = HSWEP_UNCORE_PCI_TYPE" using pmu_frame_sel(6) [OF f2] s1 by simp
  note e = pci_exit_facts [OF p2 w2]
  have s': "s' = released True HSWEP_UNCORE_PCI_TYPE s2"
    using e(1) by (simp add: s'_def s2_def s1_def)
  have f3: "pmu_frame s2 s'" unfolding s' by simp
  note sel = pmu_frame_sel [OF pmu_frame_trans [OF f2 f3]]
  show "uncore_imc_devices s' = []" "procs s' = procs s" "proc_faults s' = proc_faults s" "panicked s' = panicked s"
    using sel more_imc(2) [OF sel(11)] s1 by simp_all
  have "pci_held s2 = pci_held s1" by (rule same_pci_held [OF same2 s1(4) p2])
  also have "\<dots> = pci_held s" by (rule cores_held [OF c1]) (simp add: s1 assms(2))
  finally have "pci_held s2 = pci_held s" .
  then show "krefs s' = (\<lambda>x. krefs s x - int (count (imc_held s) x) - int (count (pci_held s) x))"
    using e(2) released_krefs [of HSWEP_UNCORE_MSR_TYPE s1] s1(7) by (simp add: s' e(1) [symmetric]) (simp add: s2)
  have "no_leak s'" unfolding s' s2 using w1(3) by (simp add: known_boxes_def no_leak_released)
  then show "box_heap s' = Map.empty"
    by (rule no_leak_empty) (use w1(3) in \<open>auto simp: s' s2 released_linked known_boxes_def\<close>)
qed

subsection \<open>Loading\<close>

lemma clear_global_world: "\<exists>h. uncore_clear_global_pmu P pmu s = s\<lparr>world := h\<rparr>"
proof -
  have call: "\<exists>h. snd (uncore_call_function_on_node P n (Some (\<lambda>cpu. on_world (f cpu))) s) = s\<lparr>world := h\<rparr>" for n f and s :: "('a, 'b) kern_scheme"
  proof -
    have "\<exists>h. s = s\<lparr>world := h\<rparr>" by (rule exI [of _ "world s"]) simp
    then show ?thesis
      by (auto simp: uncore_call_function_on_node_def smp_call_function_single_def Let_def on_world_def)
  qed
  have "\<exists>h. fold (\<lambda>n s. snd (uncore_call_function_on_node P n (Some (\<lambda>cpu. on_world (f cpu))) s)) ns s = s\<lparr>world := h\<rparr>"
    for ns f and s :: "('a, 'b) kern_scheme"
  proof (induction ns arbitrary: s)
    case Nil
    show ?case by (rule exI [of _ "world s"]) simp
  next
    case (Cons n ns)
    obtain h where h: "snd (uncore_call_function_on_node P n (Some (\<lambda>cpu. on_world (f cpu))) s) = s\<lparr>world := h\<rparr>"
      using call by blast
    from Cons [of "s\<lparr>world := h\<rparr>"] show ?case by (simp add: h)
  qed
  moreover have "\<exists>h. s = s\<lparr>world := h\<rparr>" by (rule exI [of _ "world s"]) simp
  ultimately show ?thesis by (auto simp: uncore_clear_global_pmu_def split: option.splits)
qed

lemma report_safe:
  fixes s :: "('h, 'm) emu_st_scheme"
  assumes "wf_boxes True (uncore_pci_type s) s" "wf_boxes False (uncore_msr_type s) s"
  shows "uncore_report P s = Some
    (uncore_print_global_pmu P (Some (uncore_pmu_desc s)) s, uncore_print_node_info P s,
     map (\<lambda>t. (ty_name (types s t), if linked s t = [] then 0 else num_boxes (types s t),
        map (\<lambda>b. (idx b, nodeid b)) (view s t))) (uncore_msr_type s),
     map (\<lambda>t. (ty_name (types s t), if linked s t = [] then 0 else num_boxes (types s t),
        map (\<lambda>b. (idx b, nodeid b, pdev_line P s (the (pdev b)))) (view s t))) (uncore_pci_type s),
     uncore_print_pci_mapping s, uncore_print_imc_devices P s)"
  by (simp add: uncore_report_def print_boxes_wf [OF assms])

lemma imc_exit_nothing: "uncore_imc_devices s = [] \<Longrightarrow> uncore_imc_exit s = s"
  by (simp add: imc_exit_eq imc_held_def)

lemma loaded_lists: "no_leak (emu_loaded h m)" "linked (emu_loaded h m) t = []"
  unfolding emu_loaded_def
  by (rule loaded_boxes(2)) (auto simp: linked_def uncore_loaded_def hswep_types_def zeroed_box_type_def
      HSWEP_UNCORE_PCI_BOXES_def HSWEP_UNCORE_MSR_BOXES_def pci_type_defs msr_type_defs nth_Cons
      split: type_ref.split nat.split)

text \<open>The module is ready to start the emulation when everything else succeeded.\<close>

definition devices_ok :: "('h, 'm) emu_st_scheme \<Rightarrow> bool" where
  "devices_ok s \<longleftrightarrow>
     known_boxes s \<and> idle s \<and>
     uncore_pci_type s = HSWEP_UNCORE_PCI_TYPE \<and> wf_boxes True HSWEP_UNCORE_PCI_TYPE s \<and>
     uncore_msr_type s = HSWEP_UNCORE_MSR_TYPE \<and> wf_boxes False HSWEP_UNCORE_MSR_TYPE s \<and>
     krefs s = (\<lambda>x. int (count (pci_held s) x) + int (count (imc_held s) x))"

lemma emulation_keeps:
  assumes "imc_regs P" "devices_ok s" "uncore_proc_registed s" "proc_faults s = 0" "\<not> panicked s"
    and "procs s = [''uncore_pmu'']" "\<not> emulation_started s" "\<not> latency_started s"
  shows "module_ok (start_emulate_nvm (hswep_ops P, hswep_imc_ops P) P s)"
proof -
  let ?s = "start_emulate_nvm (hswep_ops P, hswep_imc_ops P) P s"
  note d = assms(2) [unfolded devices_ok_def]
  then have w: "wf_boxes True HSWEP_UNCORE_PCI_TYPE s" "uncore_pci_type s = HSWEP_UNCORE_PCI_TYPE" by blast+
  note st = start_emulate_module [OF assms(1) w assms(7,8)]
  then have f: "emu_frame s ?s" by blast
  have c: "same_cores s ?s"
  proof (cases "emulation_started ?s")
    case True
    with st obtain a b where ab: "box_heap s a = Some b"
      "box_heap ?s = (box_heap s)(a := Some (emulating 100000000 b))" by auto
    show ?thesis
      by (rule same_cores_box [OF _ _ ab]) (use f in \<open>simp_all add: emu_frame_def emulating_def\<close>)
  next
    case False
    with st f show ?thesis by (auto simp: emu_frame_def intro: same_cores_heap)
  qed
  have p: "uncore_pci_type ?s = uncore_pci_type s" "imc_held ?s = imc_held s"
    using f by (simp_all add: emu_frame_def imc_held_def)
  note keep = cores_known [OF c] cores_wf [OF c] cores_held [OF c p(1)] cores_linked [OF c, of HA_type]
  have t: "emulation_started ?s \<and> HA_Box_1 ?s = Some a \<and> hr_function (hrtimer b) = Some Emulate_nvm_hrtimer"
    if b: "box_heap ?s a = Some b" "hr_queued (hrtimer b) \<noteq> None" for a b
    using st d b by (auto simp: idle_def emulating_def split: if_splits)
  show ?thesis
    using d f st keep p t assms(3-6) by (auto simp: module_ok_def emu_frame_def)
qed

lemma emu_flags:
  assumes "imc_st.more s = imc_st.more s'"
  shows "emulation_started s = emulation_started s'" "latency_started s = latency_started s'"
  using assms by (cases s; cases s'; simp)+

text \<open>The stages of \<open>uncore_init\<close>, with what each leaves when it fails.\<close>

abbreviation all_exits :: "('h, 'm) emu_st_scheme \<Rightarrow> ('h, 'm) emu_st_scheme" where
  "all_exits s \<equiv> uncore_pci_exit (uncore_cpu_exit (uncore_imc_exit s))"

lemma release_stage:
  fixes m :: 'm
  assumes "devices_ok s" "quiet (emu_loaded h m) s"
  shows "unloaded (all_exits s)" "krefs (all_exits s) = (\<lambda>_. 0)"
proof -
  note d = assms(1) [unfolded devices_ok_def]
  have "known_boxes s" "uncore_pci_type s = HSWEP_UNCORE_PCI_TYPE" "wf_boxes True HSWEP_UNCORE_PCI_TYPE s"
    "uncore_msr_type s = HSWEP_UNCORE_MSR_TYPE" "wf_boxes False HSWEP_UNCORE_MSR_TYPE s"
    using d by simp_all
  note rel = release_all [OF this]
  show "unloaded (all_exits s)" using rel assms(2) by (simp add: unloaded_def quiet_def)
  show "krefs (all_exits s) = (\<lambda>_. 0)" using rel(3) d by (simp add: fun_eq_iff)
qed

lemma pci_stage:
  fixes m :: 'm
  assumes "x86_model P = 63" "enumerates P devs"
  obtains (failed) e s1 where "uncore_pci_init P junk (emu_loaded h m) = Some (e, s1)" "e \<noteq> 0"
      "unloaded (uncore_pci_exit s1)"
      "krefs (uncore_pci_exit s1) = (\<lambda>_. 0) \<or> (\<exists>d. krefs (uncore_pci_exit s1) = (\<lambda>_. 0)(d := 2))"
    | (ok) s1 where "uncore_pci_init P junk (emu_loaded h m) = Some (0, s1)" "quiet (emu_loaded h m) s1"
      "known_boxes s1" "no_boxes HSWEP_UNCORE_MSR_TYPE s1" "uncore_imc_devices s1 = []" "idle s1"
      "uncore_pci_type s1 = HSWEP_UNCORE_PCI_TYPE" "wf_boxes True HSWEP_UNCORE_PCI_TYPE s1"
      "krefs s1 = (\<lambda>x. int (count (pci_held s1) x))"
proof -
  obtain r s1 where i: "uncore_pci_init P junk (emu_loaded h m) = Some (r, s1)" and q: "quiet (emu_loaded h m) s1"
      "known_boxes s1" "no_boxes HSWEP_UNCORE_MSR_TYPE s1" "uncore_imc_devices s1 = []"
    and o: "if r = 0
     then uncore_pci_type s1 = HSWEP_UNCORE_PCI_TYPE \<and> wf_boxes True HSWEP_UNCORE_PCI_TYPE s1 \<and>
       krefs s1 = (\<lambda>x. int (count (pci_held s1) x)) \<and> idle s1
     else uncore_pci_exit s1 = s1 \<and> no_boxes HSWEP_UNCORE_PCI_TYPE s1 \<and>
       (krefs s1 = (\<lambda>_. 0) \<or> (\<exists>d. krefs s1 = (\<lambda>_. 0)(d := 2)))"
    using pci_init_module [OF assms loaded_lists(1) loaded_lists(2) emu_loaded_sel(14), of junk h m]
    by (auto cong: if_cong)
  show thesis
  proof (cases "r = 0")
    case True
    with o have "uncore_pci_type s1 = HSWEP_UNCORE_PCI_TYPE" "wf_boxes True HSWEP_UNCORE_PCI_TYPE s1"
      "krefs s1 = (\<lambda>x. int (count (pci_held s1) x))" "idle s1" by simp_all
    with i q True show thesis by (intro ok) simp_all
  next
    case False
    with o have u: "uncore_pci_exit s1 = s1" "no_boxes HSWEP_UNCORE_PCI_TYPE s1"
      "krefs s1 = (\<lambda>_. 0) \<or> (\<exists>d. krefs s1 = (\<lambda>_. 0)(d := 2))" by auto
    have "box_heap s1 = Map.empty"
      using q(2,3) u(2) by (intro known_empty) (auto simp: no_boxes_def)
    then have "unloaded (uncore_pci_exit s1)" using q u(1) by (simp add: unloaded_def quiet_def)
    from failed [OF i False this] u(1,3) show thesis by simp
  qed
qed

text \<open>After the second stage the devices are consistent, whether it has failed or not.\<close>

lemma cpu_stage:
  fixes s1 :: "('h, 'm) emu_st_scheme"
  assumes "x86_model P = 63" "known_boxes s1" "no_boxes HSWEP_UNCORE_MSR_TYPE s1" "uncore_imc_devices s1 = []"
    and "idle s1" "uncore_pci_type s1 = HSWEP_UNCORE_PCI_TYPE" "wf_boxes True HSWEP_UNCORE_PCI_TYPE s1"
    and "krefs s1 = (\<lambda>x. int (count (pci_held s1) x))"
  obtains r s2 where "uncore_cpu_init P s1 = (r, s2)" "quiet s1 s2" "devices_ok s2" "uncore_imc_devices s2 = []"
proof -
  from cpu_init_module [OF assms(1-3,5,7,6)] assms(4,8) obtain r s2 where i: "uncore_cpu_init P s1 = (r, s2)"
    "quiet s1 s2" "known_boxes s2" "uncore_imc_devices s2 = []" "krefs s2 = (\<lambda>x. int (count (pci_held s2) x))"
    "idle s2" "uncore_pci_type s2 = HSWEP_UNCORE_PCI_TYPE" "wf_boxes True HSWEP_UNCORE_PCI_TYPE s2"
    "uncore_msr_type s2 = HSWEP_UNCORE_MSR_TYPE" "wf_boxes False HSWEP_UNCORE_MSR_TYPE s2" by auto
  then have "devices_ok s2" by (simp add: devices_ok_def imc_held_def)
  from that [OF i(1,2) this i(4)] show thesis .
qed

lemma imc_stage:
  fixes s2 :: "('h, 'm) emu_st_scheme"
  assumes "x86_model P = 63" "enumerates P devs" "devices_ok s2" "uncore_imc_devices s2 = []"
    and "quiet (emu_loaded h m) s2"
  obtains (failed) e s3 d where "uncore_imc_init (hswep_imc_ops P) P s2 = Some (e, s3)" "e \<noteq> 0"
      "unloaded (all_exits s3)" "krefs (all_exits s3) = (\<lambda>_. 0)(d := 2)"
    | (ok) s3 where "uncore_imc_init (hswep_imc_ops P) P s2 = Some (0, s3)" "quiet (emu_loaded h m) s3"
      "devices_ok s3" "box_heap s3 = box_heap s2" "types s3 = types s2"
proof -
  obtain r s3 where i: "uncore_imc_init (hswep_imc_ops P) P s2 = Some (r, s3)" and q: "quiet s2 s3"
      "box_heap s3 = box_heap s2" "types s3 = types s2" "uncore_pci_type s3 = uncore_pci_type s2"
      "uncore_msr_type s3 = uncore_msr_type s2" "allocs s2 \<le> allocs s3"
    and o: "if r = 0 then krefs s3 = (\<lambda>x. krefs s2 x + int (count (imc_held s3) x))
      else uncore_imc_devices s3 = [] \<and> (\<exists>d. krefs s3 = (krefs s2)(d := krefs s2 d + 2))"
    using imc_init_module [OF assms(1,2,4)] by blast
  note d2 = assms(3) [unfolded devices_ok_def]
  have c: "same_cores s2 s3" using q by (simp add: same_cores_heap)
  have l: "quiet (emu_loaded h m) s3" using assms(5) q(1) by (rule quiet_trans)
  have d: "known_boxes s3" "uncore_pci_type s3 = HSWEP_UNCORE_PCI_TYPE" "wf_boxes True HSWEP_UNCORE_PCI_TYPE s3"
      "uncore_msr_type s3 = HSWEP_UNCORE_MSR_TYPE" "wf_boxes False HSWEP_UNCORE_MSR_TYPE s3"
      "pci_held s3 = pci_held s2" "idle s3" "krefs s2 = (\<lambda>x. int (count (pci_held s2) x))"
    using cores_known [OF c] cores_wf [OF c] cores_held [OF c q(4)] d2 q assms(4)
    by (simp_all add: idle_def imc_held_def)
  show thesis
  proof (cases "r = 0")
    case True
    with o d have "devices_ok s3" by (simp add: devices_ok_def)
    with ok i l q True show thesis by simp
  next
    case False
    with o obtain x where x: "uncore_imc_devices s3 = []" "krefs s3 = (krefs s2)(x := krefs s2 x + 2)" by auto
    note rel = release_all [OF d(1-5)]
    have "krefs (all_exits s3) = (\<lambda>_. 0)(x := 2)" using rel(3) x d(6,8) by (auto simp: imc_held_def fun_eq_iff)
    moreover have "unloaded (all_exits s3)" using rel l by (simp add: unloaded_def quiet_def)
    ultimately show thesis using failed i False by blast
  qed
qed

text \<open>The last stage: the /proc entry, the report and the start of the emulation.\<close>

lemma start_stage:
  fixes s3 :: "('h, 'm) emu_st_scheme"
  assumes "devices_ok s3" "quiet (emu_loaded h m) s3"
  obtains s0 rep where
    "uncore_clear_global_pmu P (Some (uncore_pmu_desc s3)) (s3\<lparr>procs := [''uncore_pmu''], uncore_proc_registed := True\<rparr>) = s0"
    "uncore_report P s0 = Some rep" "devices_ok s0" "uncore_proc_registed s0" "procs s0 = [''uncore_pmu'']"
    "proc_faults s0 = 0" "\<not> panicked s0" "delays s0 = []" "\<not> emulation_started s0" "\<not> latency_started s0"
    "box_heap s0 = box_heap s3" "types s0 = types s3" "krefs s0 = krefs s3" "uncore_imc_devices s0 = uncore_imc_devices s3"
    "uncore_pcibus_to_nodeid s0 = uncore_pcibus_to_nodeid s3"
proof -
  let ?s4 = "s3\<lparr>procs := [''uncore_pmu''], uncore_proc_registed := True\<rparr>"
  obtain g where g: "uncore_clear_global_pmu P (Some (uncore_pmu_desc s3)) ?s4 = ?s4\<lparr>world := g\<rparr>"
    using clear_global_world [of P "Some (uncore_pmu_desc s3)" ?s4] by (elim exE) (rule that)
  let ?s0 = "?s4\<lparr>world := g\<rparr>"
  note d = assms(1) [unfolded devices_ok_def]
  have c: "same_cores s3 ?s0" by (simp add: same_cores_heap)
  have ok: "devices_ok ?s0"
    using cores_known [OF c] cores_wf [OF c] cores_held [OF c] d by (simp add: devices_ok_def idle_def imc_held_def)
  then obtain rep where r: "uncore_report P ?s0 = Some rep"
    using report_safe [of ?s0 P] by (simp add: devices_ok_def)
  have "imc_st.more s3 = imc_st.more (emu_loaded h m)" using assms(2) by (simp add: quiet_def)
  from emu_flags [OF this] have f: "\<not> emulation_started s3" "\<not> latency_started s3" by simp_all
  have "delays (emu_loaded h m) = []" by (simp add: emu_loaded_def uncore_loaded_def)
  with assms(2) f show thesis by (intro that [OF g r ok]) (simp_all add: quiet_def)
qed

lemma init_module:
  fixes m :: 'm
  assumes "x86_model P = 63" "enumerates P devs" "imc_regs P"
  shows "\<exists>ret s'. uncore_init (hswep_ops P, hswep_imc_ops P) P junk (emu_loaded h m) = Some (ret, s') \<and>
    (if ret = 0 then module_ok s'
     else unloaded s' \<and> (krefs s' = (\<lambda>_. 0) \<or> (\<exists>d. krefs s' = (\<lambda>_. 0)(d := 2))))"
  using assms(1,2)
proof (cases rule: pci_stage [of P devs junk h m])
  case (failed e s1)
  then show ?thesis by (simp add: uncore_init_def)
next
  case (ok s1)
  from cpu_stage [OF assms(1) ok(3-9)] obtain r2 s2 where i2: "uncore_cpu_init P s1 = (r2, s2)" "quiet s1 s2"
    "devices_ok s2" "uncore_imc_devices s2 = []" .
  have l2: "quiet (emu_loaded h m) s2" using ok(2) i2(2) by (rule quiet_trans)
  show ?thesis
  proof (cases "r2 = 0")
    case False
    with ok(1) i2(1) release_stage [OF i2(3) l2, unfolded imc_exit_nothing [OF i2(4)]] show ?thesis
      by (simp add: uncore_init_def)
  next
    case r2: True
    from assms(1,2) i2(3,4) l2 show ?thesis
    proof (cases rule: imc_stage [of P devs s2 h m])
      case (failed e s3 d)
      with ok(1) i2(1) r2 show ?thesis by (simp add: uncore_init_def) blast
    next
      case (ok s3)
      note i = \<open>uncore_pci_init P junk (emu_loaded h m) = Some (0, s1)\<close> i2(1) r2 ok(1)
      have p: "procs s3 = []" using ok(2) by (simp add: quiet_def)
      from start_stage [OF ok(3,2), of P] obtain s0 rep where s0: "uncore_clear_global_pmu P (Some (uncore_pmu_desc s3))
          (s3\<lparr>procs := [''uncore_pmu''], uncore_proc_registed := True\<rparr>) = s0"
        "uncore_report P s0 = Some rep" "devices_ok s0" "uncore_proc_registed s0" "procs s0 = [''uncore_pmu'']"
        "proc_faults s0 = 0" "\<not> panicked s0" "\<not> emulation_started s0" "\<not> latency_started s0" .
      show ?thesis
        using i p s0(1,2) emulation_keeps [OF assms(3) s0(3,4,6,7,5,8,9)] release_stage [OF ok(3,2)]
        by (simp add: uncore_init_def uncore_proc_create_def proc_create_def)
    qed
  qed
qed

subsection \<open>Ending the emulation\<close>

lemma finish_latency_module:
  fixes s :: "('h, 'm) emu_st_scheme"
  assumes "latency_started s" "HA_Box_0 s = Some a0" "HA_Box_1 s = Some a1"
    and "box_heap s a0 \<noteq> None" "box_heap s a1 \<noteq> None"
  shows "\<exists>h. finish_emulate_latency T P s =
    s\<lparr>box_heap := (\<lambda>a. if a = a0 \<or> a = a1 then map_option uncore_box_cancel_hrtimer (box_heap s a) else box_heap s a),
      world := h, latency_started := False\<rparr>"
proof -
  obtain b0 b1 where b: "box_heap s a0 = Some b0" "box_heap s a1 = Some b1" using assms(4,5) by blast
  then have "(box_heap s)(a0 := Some (uncore_box_cancel_hrtimer b0), a1 := Some (uncore_box_cancel_hrtimer b1)) =
      (\<lambda>a. if a = a0 \<or> a = a1 then map_option uncore_box_cancel_hrtimer (box_heap s a) else box_heap s a)"
    by (auto simp: fun_eq_iff)
  from finish_latency_eq [OF assms(1-3) b refl refl refl refl, of T P, unfolded this] show ?thesis by blast
qed

lemma module_box_live:
  assumes "module_ok s" "a \<in> set (linked s HA_type)"
  shows "box_heap s a \<noteq> None"
  using wf_boxesD(5) [OF _ ha_type(1) assms(2)] assms(1) by (fastforce simp: module_ok_def box_ok_def)

lemma module_timer:
  "module_ok s \<Longrightarrow> box_heap s a = Some b \<Longrightarrow> hr_queued (hrtimer b) \<noteq> None \<Longrightarrow>
     emulation_started s \<and> HA_Box_1 s = Some a \<and> hr_function (hrtimer b) = Some Emulate_nvm_hrtimer"
  unfolding module_ok_def by blast

text \<open>Whether the emulation runs or not, after \<open>finish_emulate_nvm\<close> no timer is queued and only
  the entry of the module itself is left in /proc.\<close>

lemma finish_steps:
  fixes s :: "('h, 'm) emu_st_scheme"  and T :: "'h ops_tables"
  assumes "imc_regs P" "module_ok s" "emulation_started s"
  obtains a0 a1 g where "HA_Box_1 s = Some a1" "finish_emulate_nvm (T, hswep_imc_ops P) P s =
    s\<lparr>procs := [''uncore_pmu''], world := g, latency_started := False, emulation_started := False,
      box_heap := (\<lambda>a. if a = a0 \<or> a = a1 then map_option uncore_box_cancel_hrtimer (box_heap s a) else box_heap s a)\<rparr>"
proof -
  note m = assms(2) [unfolded module_ok_def]
  then have p: "latency_started s" "emulate_proc_registed s" "procs s = [''emulate_nvm'', ''uncore_pmu'']"
    using assms(3) by simp_all
  from m assms(3) obtain a0 a1 where a: "HA_Box_0 s = Some a0" "HA_Box_1 s = Some a1"
    "a0 \<in> set (linked s HA_type)" "a1 \<in> set (linked s HA_type)" by auto
  note live = module_box_live [OF assms(2) a(3)] module_box_live [OF assms(2) a(4)]
  let ?s1 = "s\<lparr>procs := [''uncore_pmu'']\<rparr>"
  have 1: "emulate_nvm_proc_remove s = ?s1"
    using p by (simp add: emulate_nvm_proc_remove_def remove_proc_entry_def)
  obtain g1 where 2: "restore_platform_configuration P ?s1 = ?s1\<lparr>world := g1\<rparr>"
    using platform_world(2) [of P ?s1] by (elim exE) (rule that)
  obtain g2 where 3: "finish_emulate_bandwidth (hswep_imc_ops P) P (?s1\<lparr>world := g1\<rparr>) = ?s1\<lparr>world := g2\<rparr>"
    using bandwidth_world(2) [OF assms(1), of "?s1\<lparr>world := g1\<rparr>"] by auto
  define t where "t = ?s1\<lparr>world := g2\<rparr>"
  have t: "latency_started t" "HA_Box_0 t = Some a0" "HA_Box_1 t = Some a1" "box_heap t = box_heap s"
    using a(1,2) p(1) by (simp_all add: t_def)
  obtain g3 where 4: "finish_emulate_latency T P t = t\<lparr>box_heap := (\<lambda>a. if a = a0 \<or> a = a1
      then map_option uncore_box_cancel_hrtimer (box_heap s a) else box_heap s a), world := g3, latency_started := False\<rparr>"
    using finish_latency_module [OF t(1-3), unfolded t(4), OF live, of T P] by (elim exE) (rule that)
  show thesis
    by (rule that [OF a(2), of a0 g3]) (simp add: assms(3) finish_emulate_nvm_def Let_def 1 2 3 4 t_def [symmetric], simp add: t_def)
qed

lemma finish_module:
  fixes s :: "('h, 'm) emu_st_scheme"  and T :: "'h ops_tables"
  assumes "imc_regs P" "module_ok s"
  defines "s' \<equiv> finish_emulate_nvm (T, hswep_imc_ops P) P s"
  shows "devices_ok s' \<and> procs s' = [''uncore_pmu''] \<and> proc_faults s' = 0 \<and> \<not> panicked s' \<and>
    uncore_proc_registed s' \<and> imc_held s' = imc_held s"
proof (cases "emulation_started s")
  case False
  with assms(2) show ?thesis
    by (auto simp: s'_def finish_emulate_nvm_def module_ok_def devices_ok_def idle_def)
next
  case True
  note m = assms(2) [unfolded module_ok_def]
  from finish_steps [OF assms(1,2) True, of T, folded s'_def] obtain a0 a1 g where a: "HA_Box_1 s = Some a1"
    and s': "s' = s\<lparr>procs := [''uncore_pmu''], world := g, latency_started := False, emulation_started := False,
      box_heap := (\<lambda>a. if a = a0 \<or> a = a1 then map_option uncore_box_cancel_hrtimer (box_heap s a) else box_heap s a)\<rparr>" .
  have c: "same_cores s s'"
    by (simp add: s' same_cores_def uncore_box_cancel_hrtimer_def map_option.compositionality comp_def)
  have p: "uncore_pci_type s' = uncore_pci_type s" by (simp add: s')
  have "hr_queued (hrtimer b) = None" if b: "box_heap s' x = Some b" for x b
  proof (cases "x = a0 \<or> x = a1")
    case True
    with b show ?thesis by (auto simp: s' uncore_box_cancel_hrtimer_def)
  next
    case False
    with b have "box_heap s x = Some b" by (simp add: s')
    with module_timer [OF assms(2)] a False show ?thesis by fastforce
  qed
  then have "idle s'" by (simp add: idle_def)
  with m cores_known [OF c] cores_wf [OF c] cores_held [OF c p] show ?thesis
    by (simp add: devices_ok_def) (simp add: s' imc_held_def)
qed

lemma exit_module:
  fixes s :: "('h, 'm) emu_st_scheme"  and T :: "'h ops_tables"
  assumes "imc_regs P" "module_ok s"
  defines "s' \<equiv> uncore_exit (T, hswep_imc_ops P) P s"
  shows "unloaded s' \<and> krefs s' = (\<lambda>_. 0) \<and> idle (finish_emulate_nvm (T, hswep_imc_ops P) P s)"
proof -
  define s1 where "s1 = finish_emulate_nvm (T, hswep_imc_ops P) P s"
  note f = finish_module [OF assms(1,2), of T, folded s1_def]
  obtain g where g: "uncore_clear_global_pmu P (Some (uncore_pmu_desc s1)) s1 = s1\<lparr>world := g\<rparr>"
    using clear_global_world [of P "Some (uncore_pmu_desc s1)" s1] by (elim exE) (rule that)
  let ?s2 = "s1\<lparr>world := g, procs := []\<rparr>"
  have e: "s' = uncore_pci_exit (uncore_cpu_exit (uncore_imc_exit ?s2))"
    using f by (simp add: s'_def uncore_exit_def Let_def s1_def [symmetric] g uncore_proc_remove_def remove_proc_entry_def)
  have c: "same_cores s1 ?s2" by (simp add: same_cores_heap)
  have d: "known_boxes ?s2" "uncore_pci_type ?s2 = HSWEP_UNCORE_PCI_TYPE" "wf_boxes True HSWEP_UNCORE_PCI_TYPE ?s2"
    "uncore_msr_type ?s2 = HSWEP_UNCORE_MSR_TYPE" "wf_boxes False HSWEP_UNCORE_MSR_TYPE ?s2"
    "pci_held ?s2 = pci_held s1" "imc_held ?s2 = imc_held s1"
    using f cores_known [OF c] cores_wf [OF c] cores_held [OF c] by (simp_all add: devices_ok_def imc_held_def)
  from release_all [OF d(1-5), folded e] d(6,7) f show ?thesis
    by (simp add: unloaded_def devices_ok_def s1_def fun_eq_iff)
qed

subsection \<open>Events\<close>

text \<open>What an event may change: the hardware, the log of delays, the statistics, the ratio, and
  the timer of the box that is running.\<close>

definition event_frame :: "('h, 'm) emu_st_scheme \<Rightarrow> ('h, 'm) emu_st_scheme \<Rightarrow> bool" where
  "event_frame s s' \<longleftrightarrow> types s' = types s \<and> allocs s' = allocs s \<and> krefs s' = krefs s \<and>
     procs s' = procs s \<and> proc_faults s' = proc_faults s \<and> panicked s' = panicked s \<and>
     uncore_pci_type s' = uncore_pci_type s \<and> uncore_msr_type s' = uncore_msr_type s \<and>
     uncore_imc_devices s' = uncore_imc_devices s \<and> uncore_proc_registed s' = uncore_proc_registed s \<and>
     emulate_proc_registed s' = emulate_proc_registed s \<and> emulation_started s' = emulation_started s \<and>
     latency_started s' = latency_started s \<and> HA_Box_0 s' = HA_Box_0 s \<and> HA_Box_1 s' = HA_Box_1 s"

lemma handler_frame:
  assumes "box_heap s a = Some b"
  shows "\<exists>s'. emulate_nvm_hrtimer T P a s = (HRTIMER_RESTART, s') \<and> event_frame s s' \<and>
    box_heap s' = (box_heap s)(a := Some (hrtimer_forward (hrtimer_duration b) b))"
  using assms
  by (auto simp: emulate_nvm_hrtimer_def Let_def on_world_def smp_call_function_single_def emulate_nvm_func_def
      udelay_def upd_box_def event_frame_def)

text \<open>What it may change of a box: the box that is running keeps its place, its type and its device.\<close>

definition event_boxes :: "('h, 'm) emu_st_scheme \<Rightarrow> ('h, 'm) emu_st_scheme \<Rightarrow> bool" where
  "event_boxes s s' \<longleftrightarrow>
     box_heap s' = box_heap s \<or> (\<exists>a b b'. box_heap s a = Some b \<and> box_heap s' = (box_heap s)(a := Some b') \<and>
      idx b' = idx b \<and> box_type b' = box_type b \<and> pdev b' = pdev b \<and>
      HA_Box_1 s = Some a \<and> emulation_started s \<and> hr_function (hrtimer b') = Some Emulate_nvm_hrtimer)"

lemma event_keeps:
  fixes s s' :: "('h, 'm) emu_st_scheme"
  assumes "module_ok s" "event_frame s s'" "event_boxes s s'"
  shows "module_ok s'"
proof -
  note f = assms(2) [unfolded event_frame_def]
  note bx = assms(3) [unfolded event_boxes_def]
  have c: "same_cores s s'"
    using bx f by (auto intro: same_cores_heap same_cores_box)
  have p: "uncore_pci_type s' = uncore_pci_type s" using f by blast
  have t: "emulation_started s' \<and> HA_Box_1 s' = Some x \<and> hr_function (hrtimer d) = Some Emulate_nvm_hrtimer"
    if "box_heap s' x = Some d" "hr_queued (hrtimer d) \<noteq> None" for x d
    using bx module_timer [OF assms(1), of x d] that f by (auto split: if_splits)
  have l: "linked s' = linked s" using cores_linked [OF c] by (simp add: fun_eq_iff)
  have i: "imc_held s' = imc_held s" using f by (simp add: imc_held_def)
  note m = assms(1) [unfolded module_ok_def]
  show ?thesis
    unfolding module_ok_def l i cores_held [OF c p]
    using m f t cores_known [OF c] cores_wf [OF c] by (intro conjI) auto
qed

lemma step_frame:
  fixes s s' :: "('h, 'm) emu_st_scheme"
  assumes "imc_regs P" "module_ok s" "module_step (T, hswep_imc_ops P) P s s'"
  shows "event_frame s s' \<and> event_boxes s s'"
  using assms(3)
proof (cases rule: module_stepE)
  case (timer a box)
  have t: "emulation_started s" "HA_Box_1 s = Some a" "hr_function (hrtimer box) = Some Emulate_nvm_hrtimer"
    using module_timer [OF assms(2) timer(2)] timer(3) by simp_all
  obtain s1 where s1: "emulate_nvm_hrtimer T P a s = (HRTIMER_RESTART, s1)" "event_frame s s1"
    "box_heap s1 = (box_heap s)(a := Some (hrtimer_forward (hrtimer_duration box) box))"
    using handler_frame [OF timer(2)] by blast
  have "s' = s1" using timer t s1(1) by (simp add: run_timer_def)
  moreover have "event_boxes s s1"
    unfolding event_boxes_def by (intro disjI2 exI [of _ a] exI [of _ box]
        exI [of _ "hrtimer_forward (hrtimer_duration box) box"])
      (use timer(2) t s1(3) in \<open>simp add: hrtimer_forward_def\<close>)
  ultimately show ?thesis using s1(2) by simp
next
  case (bandwidth cnt offs buf r)
  then consider "s' = s" | k th where "s' = set_bw (hswep_imc_ops P) k th s"
    by (auto simp: uncore_proc_write_def split: if_splits option.splits)
  then show ?thesis
  proof cases
    case 2
    obtain h where "set_bw (hswep_imc_ops P) k th s = s\<lparr>bw_ratio := k, world := h\<rparr>"
      using set_bw_facts [OF assms(1), of k th s] by (elim exE conjE) (rule that)
    with 2 have "s' = s\<lparr>bw_ratio := k, world := h\<rparr>" by simp
    then show ?thesis by (simp add: event_frame_def event_boxes_def)
  qed (simp add: event_frame_def event_boxes_def)
next
  case parameters
  then show ?thesis by (simp add: event_frame_def event_boxes_def)
next
  case (hardware h)
  then show ?thesis by (simp add: event_frame_def event_boxes_def)
qed

lemma step_module:
  fixes s s' :: "('h, 'm) emu_st_scheme"
  assumes "imc_regs P" "module_ok s" "module_step (T, hswep_imc_ops P) P s s'"
  shows "module_ok s'"
  using step_frame [OF assms] event_keeps [OF assms(2)] by blast

lemma run_module:
  assumes "imc_regs P" "module_ok s" "module_run (T, hswep_imc_ops P) P s s'"
  shows "module_ok s'" "types s' = types s"
proof -
  have "module_ok s' \<and> types s' = types s"
    using assms(3,2)
  proof (induction rule: module_run.induct)
    case (event s s1 s2)
    then show ?case
      using step_module [OF assms(1), of s1 T s2] step_frame [OF assms(1), of s1 T s2] by (simp add: event_frame_def)
  qed simp
  then show "module_ok s'" "types s' = types s" by blast+
qed

subsection \<open>Success\<close>

lemma init_module_ok:
  fixes m :: 'm
  assumes "x86_model P = 63" "enumerates P devs" "imc_regs P" "\<And>k. kzalloc_ok P k"
    and "devs PCI_VENDOR_ID_INTEL 0x2F1E \<noteq> []"
    and "\<And>d. d \<in> set (devs PCI_VENDOR_ID_INTEL 0x2F1E) \<Longrightarrow> answers P h d"
    and "proc_create_ok P ''uncore_pmu''"
  shows "\<exists>s'. uncore_init (hswep_ops P, hswep_imc_ops P) P junk (emu_loaded h m) = Some (0, s') \<and> module_ok s'"
proof -
  let ?l = "emu_loaded h m"
  obtain s1 where i1: "uncore_pci_init P junk ?l = Some (0, s1)"
    using pci_init_ok [OF assms(1,2,4,5), of ?l junk] assms(6) by auto
  from assms(1,2) obtain "known_boxes s1" "no_boxes HSWEP_UNCORE_MSR_TYPE s1" "uncore_imc_devices s1 = []" "idle s1"
    "uncore_pci_type s1 = HSWEP_UNCORE_PCI_TYPE" "wf_boxes True HSWEP_UNCORE_PCI_TYPE s1"
    "krefs s1 = (\<lambda>x. int (count (pci_held s1) x))"
    by (rule pci_stage [of P devs junk h m]) (use i1 in auto)
  note q1 = this
  from cpu_stage [OF assms(1) q1] obtain r2 s2 where i2: "uncore_cpu_init P s1 = (r2, s2)" "uncore_imc_devices s2 = []" .
  have "r2 = 0"
    using cpu_init_facts [OF assms(1) q1(2)] q1(1) assms(4) i2(1) by (auto simp: known_boxes_def)
  moreover obtain s3 where "uncore_imc_init (hswep_imc_ops P) P s2 = Some (0, s3)"
    using imc_init_facts [OF assms(1,2) i2(2)] assms(4) by auto
  ultimately have "\<exists>s'. uncore_init (hswep_ops P, hswep_imc_ops P) P junk ?l = Some (0, s')"
    using assms(7) by (simp add: uncore_init_def i1 i2(1) uncore_proc_create_def proc_create_def Let_def)
  with init_module [OF assms(1-3), of junk h m] show ?thesis by auto
qed

lemma ref_module:
  "\<exists>s'. uncore_init (hswep_ops ref_platform, hswep_imc_ops ref_platform) ref_platform 0 (emu_loaded ref_hw0 ()) = Some (0, s') \<and>
     module_ok s'"
proof -
  have "ref_devs PCI_VENDOR_ID_INTEL 0x2F1E \<noteq> []"
    by (simp add: ref_devs_def PCI_VENDOR_ID_INTEL_def ref_devices_def)
  from init_module_ok [OF _ ref_enumerates ref_imc_regs _ this] show ?thesis
    by (simp add: ref_answers)
qed

section \<open>Properties\<close>

text \<open>C5: loading the module ends, with 0 or an error. With 0 the module's invariant holds; with an
  error nothing is left of it, no box, no controller, no /proc entry, and every device
  reference is given back, but for two on a device that could not be registered.\<close>

theorem module_init_outcome:
  fixes m :: 'm
  assumes "x86_model P = 63" "enumerates P devs" "imc_regs P"
  shows "\<exists>ret s'. uncore_init (hswep_ops P, hswep_imc_ops P) P junk (emu_loaded h m) = Some (ret, s') \<and>
    (if ret = 0 then module_ok s'
     else unloaded s' \<and> (krefs s' = (\<lambda>_. 0) \<or> (\<exists>d. krefs s' = (\<lambda>_. 0)(d := 2))))"
  using assms by (rule init_module)

lemma module_init_outcome_witness:
  "\<exists>ret s'. uncore_init (hswep_ops ref_platform, hswep_imc_ops ref_platform) ref_platform 0 (emu_loaded ref_hw0 ()) =
     Some (ret, s') \<and> (ret = 0 \<longrightarrow> module_ok s') \<and> (ret \<noteq> 0 \<longrightarrow> unloaded s')"
  using module_init_outcome [OF _ ref_enumerates ref_imc_regs, of 0 ref_hw0 "()"]
  by (auto split: if_splits)

text \<open>C4: whatever happens while the module is loaded, timers that fire, writes to its /proc files,
  hardware that moves on, in any order and number: the module keeps its invariant, so it
  never dies, its lists stay well formed, every reference it holds is accounted for, and the
  only queued timer is that of the emulated node's home agent, with its handler.\<close>

theorem module_keeps_invariant:
  fixes m :: 'm
  assumes "x86_model P = 63" "enumerates P devs" "imc_regs P"
    and "uncore_init (hswep_ops P, hswep_imc_ops P) P junk (emu_loaded h m) = Some (0, s)"
    and "module_run (hswep_ops P, hswep_imc_ops P) P s s'"
  shows "module_ok s'"
  using init_module [OF assms(1-3), of junk h m] assms(4) run_module(1) [OF assms(3) _ assms(5)] by auto

lemma module_keeps_invariant_witness:
  "\<exists>s s'. uncore_init (hswep_ops ref_platform, hswep_imc_ops ref_platform) ref_platform 0 (emu_loaded ref_hw0 ()) = Some (0, s) \<and>
     uncore_proc_write (hswep_imc_ops ref_platform) 2 0 (Some ''4x'') s = (2, s') \<and> module_ok s'"
proof -
  obtain s where i: "uncore_init (hswep_ops ref_platform, hswep_imc_ops ref_platform) ref_platform 0 (emu_loaded ref_hw0 ()) = Some (0, s)"
    using ref_module by blast
  obtain s' where w: "uncore_proc_write (hswep_imc_ops ref_platform) 2 0 (Some ''4x'') s = (2, s')"
    by (simp add: uncore_proc_write_def)
  then have "module_run (hswep_ops ref_platform, hswep_imc_ops ref_platform) ref_platform s s'"
    by (intro module_run.event [OF module_run.loaded] module_step.bandwidth) simp
  from module_keeps_invariant [OF _ ref_enumerates ref_imc_regs i this] i w show ?thesis by auto
qed

text \<open>C3: unloading after any run leaves nothing behind: no timer is queued when the boxes are
  freed, no box, no controller and no /proc entry is left, no entry is removed that is not
  there, and every reference to a device is given back.\<close>

theorem module_unloads:
  fixes m :: 'm
  assumes "x86_model P = 63" "enumerates P devs" "imc_regs P"
    and "uncore_init (hswep_ops P, hswep_imc_ops P) P junk (emu_loaded h m) = Some (0, s)"
    and "module_run (hswep_ops P, hswep_imc_ops P) P s s'"
  shows "idle (finish_emulate_nvm (hswep_ops P, hswep_imc_ops P) P s') \<and>
    unloaded (uncore_exit (hswep_ops P, hswep_imc_ops P) P s') \<and>
    krefs (uncore_exit (hswep_ops P, hswep_imc_ops P) P s') = (\<lambda>_. 0)"
proof -
  have "module_ok s'"
    using init_module [OF assms(1-3), of junk h m] assms(4) run_module(1) [OF assms(3) _ assms(5)] by auto
  from exit_module [OF assms(3) this, of "hswep_ops P"] show ?thesis by blast
qed

lemma module_unloads_witness:
  "\<exists>s s'. uncore_init (hswep_ops ref_platform, hswep_imc_ops ref_platform) ref_platform 0 (emu_loaded ref_hw0 ()) = Some (0, s) \<and>
     uncore_proc_write (hswep_imc_ops ref_platform) 2 0 (Some ''4x'') s = (2, s') \<and>
     unloaded (uncore_exit (hswep_ops ref_platform, hswep_imc_ops ref_platform) ref_platform s')"
proof -
  obtain s where i: "uncore_init (hswep_ops ref_platform, hswep_imc_ops ref_platform) ref_platform 0 (emu_loaded ref_hw0 ()) = Some (0, s)"
    using ref_module by blast
  obtain s' where w: "uncore_proc_write (hswep_imc_ops ref_platform) 2 0 (Some ''4x'') s = (2, s')"
    by (simp add: uncore_proc_write_def)
  then have "module_run (hswep_ops ref_platform, hswep_imc_ops ref_platform) ref_platform s s'"
    by (intro module_run.event [OF module_run.loaded] module_step.bandwidth) simp
  from module_unloads [OF _ ref_enumerates ref_imc_regs i this] i w show ?thesis by auto
qed

text \<open>C7: with memory, answering UBOX devices and a free /proc name the module loads.\<close>

theorem module_loads:
  fixes m :: 'm
  assumes "x86_model P = 63" "enumerates P devs" "imc_regs P" "\<And>k. kzalloc_ok P k"
    and "devs PCI_VENDOR_ID_INTEL 0x2F1E \<noteq> []"
    and "\<And>d. d \<in> set (devs PCI_VENDOR_ID_INTEL 0x2F1E) \<Longrightarrow> answers P h d"
    and "proc_create_ok P ''uncore_pmu''"
  shows "\<exists>s'. uncore_init (hswep_ops P, hswep_imc_ops P) P junk (emu_loaded h m) = Some (0, s') \<and> module_ok s'"
  using assms by (rule init_module_ok)

lemma module_loads_witness:
  "\<exists>s'. uncore_init (hswep_ops ref_platform, hswep_imc_ops ref_platform) ref_platform 0 (emu_loaded ref_hw0 ()) = Some (0, s') \<and>
     module_ok s'"
proof -
  have "ref_devs PCI_VENDOR_ID_INTEL 0x2F1E \<noteq> []"
    by (simp add: ref_devs_def PCI_VENDOR_ID_INTEL_def ref_devices_def)
  from module_loads [OF _ ref_enumerates ref_imc_regs _ this] show ?thesis
    by (simp add: ref_answers)
qed

end
