(* ===== verification/Module_Report.thy ===== *)
theory Module_Report
  imports Module_Life
begin

text \<open>
  What the module prints when it is loaded: the sequence of states of a successful \<open>uncore_init\<close>, and
  that the report is complete and right, a line for every box and controller of the machine.
\<close>

section \<open>The states of a successful initialisation\<close>

lemma init_steps:
  fixes m :: 'm
  assumes "x86_model P = 63" "enumerates P devs" "imc_regs P"
    and "uncore_init (hswep_ops P, hswep_imc_ops P) P junk (emu_loaded h m) = Some (0, s)"
  obtains s1 s2 s3 s0 where "uncore_pci_init P junk (emu_loaded h m) = Some (0, s1)"
    "uncore_cpu_init P s1 = (0, s2)" "uncore_imc_init (hswep_imc_ops P) P s2 = Some (0, s3)"
    "s = start_emulate_nvm (hswep_ops P, hswep_imc_ops P) P s0" "devices_ok s0"
    "known_boxes s1" "no_boxes HSWEP_UNCORE_MSR_TYPE s1" "uncore_imc_devices s2 = []"
    "box_heap s0 = box_heap s2" "types s0 = types s2" "krefs s0 = krefs s3"
    "uncore_pcibus_to_nodeid s0 = uncore_pcibus_to_nodeid s3" "uncore_imc_devices s0 = uncore_imc_devices s3"
    "delays s0 = []" "\<not> emulation_started s0" "\<not> latency_started s0"
proof -
  let ?l = "emu_loaded h m"
  from assms(1,2) obtain s1 where i1: "uncore_pci_init P junk ?l = Some (0, s1)" and q1: "quiet ?l s1" "known_boxes s1"
      "no_boxes HSWEP_UNCORE_MSR_TYPE s1" "uncore_imc_devices s1 = []" "idle s1"
      "uncore_pci_type s1 = HSWEP_UNCORE_PCI_TYPE" "wf_boxes True HSWEP_UNCORE_PCI_TYPE s1"
      "krefs s1 = (\<lambda>x. int (count (pci_held s1) x))"
    by (rule pci_stage [of P devs junk h m]) (use assms(4) in \<open>simp add: uncore_init_def\<close>)
  from cpu_stage [OF assms(1) q1(2-8)] obtain r2 s2 where i2: "uncore_cpu_init P s1 = (r2, s2)" "quiet s1 s2"
    "devices_ok s2" "uncore_imc_devices s2 = []" .
  have [simp]: "r2 = 0" using assms(4) i1 i2(1) by (auto simp: uncore_init_def split: if_splits)
  have l2: "quiet ?l s2" using q1(1) i2(2) by (rule quiet_trans)
  from assms(1,2) i2(3,4) l2 obtain s3 where i3: "uncore_imc_init (hswep_imc_ops P) P s2 = Some (0, s3)" "quiet ?l s3"
      "devices_ok s3" "box_heap s3 = box_heap s2" "types s3 = types s2"
    by (rule imc_stage [of P devs s2 h m]) (use assms(4) i1 i2(1) in \<open>simp add: uncore_init_def\<close>)
  have p: "proc_create_ok P ''uncore_pmu''"
    using assms(4) i1 i2(1) i3(1) by (auto simp: uncore_init_def uncore_proc_create_def proc_create_def split: if_splits)
  from start_stage [OF i3(3,2), of P] obtain s0 rep where s0: "uncore_clear_global_pmu P (Some (uncore_pmu_desc s3))
      (s3\<lparr>procs := [''uncore_pmu''], uncore_proc_registed := True\<rparr>) = s0"
    "uncore_report P s0 = Some rep" "devices_ok s0" "delays s0 = []" "\<not> emulation_started s0" "\<not> latency_started s0"
    "box_heap s0 = box_heap s3" "types s0 = types s3" "krefs s0 = krefs s3" "uncore_imc_devices s0 = uncore_imc_devices s3"
    "uncore_pcibus_to_nodeid s0 = uncore_pcibus_to_nodeid s3" .
  have "procs s3 = []" using i3(2) by (simp add: quiet_def)
  with assms(4) i1 i2(1) i3(1) p s0(1,2) have "s = start_emulate_nvm (hswep_ops P, hswep_imc_ops P) P s0"
    by (simp add: uncore_init_def uncore_proc_create_def proc_create_def)
  with i1 i2(1) i3 q1(2,3) i2(4) s0 show ?thesis by (intro that [of s1 s2 s3 s0]) simp_all
qed

section \<open>The boxes and controllers of a machine\<close>

text \<open>What a machine has, from what the kernel enumerates: the devices of a PCI box type and the
  number of boxes of an MSR box type.\<close>

definition machine_devices :: "(u32 \<Rightarrow> u32 \<Rightarrow> pdev list) \<Rightarrow> type_ref \<Rightarrow> pdev list" where
  "machine_devices devs = type_devices devs HSWEP_UNCORE_PCI_TYPE (butlast HSWEP_UNCORE_PCI_IDS)"

definition machine_msr_boxes :: "'h platform \<Rightarrow> type_ref \<Rightarrow> nat" where
  "machine_msr_boxes P t =
     (let n = unat (num_boxes (hswep_types t))
      in if t = Msr_type UNCORE_MSR_CBOX_ID then min n (unat (x86_max_cores P)) else n)"

text \<open>The references the loaded module holds on a device.\<close>

definition machine_refs :: "(u32 \<Rightarrow> u32 \<Rightarrow> pdev list) \<Rightarrow> pdev \<Rightarrow> int" where
  "machine_refs devs d =
     int (count (mset (concat (map (machine_devices devs) HSWEP_UNCORE_PCI_TYPE))) d) +
     int (count (mset (imc_devs devs)) d)"

lemma pci_boxes_devs: "map (\<lambda>b. the (pdev b)) (pci_boxes P m t k ds) = ds"
  by (induction ds arbitrary: k) (simp_all add: pci_box_def)

lemma pci_boxes_lines:
  "map (\<lambda>b. (idx b, nodeid b, f (the (pdev b)))) (pci_boxes P m t k ds) =
     map (\<lambda>(i, d). (of_nat i, m (bus_number P d), f d)) (enumerate k ds)"
  by (induction ds arbitrary: k) (simp_all add: pci_box_def)

lemma cpu_init_layout:
  assumes "x86_model P = 63" "uncore_cpu_init P s = (0, s')"
  shows "layout (types s' t) = layout (types s t)"
    "t \<notin> set HSWEP_UNCORE_MSR_TYPE \<Longrightarrow> types s' t = types s t"
    "uncore_pcibus_to_nodeid s' = uncore_pcibus_to_nodeid s"
    "unat (num_boxes (types s' t)) = cpu_boxes P s t"
proof -
  have l: "layout (types (cpu_prepared P s) t) = layout (types s t)"
    "t \<notin> set HSWEP_UNCORE_MSR_TYPE \<Longrightarrow> types (cpu_prepared P s) t = types s t"
    by (auto simp: cpu_prepared_def types_init_eq hswep_cpu_init_def HSWEP_UNCORE_MSR_TYPE_def Let_def)
  have "msr_added HSWEP_UNCORE_MSR_TYPE (cpu_boxes P s) 0 (cpu_prepared P s) s'"
    using assms(1)
  proof (cases rule: cpu_init_cases [of P s])
    case (ok s'')
    with assms(2) show ?thesis by simp
  qed (use assms(2) in auto)
  then have f: "pmu_frame (cpu_prepared P s) s'" "num_boxes (types s' t) = num_boxes (types (cpu_prepared P s) t)"
    "t \<notin> set HSWEP_UNCORE_MSR_TYPE \<Longrightarrow> types s' t = types (cpu_prepared P s) t"
    by (simp_all add: msr_added_def)
  with l show "layout (types s' t) = layout (types s t)"
    "t \<notin> set HSWEP_UNCORE_MSR_TYPE \<Longrightarrow> types s' t = types s t"
    "uncore_pcibus_to_nodeid s' = uncore_pcibus_to_nodeid s"
    "unat (num_boxes (types s' t)) = cpu_boxes P s t"
    by (simp_all add: pmu_frame_sel [OF f(1)])
qed

lemma pci_init_counted:
  assumes "x86_model P = 63" "enumerates P devs" "uncore_pci_init P junk (emu_loaded h m) = Some (0, s)"
  shows "boxes_counted s t" "t \<notin> set HSWEP_UNCORE_PCI_TYPE \<Longrightarrow> types s t = hswep_types t"
proof -
  have ty: "types (emu_loaded h m) = hswep_types" by (simp add: emu_loaded_def uncore_loaded_def)
  obtain mp where a: "pci_added P (machine_devices devs) 0 (pci_prepared mp (emu_loaded h m)) s"
    using assms(1,2)
  proof (cases rule: pci_init_cases [of P devs junk "emu_loaded h m"])
    case (ok mp s')
    with assms(3) that show ?thesis by (simp add: machine_devices_def)
  qed (use assms(3) in auto)
  have "linked (pci_prepared mp (emu_loaded h m)) t = []" for t
    using loaded_lists(2) [of h m t] pci_prepared_wf(2) [of t mp "emu_loaded h m"]
    by (cases "t \<in> set HSWEP_UNCORE_PCI_TYPE") (simp_all add: linked_def)
  then have "boxes_counted (pci_prepared mp (emu_loaded h m)) t" for t by (simp add: boxes_counted_def)
  with a show "boxes_counted s t" "t \<notin> set HSWEP_UNCORE_PCI_TYPE \<Longrightarrow> types s t = hswep_types t"
    by (simp_all add: pci_added_def ty)
qed

lemma imc_init_devices:
  assumes "x86_model P = 63" "enumerates P devs" "uncore_imc_devices s = []"
    and "uncore_imc_init (hswep_imc_ops P) P s = Some (0, s')"
  shows "uncore_pcibus_to_nodeid s' = uncore_pcibus_to_nodeid s"
    "map (\<lambda>i. (imc_nodeid i, f (imc_pdev i))) (uncore_imc_devices s') =
       map (\<lambda>d. (uncore_pcibus_to_nodeid s (bus_number P d), f d)) (imc_devs devs)"
    "imc_held s' = mset (imc_devs devs)"
proof -
  have "imc_added P (imc_devs devs) 0 (imc_prepared s) s'"
    using assms(1-3)
  proof (cases rule: imc_init_cases [of P devs s])
    case (ok s'')
    with assms(4) show ?thesis by simp
  qed (use assms(4) in auto)
  then obtain a k w where "s' = (imc_prepared s)\<lparr>allocs := a, krefs := k, imc_warned := w,
      uncore_imc_devices := map (imc_of P (imc_prepared s)) (imc_devs devs)\<rparr>"
    using assms(3) by (auto simp: imc_added_def)
  then show "uncore_pcibus_to_nodeid s' = uncore_pcibus_to_nodeid s"
    "map (\<lambda>i. (imc_nodeid i, f (imc_pdev i))) (uncore_imc_devices s') =
       map (\<lambda>d. (uncore_pcibus_to_nodeid s (bus_number P d), f d)) (imc_devs devs)"
    "imc_held s' = mset (imc_devs devs)"
    by (simp_all add: imc_of_def imc_held_def comp_def)
qed

text \<open>The boxes of the state that is reported.\<close>

lemma init_boxes:
  fixes m :: 'm
  assumes "x86_model P = 63" "enumerates P devs" "imc_regs P"
    and "uncore_pci_init P junk (emu_loaded h m) = Some (0, s1)" "known_boxes s1" "no_boxes HSWEP_UNCORE_MSR_TYPE s1"
    and "uncore_cpu_init P s1 = (0, s2)"
  shows "t \<in> set HSWEP_UNCORE_PCI_TYPE \<Longrightarrow>
      view s2 t = pci_boxes P (uncore_pcibus_to_nodeid s2) t 0 (machine_devices devs t)"
    "t \<in> set HSWEP_UNCORE_PCI_TYPE \<Longrightarrow> machine_devices devs t \<noteq> [] \<Longrightarrow>
      num_boxes (types s2 t) = of_nat (length (machine_devices devs t))"
    "t \<in> set HSWEP_UNCORE_MSR_TYPE \<Longrightarrow> view s2 t = map (msr_box t) [0..<machine_msr_boxes P t]"
    "t \<in> set HSWEP_UNCORE_MSR_TYPE \<Longrightarrow> num_boxes (types s2 t) = of_nat (machine_msr_boxes P t)"
    "ty_name (types s2 t) = ty_name (hswep_types t)"
proof -
  note w1 = pci_init_wf [OF assms(1,2,4)]
  note cl = cpu_init_layout [OF assms(1,7)] and pc = pci_init_counted [OF assms(1,2,4)]
  have "no_leak s1" using assms(5) by (simp add: known_boxes_def)
  note cf = cpu_init_facts [OF assms(1,6) this, unfolded assms(7), simplified]
  have sb: "same_boxes HSWEP_UNCORE_PCI_TYPE s1 s2" using cf w1(1) by simp
  show v: "view s2 t = pci_boxes P (uncore_pcibus_to_nodeid s2) t 0 (machine_devices devs t)"
    if "t \<in> set HSWEP_UNCORE_PCI_TYPE" for t
    using pci_init_view [OF assms(1,2,4) that] same_boxes_view [OF sb that] cl(3) by (simp add: machine_devices_def)
  show "num_boxes (types s2 t) = of_nat (length (machine_devices devs t))"
    if t: "t \<in> set HSWEP_UNCORE_PCI_TYPE" "machine_devices devs t \<noteq> []"
  proof -
    have e: "types s2 t = types s1 t" using cl(2) t(1) pci_msr_apart by auto
    have "length (view s2 t) = length (machine_devices devs t)" using v [OF t(1)] by simp
    then have "length (linked s1 t) = length (machine_devices devs t)"
      using same_boxes_linked [OF sb t(1)] by simp
    then show ?thesis using pc(1) [of t] t(2) e by (auto simp: boxes_counted_def)
  qed
  have n: "cpu_boxes P s1 t = machine_msr_boxes P t" if "t \<in> set HSWEP_UNCORE_MSR_TYPE"
  proof -
    have "t \<notin> set HSWEP_UNCORE_PCI_TYPE" using that pci_msr_apart by blast
    then show ?thesis using pc(2) [of t] by (simp add: cpu_boxes_def machine_msr_boxes_def)
  qed
  show "view s2 t = map (msr_box t) [0..<machine_msr_boxes P t]" if "t \<in> set HSWEP_UNCORE_MSR_TYPE"
    using cf that n by simp
  show "num_boxes (types s2 t) = of_nat (machine_msr_boxes P t)" if "t \<in> set HSWEP_UNCORE_MSR_TYPE"
    using cl(4) [of t] n [OF that] by (metis of_nat_unat ucast_id)
  have "layout (types s2 t) = layout (hswep_types t)"
    using cl(1) [of t] pci_init_layout(1) [OF assms(1,2,4), of t] by (simp add: emu_loaded_def uncore_loaded_def)
  from arg_cong [OF this, of ty_name] show "ty_name (types s2 t) = ty_name (hswep_types t)"
    by (simp add: layout_def)
qed

section \<open>Property\<close>

text \<open>How a device is reported when the module holds its references.\<close>

definition machine_line :: "'h platform \<Rightarrow> (u32 \<Rightarrow> u32 \<Rightarrow> pdev list) \<Rightarrow> pdev \<Rightarrow> pdev_info" where
  "machine_line P devs d =
     (bus_number P d, pdev_vendor P d, pdev_device P d,
      bus_number P d, drop_bit 3 (pdev_devfn P d) AND 0x1f, pdev_devfn P d AND 0x7,
      kref_at_load P d + machine_refs devs d)"

lemma machine_line_eq:
  assumes "devices_ok s" "uncore_pci_type s = HSWEP_UNCORE_PCI_TYPE" "imc_held s = mset (imc_devs devs)"
    and "\<And>t. t \<in> set HSWEP_UNCORE_PCI_TYPE \<Longrightarrow> view s t = pci_boxes P m t 0 (machine_devices devs t)"
  shows "pdev_line P s = machine_line P devs"
proof -
  have "map (\<lambda>b. the (pdev b)) (concat (map (view s) HSWEP_UNCORE_PCI_TYPE)) =
      concat (map (machine_devices devs) HSWEP_UNCORE_PCI_TYPE)"
    by (simp add: map_concat comp_def assms(4) pci_boxes_devs cong: map_cong)
  then have "krefs s = machine_refs devs"
    using assms(1,3) by (simp add: devices_ok_def pci_held_def assms(2) machine_refs_def fun_eq_iff)
  then show ?thesis by (simp add: pdev_line_def machine_line_def fun_eq_iff)
qed

text \<open>C2: The report at load is complete and right. When loading succeeds, the report that is printed just before
  the emulation starts is made without touching a freed box, and after the global registers and the CPUs of the nodes
  it lists exactly what the machine has: for each type
  its number of boxes and a line per box, numbered from 0, with the node of its bus; every device with its
  identity and with the references the module holds on it, one for each box and controller.\<close>

theorem load_report:
  fixes m :: 'm
  assumes "x86_model P = 63" "enumerates P devs" "imc_regs P"
    and "uncore_init (hswep_ops P, hswep_imc_ops P) P junk (emu_loaded h m) = Some (0, s)"
  shows "\<exists>s0. s = start_emulate_nvm (hswep_ops P, hswep_imc_ops P) P s0 \<and>
    (let node = \<lambda>d. uncore_pcibus_to_nodeid s0 (bus_number P d) in
      uncore_report P s0 = Some
       (uncore_print_global_pmu P (Some (uncore_pmu_desc s0)) s0, uncore_print_node_info P s0,
        map (\<lambda>t. (ty_name (hswep_types t), of_nat (machine_msr_boxes P t),
            map (\<lambda>i. (of_nat i, 0)) [0..<machine_msr_boxes P t])) HSWEP_UNCORE_MSR_TYPE,
        map (\<lambda>t. (ty_name (hswep_types t), of_nat (length (machine_devices devs t)),
            map (\<lambda>(i, d). (of_nat i, node d, machine_line P devs d)) (enumerate 0 (machine_devices devs t))))
          HSWEP_UNCORE_PCI_TYPE,
        uncore_print_pci_mapping s0, map (\<lambda>d. (node d, machine_line P devs d)) (imc_devs devs)))"
proof -
  from init_steps [OF assms] obtain s1 s2 s3 s0 where i: "uncore_pci_init P junk (emu_loaded h m) = Some (0, s1)"
      "uncore_cpu_init P s1 = (0, s2)" "uncore_imc_init (hswep_imc_ops P) P s2 = Some (0, s3)"
      "s = start_emulate_nvm (hswep_ops P, hswep_imc_ops P) P s0" "devices_ok s0"
    and k: "known_boxes s1" "no_boxes HSWEP_UNCORE_MSR_TYPE s1" "uncore_imc_devices s2 = []"
    and e: "box_heap s0 = box_heap s2" "types s0 = types s2"
      "uncore_pcibus_to_nodeid s0 = uncore_pcibus_to_nodeid s3" "uncore_imc_devices s0 = uncore_imc_devices s3" by metis
  note d = imc_init_devices [OF assms(1,2) k(3) i(3)] and b = init_boxes [OF assms(1-3) i(1) k(1,2) i(2)]
  have v: "view s0 t = view s2 t" "linked s0 t = [] \<longleftrightarrow> view s2 t = []" for t
    using e by (simp_all add: view_def linked_def)
  have t: "uncore_pci_type s0 = HSWEP_UNCORE_PCI_TYPE" "uncore_msr_type s0 = HSWEP_UNCORE_MSR_TYPE"
    using i(5) by (simp_all add: devices_ok_def)
  have l: "pdev_line P s0 = machine_line P devs"
    by (rule machine_line_eq [OF i(5) t(1)]) (use v b(1) d(3) e(4) in \<open>simp_all add: imc_held_def\<close>)
  have "uncore_report P s0 = Some
    (uncore_print_global_pmu P (Some (uncore_pmu_desc s0)) s0, uncore_print_node_info P s0,
     map (\<lambda>t. (ty_name (types s0 t), if linked s0 t = [] then 0 else num_boxes (types s0 t),
        map (\<lambda>b. (idx b, nodeid b)) (view s0 t))) HSWEP_UNCORE_MSR_TYPE,
     map (\<lambda>t. (ty_name (types s0 t), if linked s0 t = [] then 0 else num_boxes (types s0 t),
        map (\<lambda>b. (idx b, nodeid b, machine_line P devs (the (pdev b)))) (view s0 t))) HSWEP_UNCORE_PCI_TYPE,
     uncore_print_pci_mapping s0, uncore_print_imc_devices P s0)"
    using report_safe [of s0 P] i(5) by (simp add: devices_ok_def t l)
  moreover have "map (\<lambda>b. (idx b, nodeid b)) (view s0 t) = map (\<lambda>i. (of_nat i, 0)) [0..<machine_msr_boxes P t]"
    "(if linked s0 t = [] then 0 else num_boxes (types s0 t)) = of_nat (machine_msr_boxes P t)"
    if "t \<in> set HSWEP_UNCORE_MSR_TYPE" for t
    using b(3,4) [OF that] v [of t] e(2) by (auto simp: msr_box_def)
  moreover have "map (\<lambda>b. (idx b, nodeid b, machine_line P devs (the (pdev b)))) (view s0 t) =
      map (\<lambda>(i, d). (of_nat i, uncore_pcibus_to_nodeid s0 (bus_number P d), machine_line P devs d))
        (enumerate 0 (machine_devices devs t))"
    "(if linked s0 t = [] then 0 else num_boxes (types s0 t)) = of_nat (length (machine_devices devs t))"
    if "t \<in> set HSWEP_UNCORE_PCI_TYPE" for t
  proof -
    have "linked s0 t = [] \<longleftrightarrow> machine_devices devs t = []"
      using arg_cong [OF b(1) [OF that], of length] v(2) [of t] by (metis length_0_conv length_pci_boxes)
    then show "(if linked s0 t = [] then 0 else num_boxes (types s0 t)) = of_nat (length (machine_devices devs t))"
      using b(2) [OF that] e(2) by simp
  qed (simp add: v b(1) [OF that] pci_boxes_lines e(3) d(1))
  ultimately show ?thesis
    using i(4) d(2) [where f = "machine_line P devs"] e(3,4) d(1) b(5)
    by (intro exI [of _ s0]) (simp add: Let_def uncore_print_imc_devices_def l e(2) cong: map_cong)
qed

lemma load_report_witness:
  "\<exists>s0 s. uncore_init (hswep_ops ref_platform, hswep_imc_ops ref_platform) ref_platform 0 (emu_loaded ref_hw0 ()) = Some (0, s) \<and>
     s = start_emulate_nvm (hswep_ops ref_platform, hswep_imc_ops ref_platform) ref_platform s0 \<and>
     (\<exists>glob nodes msr pci buses. uncore_report ref_platform s0 = Some (glob, nodes, msr, pci, buses,
       [(uncore_pcibus_to_nodeid s0 127, 127, 0x8086, 0x2FB4, 127, 3, 0, 6),
        (uncore_pcibus_to_nodeid s0 255, 255, 0x8086, 0x2FB4, 255, 6, 0, 6)]))"
proof -
  obtain s where i: "uncore_init (hswep_ops ref_platform, hswep_imc_ops ref_platform) ref_platform 0 (emu_loaded ref_hw0 ()) = Some (0, s)"
    using ref_module by blast
  have d: "imc_devs ref_devs = [3, 6]" by code_simp
  have r: "machine_refs ref_devs 3 = 2" "machine_refs ref_devs 6 = 2" by code_simp+
  have n: "pdev_device ref_platform 3 = 0x2FB4" "pdev_device ref_platform 6 = 0x2FB4"
    by (simp_all add: ref_platform_def ref_devices_def)
  have b: "ref_bus 3 = 127" "ref_bus 6 = 255" by (simp_all add: ref_bus_def)
  from load_report [OF _ ref_enumerates ref_imc_regs i] obtain s0 where s0:
    "s = start_emulate_nvm (hswep_ops ref_platform, hswep_imc_ops ref_platform) ref_platform s0"
    "\<exists>glob nodes msr pci buses. uncore_report ref_platform s0 = Some (glob, nodes, msr, pci, buses,
       map (\<lambda>d. (uncore_pcibus_to_nodeid s0 (bus_number ref_platform d), machine_line ref_platform ref_devs d)) (imc_devs ref_devs))"
    by (auto simp: Let_def)
  show ?thesis
    by (rule exI [of _ s0], rule exI [of _ s]) (use i s0 in \<open>simp add: d machine_line_def r n b\<close>)
qed

end
