(* ===== verification/Emulation_Session.thy ===== *)
theory Emulation_Session
  imports Module_Report
begin

text \<open>
  From the load of the module to the delays: the state that \<open>uncore_init\<close> leaves when the emulation
  has started is one in which the home agent of node 1 counts from zero with its timer queued, so
  every remote read from then on is charged to the emulated CPU.
\<close>

section \<open>The box types through the initialisation\<close>

text \<open>The contract of a counting home agent is about its registers and methods only.\<close>

lemma layout_emulation:
  assumes "layout ty = layout ty'" "emulation P d ty' cpu box tick target up"
  shows "emulation P d ty cpu box tick target up"
proof -
  have b: "hswep_pci_box P d ty' box" using assms(2) by (simp add: emulation_def hswep_pci_counting_def)
  note b' = layout_pci_box [OF assms(1) b]
  have r: "uncore_read_counter (hswep_ops P) cpu ty box h 0 = uncore_read_counter (hswep_ops P) cpu ty' box h 0" for h
    by (simp add: hswep_pci_box.api_simps [OF b] hswep_pci_box.api_simps [OF b']
        hswep_pci_box.read_eq [OF b] hswep_pci_box.read_eq [OF b'] layout_sel [OF assms(1)])
  have f: "hswep_pci_box.frozen_pci P d ty = hswep_pci_box.frozen_pci P d ty'"
    by (simp add: fun_eq_iff hswep_pci_box.frozen_pci_def [OF b] hswep_pci_box.frozen_pci_def [OF b'] layout_sel [OF assms(1)])
  from assms(2) show ?thesis
    by (simp add: emulation_def hswep_pci_counting_def hswep_pci_counting_axioms_def b' r f layout_sel [OF assms(1)])
qed

section \<open>The state in which the emulation starts\<close>

text \<open>The home agents the kernel enumerates.\<close>

abbreviation home_agents :: "(u32 \<Rightarrow> u32 \<Rightarrow> pdev list) \<Rightarrow> pdev list" where
  "home_agents devs \<equiv> type_devices devs HSWEP_UNCORE_PCI_TYPE (butlast HSWEP_UNCORE_PCI_IDS) HA_type"

definition ready :: "'h platform \<Rightarrow> pdev set \<Rightarrow> ('h, 'm) emu_st_scheme \<Rightarrow> bool" where
  "ready P ds s \<longleftrightarrow> wf_boxes True HSWEP_UNCORE_PCI_TYPE s \<and> uncore_pci_type s = HSWEP_UNCORE_PCI_TYPE \<and>
     \<not> emulation_started s \<and> \<not> latency_started s \<and> delays s = [] \<and>
     layout (types s HA_type) = layout HSWEP_UNCORE_HA \<and>
     (\<forall>b \<in> set (view s HA_type). \<exists>d \<in> ds. pdev b = Some d)"

lemma pci_boxes_dev: "b \<in> set (pci_boxes P m t k ds) \<Longrightarrow> \<exists>d \<in> set ds. pdev b = Some d"
  by (induction ds arbitrary: k) (auto simp: pci_box_def)

lemma init_starts:
  fixes m :: 'm
  assumes "x86_model P = 63" "enumerates P devs" "imc_regs P"
    and "uncore_init (hswep_ops P, hswep_imc_ops P) P junk (emu_loaded h m) = Some (0, s)"
  shows "\<exists>s0 s1. s = start_emulate_nvm (hswep_ops P, hswep_imc_ops P) P s0 \<and> ready P (set (home_agents devs)) s0 \<and>
    uncore_pci_init P junk (emu_loaded h m) = Some (0, s1) \<and> view s0 HA_type = view s1 HA_type"
proof -
  from init_steps [OF assms] obtain s1 s2 s0 where i: "uncore_pci_init P junk (emu_loaded h m) = Some (0, s1)"
      "uncore_cpu_init P s1 = (0, s2)" "s = start_emulate_nvm (hswep_ops P, hswep_imc_ops P) P s0" "devices_ok s0"
    and k: "known_boxes s1" "no_boxes HSWEP_UNCORE_MSR_TYPE s1"
    and e: "box_heap s0 = box_heap s2" "types s0 = types s2" "delays s0 = []" "\<not> emulation_started s0" "\<not> latency_started s0"
    by metis
  have "no_leak s1" using k(1) by (simp add: known_boxes_def)
  note cf = cpu_init_facts [OF assms(1) k(2) this, unfolded i(2), simplified]
  have "view s2 HA_type = view s1 HA_type"
    using cf pci_init_wf(1) [OF assms(1,2) i(1)] ha_type(1) by (blast intro: same_boxes_view)
  then have v: "view s0 HA_type = view s1 HA_type" using e(1,2) by (simp add: view_def linked_def)
  moreover have "layout (types s0 HA_type) = layout HSWEP_UNCORE_HA"
    using cpu_init_layout(1) [OF assms(1) i(2), of HA_type] pci_init_layout(1) [OF assms(1,2) i(1), of HA_type] e(2)
    by (simp add: emu_loaded_def loaded_ha_type)
  moreover have "\<forall>b \<in> set (view s1 HA_type). \<exists>d \<in> set (home_agents devs). pdev b = Some d"
    using pci_init_view [OF assms(1,2) i(1) ha_type(1)] pci_boxes_dev by fastforce
  ultimately have "ready P (set (home_agents devs)) s0"
    using i(4) e by (simp add: ready_def devices_ok_def)
  with i v show ?thesis by blast
qed

lemma ready_prepared: "ready P ds s \<Longrightarrow> ready P ds (prepared P h s)"
proof -
  assume r: "ready P ds s"
  have "wf_boxes True HSWEP_UNCORE_PCI_TYPE (prepared P h s)"
    by (rule wf_boxes_cong [OF _ _ _ conjunct1 [OF r [unfolded ready_def]]]) simp_all
  with r show ?thesis by (simp add: ready_def view_def linked_def)
qed

text \<open>When the emulation has started, the last thing that happened is the start of the latency model.\<close>

lemma started_latency:
  fixes s :: "('h, 'm) emu_st_scheme"
  assumes "imc_regs P" "ready P ds s" "emulation_started (start_emulate_nvm (T, hswep_imc_ops P) P s)"
  shows "\<exists>s3 s4. start_emulate_nvm (T, hswep_imc_ops P) P s = s4\<lparr>emulation_started := True\<rparr> \<and>
    start_emulate_latency T P s3 = (0, s4) \<and> ready P ds s3 \<and> read_latency_delta_ns s3 = 200 \<and>
    emulate_nvm_cpu s3 = 0 \<and> emulate_nvm_hrtimer_duration_ns s3 = 100000000"
proof -
  have n: "\<not> emulation_started s" using assms(2) by (simp add: ready_def)
  have "proc_create_ok P ''emulate_nvm'' \<and> this_cpu P = 6"
  proof (rule ccontr)
    assume "\<not> ?thesis"
    from start_refused [OF this, of "(T, hswep_imc_ops P)" s] assms(3) n show False by auto
  qed
  then obtain h where st: "start_emulate_nvm (T, hswep_imc_ops P) P s =
    (case start_emulate_latency T P (prepared P h s) of (ret, s) \<Rightarrow>
       if ret \<noteq> 0 then emulate_nvm_proc_remove (restore_platform_configuration P
         (finish_emulate_bandwidth (hswep_imc_ops P) P s))
       else s\<lparr>emulation_started := True\<rparr>)"
    using start_goes_on [OF assms(1), of T s] by blast
  have r: "ready P ds (prepared P h s)" by (rule ready_prepared [OF assms(2)])
  then have w: "wf_boxes True HSWEP_UNCORE_PCI_TYPE (prepared P h s)"
    "uncore_pci_type (prepared P h s) = HSWEP_UNCORE_PCI_TYPE"
    by (simp_all only: ready_def)
  from w show ?thesis
  proof (cases rule: start_latency_module [of "prepared P h s" T P])
    case (none b0 b1)
    with start_undone [OF assms(1), of "(prepared P h s)\<lparr>HA_Box_0 := b0, HA_Box_1 := b1\<rparr>" "procs s"] assms(3) st n
    show ?thesis by auto
  next
    case ok
    with r st show ?thesis by (intro exI [of _ "prepared P h s"] exI) simp
  qed
qed

lemma ready_emulation:
  assumes "ready P ds s" "d \<in> ds" "pdev b = Some d"
    and ha: "\<And>d box. d \<in> ds \<Longrightarrow> emulation P d HSWEP_UNCORE_HA (this_cpu P) (box\<lparr>pdev := Some d\<rparr>) (tick d) target up"
  shows "emulation P d (types s HA_type) (this_cpu P) b (tick d) target up"
proof -
  have "b\<lparr>pdev := Some d\<rparr> = b" using assms(3) by (cases b) simp
  with ha [OF assms(2), of b] layout_emulation [of "types s HA_type" HSWEP_UNCORE_HA] assms(1) show ?thesis
    by (simp add: ready_def)
qed

lemma ready_works:
  assumes "ready P ds s"
    and ha: "\<And>d box. d \<in> ds \<Longrightarrow> emulation P d HSWEP_UNCORE_HA (this_cpu P) (box\<lparr>pdev := Some d\<rparr>) (tick d) target up"
  shows "ha_boxes_work P s"
  unfolding ha_boxes_work_def
proof
  fix b assume "b \<in> set (view s HA_type)"
  then obtain d where "d \<in> ds" "pdev b = Some d" using assms(1) by (auto simp: ready_def)
  from ready_emulation [OF assms(1) this ha]
  show "\<exists>d. hswep_pci_box P d (types s HA_type) b" by (auto simp: emulation_def hswep_pci_counting_def)
qed

text \<open>On working home agents the session then starts with a counter of 0.\<close>

lemma latency_session_starts:
  assumes "ready P ds s" "start_emulate_latency (hswep_ops P) P s = (0, s')"
    and ha: "\<And>d box. d \<in> ds \<Longrightarrow> emulation P d HSWEP_UNCORE_HA (this_cpu P) (box\<lparr>pdev := Some d\<rparr>) (tick d) target up"
  shows "\<exists>a b d. HA_Box_1 s' = Some a \<and> box_heap s' a = Some b \<and> nodeid b = 1 \<and> pdev b = Some d \<and>
    hrtimer b = \<lparr>hr_function = Some Emulate_nvm_hrtimer, hr_queued = Some (emulate_nvm_hrtimer_duration_ns s)\<rparr> \<and>
    d \<in> ds \<and> emulation P d (types s' (box_type b)) (this_cpu P) b (tick d) target up \<and>
    uncore_read_counter (hswep_ops P) (this_cpu P) (types s' (box_type b)) b (world s') 0 = 0 \<and>
    \<not> bit (pci_val P (world s') d (box_ctl (types s' (box_type b)))) 8"
proof -
  note r = assms(1) [unfolded ready_def]
  then have w: "wf_boxes True HSWEP_UNCORE_PCI_TYPE s" "uncore_pci_type s = HSWEP_UNCORE_PCI_TYPE"
    by simp_all
  note em = ready_emulation [OF assms(1) _ _ ha]
  from start_latency_facts [OF w ready_works [OF assms(1) ha]] assms(2) obtain a b d where f: "HA_Box_1 s' = Some a" "box_heap s a = Some b"
      "nodeid b = 1" "pdev b = Some d" "box_heap s' = (box_heap s)(a := Some (emulating (emulate_nvm_hrtimer_duration_ns s) b))"
      "uncore_read_counter (hswep_ops P) (this_cpu P) (types s HA_type) b (world s') 0 = 0"
      "\<not> bit (pci_val P (world s') d (box_ctl (types s HA_type))) 8"
    by (auto split: if_splits)
  have s': "types s' = types s \<and> a \<in> set (linked s HA_type)"
    by (cases rule: start_latency_module [OF w, of "hswep_ops P" P]) (use assms(2) f(1) in auto)
  then have "b \<in> set (view s HA_type)" "box_type b = HA_type"
    using f(2) wf_boxesD(5) [OF w(1) ha_type(1), of a] by (auto simp: view_def box_ok_def image_iff intro!: bexI [of _ a])
  then have d: "d \<in> ds" using r f(4) by auto
  let ?b = "emulating (emulate_nvm_hrtimer_duration_ns s) b"
  have "pdev ?b = Some d" "box_type ?b = HA_type" "idx ?b = idx b" "nodeid ?b = 1"
    using f(3,4) \<open>box_type b = HA_type\<close> by (simp_all add: emulating_def)
  moreover have "uncore_read_counter (hswep_ops P) (this_cpu P) (types s HA_type) ?b (world s') 0 = 0"
    using f(6) by (simp only: method_box(6) [of ?b b, OF \<open>idx ?b = idx b\<close>] \<open>pdev ?b = Some d\<close> f(4))
  ultimately show ?thesis using f(1,5,7) s' d em [OF d, of ?b]
    by - (rule exI [of _ a], rule exI [of _ ?b], rule exI [of _ d], simp add: emulating_def)
qed

text \<open>The emulation starts when its /proc entry can be made, the module is loaded on CPU 6 and both
  nodes have a home agent.\<close>

lemma start_succeeds:
  fixes s :: "('h, 'm) emu_st_scheme"
  assumes "imc_regs P" "ready P ds s" "proc_create_ok P ''emulate_nvm''" "this_cpu P = 6"
    and n: "\<And>n. n \<in> {0, 1} \<Longrightarrow> \<exists>b \<in> set (view s HA_type). nodeid b = n"
    and ha: "\<And>d box. d \<in> ds \<Longrightarrow> emulation P d HSWEP_UNCORE_HA (this_cpu P) (box\<lparr>pdev := Some d\<rparr>) (tick d) target up"
  shows "emulation_started (start_emulate_nvm (hswep_ops P, hswep_imc_ops P) P s)"
proof -
  obtain h where st: "start_emulate_nvm (hswep_ops P, hswep_imc_ops P) P s =
    (case start_emulate_latency (hswep_ops P) P (prepared P h s) of (ret, s) \<Rightarrow>
       if ret \<noteq> 0 then emulate_nvm_proc_remove (restore_platform_configuration P
         (finish_emulate_bandwidth (hswep_imc_ops P) P s))
       else s\<lparr>emulation_started := True\<rparr>)"
    using start_goes_on [OF assms(1,3,4), of "hswep_ops P" s] .
  have r: "ready P ds (prepared P h s)" by (rule ready_prepared [OF assms(2)])
  then have w: "wf_boxes True HSWEP_UNCORE_PCI_TYPE (prepared P h s)"
    "uncore_pci_type (prepared P h s) = HSWEP_UNCORE_PCI_TYPE"
    by (simp_all only: ready_def)
  have "view (prepared P h s) HA_type = view s HA_type" by (simp add: view_def linked_def)
  then obtain s4 where "start_emulate_latency (hswep_ops P) P (prepared P h s) = (0, s4)"
    using start_latency_facts [OF w ready_works [OF r ha]] n [of 0] n [of 1] by (fastforce split: prod.splits if_splits)
  with st show ?thesis by simp
qed

section \<open>A machine\<close>

text \<open>The reference machine with CPUs that always answer: the rest of it is as before.\<close>

definition ref_always :: "ref_hw platform" where
  "ref_always = ref_platform\<lparr>smp_status := \<lambda>h c. 0\<rparr>"

lemma ref_always_sel [simp]:
  "pci_read_config_dword ref_always = pci_read_config_dword ref_platform"
  "pci_write_config_dword ref_always = pci_write_config_dword ref_platform"
  "pci_read_config_word ref_always = pci_read_config_word ref_platform"
  "pci_write_config_word ref_always = pci_write_config_word ref_platform"
  "pci_next ref_always = pci_next ref_platform" "kzalloc_ok ref_always k" "proc_create_ok ref_always nm"
  "x86_model ref_always = 63" "this_cpu ref_always = 6" "smp_status ref_always h c = 0"
  "bus_number ref_always = bus_number ref_platform"
  by (simp_all add: ref_always_def)

lemma ref_always_pci: "pci_val ref_always = pci_val ref_platform"
  by (simp add: fun_eq_iff pci_val_def)

lemma ref_always_basics:
  "enumerates ref_always ref_devs" "imc_regs ref_always" "answers ref_always h d"
proof -
  show "enumerates ref_always ref_devs" using ref_enumerates by (simp add: enumerates_def)
  have "dimm ref_always = dimm ref_platform" by (simp add: fun_eq_iff dimm_def)
  then show "imc_regs ref_always" using ref_imc_regs by (simp add: imc_regs_def)
  show "answers ref_always h d" using ref_answers [of h d] by (simp add: answers_def ref_always_pci)
qed

lemma ref_always_ha: "emulation ref_always d HSWEP_UNCORE_HA cpu (box\<lparr>pdev := Some d\<rparr>) (ref_tick d) target (\<lambda>h. True)"
proof -
  let ?b = "box\<lparr>pdev := Some d\<rparr>"
  have e: "emulation ref_platform d HSWEP_UNCORE_HA cpu ?b (ref_tick d) target (\<lambda>h. target < 12 \<and> online h target)"
    by (rule ref_emulation.emulation_axioms)
  then have b: "hswep_pci_box ref_platform d HSWEP_UNCORE_HA ?b" by (simp add: emulation_def hswep_pci_counting_def)
  then have b': "hswep_pci_box ref_always d HSWEP_UNCORE_HA ?b"
    by (simp add: hswep_pci_box_def pmon_pci_def ref_always_pci)
  have r: "uncore_read_counter (hswep_ops ref_always) cpu HSWEP_UNCORE_HA ?b h 0 =
      uncore_read_counter (hswep_ops ref_platform) cpu HSWEP_UNCORE_HA ?b h 0" for h
    by (simp add: hswep_pci_box.api_simps [OF b] hswep_pci_box.api_simps [OF b']
        hswep_pci_box.read_eq [OF b] hswep_pci_box.read_eq [OF b'] ref_always_pci)
  have f: "hswep_pci_box.frozen_pci ref_always d HSWEP_UNCORE_HA = hswep_pci_box.frozen_pci ref_platform d HSWEP_UNCORE_HA"
    by (simp add: fun_eq_iff hswep_pci_box.frozen_pci_def [OF b] hswep_pci_box.frozen_pci_def [OF b'] ref_always_pci)
  from e show ?thesis
    by (simp add: emulation_def emulation_axioms_def hswep_pci_counting_def hswep_pci_counting_axioms_def b' r f ref_always_pci)
qed

lemma ref_always_started:
  "\<exists>s. uncore_init (hswep_ops ref_always, hswep_imc_ops ref_always) ref_always 0 (emu_loaded ref_hw0 ()) = Some (0, s) \<and>
     emulation_started s"
proof -
  have u: "ref_devs PCI_VENDOR_ID_INTEL 0x2F1E = [1, 4]"
    by (simp add: ref_devs_def PCI_VENDOR_ID_INTEL_def ref_devices_def)
  obtain s where i: "uncore_init (hswep_ops ref_always, hswep_imc_ops ref_always) ref_always 0 (emu_loaded ref_hw0 ()) = Some (0, s)"
    using init_module_ok [OF _ ref_always_basics(1,2), where junk = 0 and h = ref_hw0 and m = "()"] by (auto simp: u ref_always_basics(3))
  obtain s0 s1 where s0: "s = start_emulate_nvm (hswep_ops ref_always, hswep_imc_ops ref_always) ref_always s0"
    "ready ref_always (set (home_agents ref_devs)) s0"
    "uncore_pci_init ref_always 0 (emu_loaded ref_hw0 ()) = Some (0, s1)" "view s0 HA_type = view s1 HA_type"
    using init_starts [OF _ ref_always_basics(1,2) i] by auto
  have m: "uncore_pcibus_to_nodeid s1 = fold (map_bus ref_always ref_hw0) [1, 4]
      (uncore_pcibus_to_nodeid (emu_loaded ref_hw0 ()))"
    using pci_init_ok [OF _ ref_always_basics(1), of "emu_loaded ref_hw0 ()" 0] s0(3)
    by (auto simp: ref_always_basics(3) u)
  have n: "node_of_mapping 0 8 = Some 0" "node_of_mapping 1 8 = Some 1" by code_simp+
  have "uncore_pcibus_to_nodeid s1 127 = 0" "uncore_pcibus_to_nodeid s1 255 = 1"
    by (simp_all add: m map_bus_def ref_always_pci ref_pci_defs ref_hw0_def n ref_bus_def)
  with pci_init_view [OF _ ref_always_basics(1) s0(3) ha_type(1)] s0(4)
  have v: "map nodeid (view s0 HA_type) = [0, 1]"
    by (simp add: ref_ha_devices pci_box_def ref_bus_def UNCORE_PCI_HA_ID_def)
  then have "nodeid ` set (view s0 HA_type) = {0, 1}"
    by (metis list.set_map list.simps(15) list.set(1))
  then have "\<exists>b \<in> set (view s0 HA_type). nodeid b = n" if "n \<in> {0, 1}" for n
    using that by (metis imageE)
  from start_succeeds [OF ref_always_basics(2) s0(2) _ _ this ref_always_ha] s0(1) have "emulation_started s" by simp
  with i show ?thesis by blast
qed

section \<open>The whole program\<close>

text \<open>C1: From loading the module to the delays. If loading has started the emulation, the timer of a home
  agent of node 1 is queued, and over any session that follows, in which the counter does not overflow within a
  period: each run of the timer delays CPU 0 once, by 200 ns for each remote read it sampled, in
  microseconds, and the sampled numbers together with those still in the counter are exactly the
  remote reads that happened since the module was loaded.\<close>

theorem emulation_end_to_end:
  fixes m :: 'm
  assumes "x86_model P = 63" "enumerates P devs" "imc_regs P"
    and ha: "\<And>d box. d \<in> set (home_agents devs) \<Longrightarrow>
      emulation P d HSWEP_UNCORE_HA (this_cpu P) (box\<lparr>pdev := Some d\<rparr>) (tick d) 0 up"
    and "uncore_init (hswep_ops P, hswep_imc_ops P) P junk (emu_loaded h m) = Some (0, s)"
    and "emulation_started s" "up (world s)" "no_overflow xs 0"
  shows "\<exists>a b d cs. HA_Box_1 s = Some a \<and> box_heap s a = Some b \<and> nodeid b = 1 \<and> pdev b = Some d \<and>
    d \<in> set (home_agents devs) \<and>
    hrtimer b = \<lparr>hr_function = Some Emulate_nvm_hrtimer, hr_queued = Some 100000000\<rparr> \<and>
    (let s' = emu_run (hswep_ops P) P (tick d) a xs s in
      length cs = samples xs \<and> delays s' = map (\<lambda>c. (0, of_nat (c * 200 div 1000))) (rev cs) \<and>
      sum_list cs + unat (uncore_read_counter (hswep_ops P) (this_cpu P) (types s (box_type b)) b (world s') 0) =
        counted xs)"
proof -
  obtain s0 where s0: "s = start_emulate_nvm (hswep_ops P, hswep_imc_ops P) P s0" "ready P (set (home_agents devs)) s0"
    using init_starts [OF assms(1-3,5)] by blast
  from started_latency [OF assms(3) s0(2)] assms(6) s0(1) obtain s3 s4 where
    s: "s = s4\<lparr>emulation_started := True\<rparr>" "start_emulate_latency (hswep_ops P) P s3 = (0, s4)"
    and r: "ready P (set (home_agents devs)) s3" "read_latency_delta_ns s3 = 200"
      "emulate_nvm_cpu s3 = 0" "emulate_nvm_hrtimer_duration_ns s3 = 100000000" by blast
  have k: "delays s4 = []" "read_latency_delta_ns s4 = 200" "emulate_nvm_cpu s4 = 0"
    by (cases rule: start_latency_module [of s3 "hswep_ops P" P]; use r s(2) in \<open>auto simp: ready_def\<close>)+
  from latency_session_starts [OF r(1) s(2) ha] r(4) obtain a b d where f: "HA_Box_1 s = Some a" "box_heap s a = Some b"
    "nodeid b = 1" "pdev b = Some d" "hrtimer b = \<lparr>hr_function = Some Emulate_nvm_hrtimer, hr_queued = Some 100000000\<rparr>"
    "d \<in> set (home_agents devs)" "emulation P d (types s (box_type b)) (this_cpu P) b (tick d) 0 up"
    "uncore_read_counter (hswep_ops P) (this_cpu P) (types s (box_type b)) b (world s) 0 = 0"
    "\<not> bit (pci_val P (world s) d (box_ctl (types s (box_type b)))) 8"
    unfolding s(1) by auto
  have "\<not> hswep_pci_box.frozen_pci P d (types s (box_type b)) (world s)"
    using f(9) by (simp add: pci_counting_frozen [OF f(7)])
  from emulation.delays_account [OF f(7) refl f(2) refl this _ assms(7), of xs] f(8) k assms(8)
  obtain cs where "let s' = emu_run (hswep_ops P) P (tick d) a xs s in
      length cs = samples xs \<and> delays s' = map (\<lambda>c. (0, of_nat (c * 200 div 1000))) (rev cs) \<and>
      sum_list cs + unat (uncore_read_counter (hswep_ops P) (this_cpu P) (types s (box_type b)) b (world s') 0) = counted xs"
    by (auto simp: s(1) Let_def)
  with f show ?thesis by blast
qed

lemma emulation_end_to_end_witness:
  "\<exists>s a d cs. uncore_init (hswep_ops ref_always, hswep_imc_ops ref_always) ref_always 0 (emu_loaded ref_hw0 ()) = Some (0, s) \<and>
     HA_Box_1 s = Some a \<and> d \<in> {2, 5} \<and> length cs = 2 \<and> sum_list cs \<le> 1017 \<and>
     delays (emu_run (hswep_ops ref_always) ref_always (ref_tick d) a [Count 1000, Sample, Count 10, Sample, Count 7] s) =
       map (\<lambda>c. (0, of_nat (c * 200 div 1000))) (rev cs)"
proof -
  obtain s where i: "uncore_init (hswep_ops ref_always, hswep_imc_ops ref_always) ref_always 0 (emu_loaded ref_hw0 ()) = Some (0, s)"
    "emulation_started s" using ref_always_started by blast
  from emulation_end_to_end [OF _ ref_always_basics(1,2) ref_always_ha i, of "[Count 1000, Sample, Count 10, Sample, Count 7]"]
  obtain a b d cs where r: "HA_Box_1 s = Some a" "d \<in> set (home_agents ref_devs)" "length cs = Suc (Suc 0)"
    "delays (emu_run (hswep_ops ref_always) ref_always (ref_tick d) a [Count 1000, Sample, Count 10, Sample, Count 7] s) =
       map (\<lambda>c. (0, of_nat (c * 200 div 1000))) (rev cs)"
    "sum_list cs + unat (uncore_read_counter (hswep_ops ref_always) (this_cpu ref_always) (types s (box_type b)) b
       (world (emu_run (hswep_ops ref_always) ref_always (ref_tick d) a [Count 1000, Sample, Count 10, Sample, Count 7] s)) 0) = 1017"
    by (auto simp: Let_def simp del: emu_run.simps)
  then have "sum_list cs \<le> 1017" "d \<in> {2, 5}" by (simp_all add: ref_ha_devices UNCORE_PCI_HA_ID_def)
  moreover have "length cs = 2" using r(3) by simp
  ultimately show ?thesis using r(1,4) i(1) by blast
qed

end
