(* ===== verification/Module_Types.thy ===== *)
theory Module_Types
  imports Emulation_Session
begin

text \<open>
  The pointers of the loaded module are well typed. C leaves three agreements unchecked: that a box
  points to a static type of the table that made it, that the ops table of this type is of its kind,
  and that the PCI methods, which access a box through its device, are called on boxes that
  have one. They are the typing of a box, established by \<open>uncore_init\<close> and kept by every event.
\<close>

definition box_typed :: "'h platform \<Rightarrow> (type_ref \<Rightarrow> uncore_box_type) \<Rightarrow> uncore_box \<Rightarrow> bool" where
  "box_typed P ty b \<longleftrightarrow>
     (case box_type b of
        Pci_type i \<Rightarrow> i < length HSWEP_UNCORE_PCI_BOXES \<and> pdev b \<noteq> None \<and>
          hswep_ops P (ops (ty (box_type b))) = HSWEP_UNCORE_PCI_BOX_OPS P
      | Msr_type i \<Rightarrow> i < length HSWEP_UNCORE_MSR_BOXES \<and> pdev b = None \<and>
          hswep_ops P (ops (ty (box_type b))) = HSWEP_UNCORE_MSR_BOX_OPS P) \<and>
     layout (ty (box_type b)) = layout (hswep_types (box_type b))"

lemma static_types_typed:
  "t \<in> set HSWEP_UNCORE_PCI_TYPE \<Longrightarrow> \<exists>i < length HSWEP_UNCORE_PCI_BOXES. t = Pci_type i \<and> \<not> is_msr_ops (ops (hswep_types t))"
  "t \<in> set HSWEP_UNCORE_MSR_TYPE \<Longrightarrow> \<exists>i < length HSWEP_UNCORE_MSR_BOXES. t = Msr_type i \<and> is_msr_ops (ops (hswep_types t))"
  by (auto simp: HSWEP_UNCORE_PCI_TYPE_def HSWEP_UNCORE_MSR_TYPE_def pci_id_defs msr_id_defs hswep_types_def
      HSWEP_UNCORE_PCI_BOXES_def HSWEP_UNCORE_MSR_BOXES_def pci_type_defs msr_type_defs is_msr_ops_def)

lemma module_boxes_typed:
  assumes "module_ok s" "\<And>t. layout (types s t) = layout (hswep_types t)" "box_heap s a = Some b"
  shows "box_typed P (types s) b"
proof -
  note m = assms(1) [unfolded module_ok_def]
  have a: "a \<in> set (linked s (box_type b))"
    using m assms(3) by (auto simp: known_boxes_def no_leak_def)
  then have "box_type b \<in> set HSWEP_UNCORE_PCI_TYPE \<or> box_type b \<in> set HSWEP_UNCORE_MSR_TYPE"
    using m by (auto simp: known_boxes_def)
  then show ?thesis
  proof
    assume t: "box_type b \<in> set HSWEP_UNCORE_PCI_TYPE"
    then have "box_ok True s (box_type b) a" using m a by (blast dest: wf_boxesD(5))
    with static_types_typed(1) [OF t] assms(2,3) layout_sel(6) [OF assms(2), of "box_type b"] show ?thesis
      by (auto simp: box_typed_def box_ok_def hswep_ops_eq)
  next
    assume t: "box_type b \<in> set HSWEP_UNCORE_MSR_TYPE"
    then have "box_ok False s (box_type b) a" using m a by (blast dest: wf_boxesD(5))
    with static_types_typed(2) [OF t] assms(2,3) layout_sel(6) [OF assms(2), of "box_type b"] show ?thesis
      by (auto simp: box_typed_def box_ok_def hswep_ops_eq)
  qed
qed

lemma init_layout:
  fixes m :: 'm
  assumes "x86_model P = 63" "enumerates P devs" "imc_regs P"
    and "uncore_init (hswep_ops P, hswep_imc_ops P) P junk (emu_loaded h m) = Some (0, s)"
  shows "layout (types s t) = layout (hswep_types t)"
proof -
  from init_steps [OF assms] obtain s1 s2 s0 where i: "uncore_pci_init P junk (emu_loaded h m) = Some (0, s1)"
      "uncore_cpu_init P s1 = (0, s2)" "s = start_emulate_nvm (hswep_ops P, hswep_imc_ops P) P s0" "devices_ok s0"
      "types s0 = types s2" "\<not> emulation_started s0" "\<not> latency_started s0" by metis
  have "types s = types s0"
    using start_emulate_module [OF assms(3) _ _ i(6,7)] i(4) by (simp add: i(3) devices_ok_def emu_frame_def)
  then show ?thesis
    using cpu_init_layout(1) [OF assms(1) i(2), of t] pci_init_layout(1) [OF assms(1,2) i(1), of t] i(5)
    by (simp add: emu_loaded_def uncore_loaded_def)
qed

text \<open>C6: Type safety. However long the module has run, every box that is alive is of a type of the static tables, with
  the registers of that table; a box of a PCI type has a device and the PCI methods, a box of an MSR type has
  no device and the MSR methods, so no method is missing and none follows a \<open>NULL\<close> device; and the boxes
  the emulation holds are alive and home agents.\<close>

theorem boxes_well_typed:
  fixes m :: 'm
  assumes "x86_model P = 63" "enumerates P devs" "imc_regs P"
    and "uncore_init (hswep_ops P, hswep_imc_ops P) P junk (emu_loaded h m) = Some (0, s)"
    and "module_run (hswep_ops P, hswep_imc_ops P) P s s'"
  shows "(\<forall>a b. box_heap s' a = Some b \<longrightarrow> box_typed P (types s') b) \<and>
    (emulation_started s' \<longrightarrow> (\<forall>p \<in> {HA_Box_0 s', HA_Box_1 s'}. \<exists>a b. p = Some a \<and> box_heap s' a = Some b \<and>
       box_type b = Pci_type UNCORE_PCI_HA_ID))"
proof -
  have ok: "module_ok s" using init_module [OF assms(1-3), of junk h m] assms(4) by auto
  note run = run_module [OF assms(3) ok assms(5)]
  note m = run(1) [unfolded module_ok_def]
  have "layout (types s' t) = layout (hswep_types t)" for t
    using init_layout [OF assms(1-4)] run(2) by simp
  note typed = module_boxes_typed [OF run(1) this]
  have "\<exists>b. box_heap s' a = Some b \<and> box_type b = Pci_type UNCORE_PCI_HA_ID" if "a \<in> set (linked s' HA_type)" for a
    using m that ha_type(1) wf_boxesD(5) [of True HSWEP_UNCORE_PCI_TYPE s' HA_type a] by (auto simp: box_ok_def)
  with m typed show ?thesis by auto
qed

lemma boxes_well_typed_witness:
  "\<exists>s a b. uncore_init (hswep_ops ref_always, hswep_imc_ops ref_always) ref_always 0 (emu_loaded ref_hw0 ()) = Some (0, s) \<and>
     HA_Box_1 s = Some a \<and> box_heap s a = Some b \<and> box_typed ref_always (types s) b"
proof -
  obtain s where i: "uncore_init (hswep_ops ref_always, hswep_imc_ops ref_always) ref_always 0 (emu_loaded ref_hw0 ()) = Some (0, s)"
    "emulation_started s" using ref_always_started by blast
  from boxes_well_typed [OF _ ref_always_basics(1,2) i(1) module_run.loaded] i show ?thesis by auto
qed

end
