(* ===== verification/Core_Pmu.thy ===== *)
theory Core_Pmu
  imports Platform
begin

text \<open>
  The core PMU module: \<open>core_pmu.h\<close>, \<open>core_pmu.c\<close> and \<open>core_proc.c\<close>, in the order of the files. It
  makes counter 0 of every online CPU overflow after a number of last-level cache misses and
  counts the overflow interrupts per CPU. It shares no state with the uncore module.
  Functions that print are given by the values they print.
\<close>

section \<open>Registers and events\<close>

text \<open>The wrappers around \<open>rdmsr\<close> and \<open>wrmsr\<close> pass a value in two halves, edx:eax.\<close>

definition core_pmu_rdmsr :: "'h platform \<Rightarrow> u32 \<Rightarrow> u32 \<Rightarrow> 'h \<Rightarrow> u64" where
  "core_pmu_rdmsr P cpu addr h =
     (let edx = ucast (drop_bit 32 (rdmsr P h cpu addr)) :: u32; eax = ucast (rdmsr P h cpu addr) :: u32
      in push_bit 32 (ucast edx) OR ucast eax)"

definition core_pmu_wrmsr :: "'h platform \<Rightarrow> u32 \<Rightarrow> u32 \<Rightarrow> u64 \<Rightarrow> 'h \<Rightarrow> 'h" where
  "core_pmu_wrmsr P cpu addr value h =
     (let edx = ucast (drop_bit 32 value) :: u32; eax = ucast value :: u32
      in wrmsr P cpu addr (push_bit 32 (ucast edx) OR ucast eax) h)"

definition core_pmu_cpuid :: "'h platform \<Rightarrow> u32 \<Rightarrow> u32 \<Rightarrow> u32 \<times> u32 \<times> u32 \<times> u32" where
  "core_pmu_cpuid P cpu op = cpuid P cpu op"

definition MSR_IA32_PMC0 :: u32 where "MSR_IA32_PMC0 = 0x0C1"
definition MSR_IA32_PERFEVTSEL0 :: u32 where "MSR_IA32_PERFEVTSEL0 = 0x186"
definition MSR_CORE_PERF_GLOBAL_STATUS :: u32 where "MSR_CORE_PERF_GLOBAL_STATUS = 0x38E"
definition MSR_CORE_PERF_GLOBAL_CTRL :: u32 where "MSR_CORE_PERF_GLOBAL_CTRL = 0x38F"
definition MSR_CORE_PERF_GLOBAL_OVF_CTRL :: u32 where "MSR_CORE_PERF_GLOBAL_OVF_CTRL = 0x390"

definition MSR_IA32_MISC_PERFMON_ENABLE :: u64 where "MSR_IA32_MISC_PERFMON_ENABLE = push_bit 7 1"
definition MSR_IA32_MISC_ENABLE :: u32 where "MSR_IA32_MISC_ENABLE = 0x1A0"

definition USR_MODE :: u64 where "USR_MODE = push_bit 16 1"
definition INT_ENABLE :: u64 where "INT_ENABLE = push_bit 20 1"
definition ENABLE :: u64 where "ENABLE = push_bit 22 1"

datatype PERF_EVENT_ID =
    UNHALTED_CYCLES
  | INSTRUCTIONS_RETIRED
  | UNHALTED_REF_CYCLES
  | LLC_REFERENCES
  | LLC_MISSES
  | BRANCH_INSTRUCTIONS_RETIRED
  | BRANCH_MISSES_RETIRED

primrec predefined_event_map :: "PERF_EVENT_ID \<Rightarrow> u64" where
  "predefined_event_map UNHALTED_CYCLES = 0x003c"
| "predefined_event_map INSTRUCTIONS_RETIRED = 0x00c0"
| "predefined_event_map UNHALTED_REF_CYCLES = 0x013c"
| "predefined_event_map LLC_REFERENCES = 0x4f2e"
| "predefined_event_map LLC_MISSES = 0x412e"
| "predefined_event_map BRANCH_INSTRUCTIONS_RETIRED = 0x00c4"
| "predefined_event_map BRANCH_MISSES_RETIRED = 0x00c5"

section \<open>Globals\<close>

record pre_event =
  pre_evt :: PERF_EVENT_ID
  threshold :: u64

record 'h core_st = "'h nmi_kern" +
  PERF_VERSION :: u32
  PC_PER_CPU :: u32
  PC_BIT_WIDTH :: u32
  LEN_EBX_TOENUM :: u32
  PRE_EVENT_MASK :: u32
  CPU_BASE_FREQUENCY :: u64
  CPU_BRAND :: "u8 list"
  PMU_LATENCY :: u64
  pre_event_info :: pre_event
  pre_event_init_value :: u64
  PERCPU_NMI_TIMES :: "u32 \<Rightarrow> u64"
  is_proc_registed :: bool

definition core_pmu_clear_counter :: "'h platform \<Rightarrow> ('h, 'm) core_st_scheme \<Rightarrow> ('h, 'm) core_st_scheme" where
  "core_pmu_clear_counter P =
     for_each_online_cpu P (\<lambda>cpu s. s\<lparr>PERCPU_NMI_TIMES := (PERCPU_NMI_TIMES s)(cpu := 0)\<rparr>)"

section \<open>CPU information\<close>

text \<open>Whether the message that the PMU is disabled is printed, and the one that the extended functions
  of \<open>cpuid\<close> are missing.\<close>

definition cpu_facility_test :: "'h platform \<Rightarrow> 'h \<Rightarrow> bool" where
  "cpu_facility_test P h =
     (let msr = core_pmu_rdmsr P (this_cpu P) MSR_IA32_MISC_ENABLE h
      in msr AND MSR_IA32_MISC_PERFMON_ENABLE = 0)"

definition cpu_no_extended :: "'h platform \<Rightarrow> bool" where
  "cpu_no_extended P = (case core_pmu_cpuid P (this_cpu P) 0x80000000 of (eax, _) \<Rightarrow> eax < 0x80000004)"

definition cpu_brand_frequency :: "'h platform \<Rightarrow> ('h, 'm) core_st_scheme \<Rightarrow> ('h, 'm) core_st_scheme" where
  "cpu_brand_frequency P s =
     s\<lparr>CPU_BRAND := concat (map (\<lambda>i. case core_pmu_cpuid P (this_cpu P) (0x80000002 + of_nat i) of
           (eax, ebx, ecx, edx) \<Rightarrow> le_bytes eax @ le_bytes ebx @ le_bytes ecx @ le_bytes edx) [0..<3]),
       CPU_BASE_FREQUENCY := 2400000000\<rparr>"

definition cpu_perf_info :: "'h platform \<Rightarrow> ('h, 'm) core_st_scheme \<Rightarrow> ('h, 'm) core_st_scheme" where
  "cpu_perf_info P s =
     (case core_pmu_cpuid P (this_cpu P) 0x0A of (eax, ebx, ecx, edx) \<Rightarrow>
       s\<lparr>PERF_VERSION := eax AND 0xFF,
         PC_PER_CPU := drop_bit 8 (eax AND 0xFF00),
         PC_BIT_WIDTH := drop_bit 16 (eax AND 0xFF0000),
         LEN_EBX_TOENUM := drop_bit 24 (eax AND 0xFF000000),
         PRE_EVENT_MASK := ebx AND 0xFF\<rparr>)"

text \<open>The messages, the brand up to its final zero, and the state.\<close>

definition cpu_print_info :: "'h platform \<Rightarrow> ('h, 'm) core_st_scheme \<Rightarrow>
    (bool \<times> bool \<times> u8 list \<times> u32 list) \<times> ('h, 'm) core_st_scheme" where
  "cpu_print_info P s =
     (let disabled = cpu_facility_test P (world s);
          s = cpu_brand_frequency P s;
          s = cpu_perf_info P s
      in ((disabled, cpu_no_extended P, takeWhile (\<lambda>c. c \<noteq> 0) (CPU_BRAND s),
           [PERF_VERSION s, PC_PER_CPU s, PC_BIT_WIDTH s, PRE_EVENT_MASK s]), s))"

section \<open>One CPU\<close>

text \<open>The result of the call is dropped: a CPU that does not answer is skipped.\<close>

definition core_pmu_cpu_function_call :: "'h platform \<Rightarrow> u32 \<Rightarrow>
    (u32 \<Rightarrow> ('h, 'm) kern_scheme \<Rightarrow> ('h, 'm) kern_scheme) \<Rightarrow> ('h, 'm) kern_scheme \<Rightarrow> ('h, 'm) kern_scheme" where
  "core_pmu_cpu_function_call P cpu f s = snd (smp_call_function_single P cpu f s)"

text \<open>The two lines a CPU prints.\<close>

definition show_msrs_on_cpu :: "'h platform \<Rightarrow> u32 \<Rightarrow> 'h \<Rightarrow> (u32 \<times> u64 list) list" where
  "show_msrs_on_cpu P cpu h =
     [(cpu, [core_pmu_rdmsr P cpu MSR_IA32_PMC0 h, core_pmu_rdmsr P cpu MSR_IA32_PERFEVTSEL0 h]),
      (cpu, [core_pmu_rdmsr P cpu MSR_CORE_PERF_GLOBAL_CTRL h, core_pmu_rdmsr P cpu MSR_CORE_PERF_GLOBAL_STATUS h,
        core_pmu_rdmsr P cpu MSR_CORE_PERF_GLOBAL_OVF_CTRL h])]"

definition clear_msrs_on_cpu :: "'h platform \<Rightarrow> u32 \<Rightarrow> ('h, 'm) kern_scheme \<Rightarrow> ('h, 'm) kern_scheme" where
  "clear_msrs_on_cpu P cpu =
     on_world (\<lambda>h.
       let h = core_pmu_wrmsr P cpu MSR_IA32_PMC0 0 h;
           h = core_pmu_wrmsr P cpu MSR_IA32_PERFEVTSEL0 0 h;
           h = core_pmu_wrmsr P cpu MSR_CORE_PERF_GLOBAL_CTRL 0 h
       in core_pmu_wrmsr P cpu MSR_CORE_PERF_GLOBAL_OVF_CTRL 0 h)"

definition enable_counting_on_cpu :: "'h platform \<Rightarrow> u32 \<Rightarrow> ('h, 'm) kern_scheme \<Rightarrow> ('h, 'm) kern_scheme" where
  "enable_counting_on_cpu P cpu = on_world (core_pmu_wrmsr P cpu MSR_CORE_PERF_GLOBAL_CTRL 1)"

definition disable_counting_on_cpu :: "'h platform \<Rightarrow> u32 \<Rightarrow> ('h, 'm) kern_scheme \<Rightarrow> ('h, 'm) kern_scheme" where
  "disable_counting_on_cpu P cpu = on_world (core_pmu_wrmsr P cpu MSR_CORE_PERF_GLOBAL_CTRL 0)"

definition clear_ovf_on_cpu :: "'h platform \<Rightarrow> u32 \<Rightarrow> ('h, 'm) kern_scheme \<Rightarrow> ('h, 'm) kern_scheme" where
  "clear_ovf_on_cpu P cpu = on_world (core_pmu_wrmsr P cpu MSR_CORE_PERF_GLOBAL_OVF_CTRL 1)"

text \<open>The event's threshold is not used: the counter starts from the global initial value.\<close>

definition enable_predefined_event_on_cpu :: "'h platform \<Rightarrow> pre_event option \<Rightarrow> u32 \<Rightarrow>
    ('h, 'm) core_st_scheme \<Rightarrow> ('h, 'm) core_st_scheme" where
  "enable_predefined_event_on_cpu P info cpu s =
     (case info of
        None \<Rightarrow> s
      | Some info \<Rightarrow>
          (let val = pre_event_init_value s; evt = pre_evt info;
               val = val AND (push_bit 48 1 - 1)
           in on_world (\<lambda>h.
                core_pmu_wrmsr P cpu MSR_IA32_PERFEVTSEL0
                  (predefined_event_map evt OR USR_MODE OR INT_ENABLE OR ENABLE)
                  (core_pmu_wrmsr P cpu MSR_IA32_PMC0 val h)) s))"

definition lapic_init_on_cpu :: "'h platform \<Rightarrow> u32 \<Rightarrow> ('h, 'm) kern_scheme \<Rightarrow> ('h, 'm) kern_scheme" where
  "lapic_init_on_cpu P cpu = on_world (apic_write P cpu APIC_LVTPC APIC_DM_NMI)"

section \<open>All online CPUs\<close>

definition core_pmu_show_msrs :: "'h platform \<Rightarrow> ('h, 'm) kern_scheme \<Rightarrow> (u32 \<times> u64 list) list" where
  "core_pmu_show_msrs P =
     printed (for_each_online_cpu P (\<lambda>cpu. core_pmu_cpu_function_call P cpu (\<lambda>cpu. print_on (show_msrs_on_cpu P cpu))))"

definition core_pmu_clear_msrs :: "'h platform \<Rightarrow> ('h, 'm) kern_scheme \<Rightarrow> ('h, 'm) kern_scheme" where
  "core_pmu_clear_msrs P =
     for_each_online_cpu P (\<lambda>cpu. core_pmu_cpu_function_call P cpu (clear_msrs_on_cpu P))"

definition core_pmu_enable_counting :: "'h platform \<Rightarrow> ('h, 'm) kern_scheme \<Rightarrow> ('h, 'm) kern_scheme" where
  "core_pmu_enable_counting P =
     for_each_online_cpu P (\<lambda>cpu. core_pmu_cpu_function_call P cpu (enable_counting_on_cpu P))"

definition core_pmu_disable_counting :: "'h platform \<Rightarrow> ('h, 'm) kern_scheme \<Rightarrow> ('h, 'm) kern_scheme" where
  "core_pmu_disable_counting P =
     for_each_online_cpu P (\<lambda>cpu. core_pmu_cpu_function_call P cpu (disable_counting_on_cpu P))"

definition core_pmu_clear_ovf :: "'h platform \<Rightarrow> ('h, 'm) kern_scheme \<Rightarrow> ('h, 'm) kern_scheme" where
  "core_pmu_clear_ovf P =
     for_each_online_cpu P (\<lambda>cpu. core_pmu_cpu_function_call P cpu (clear_ovf_on_cpu P))"

definition core_pmu_enable_predefined_event :: "'h platform \<Rightarrow> PERF_EVENT_ID \<Rightarrow> u64 \<Rightarrow>
    ('h, 'm) core_st_scheme \<Rightarrow> ('h, 'm) core_st_scheme" where
  "core_pmu_enable_predefined_event P evt th s =
     (let s = s\<lparr>pre_event_info := \<lparr>pre_evt = evt, threshold = th\<rparr>\<rparr>
      in for_each_online_cpu P
           (\<lambda>cpu s. core_pmu_cpu_function_call P cpu
              (enable_predefined_event_on_cpu P (Some (pre_event_info s))) s) s)"

definition core_pmu_lapic_init :: "'h platform \<Rightarrow> ('h, 'm) kern_scheme \<Rightarrow> ('h, 'm) kern_scheme" where
  "core_pmu_lapic_init P =
     for_each_online_cpu P (\<lambda>cpu. core_pmu_cpu_function_call P cpu (lapic_init_on_cpu P))"

section \<open>The interrupt\<close>

definition core_pmu_nmi_handler :: "'h platform \<Rightarrow> u32 \<Rightarrow> ('h, 'm) core_st_scheme \<Rightarrow>
    nmi_result \<times> ('h, 'm) core_st_scheme" where
  "core_pmu_nmi_handler P cpu s =
     (let tmsr = core_pmu_rdmsr P cpu MSR_CORE_PERF_GLOBAL_STATUS (world s)
      in if tmsr AND 1 = 0 then (NMI_DONE, s)
         else
           (let s = clear_msrs_on_cpu P cpu s;
                s = enable_predefined_event_on_cpu P (Some (pre_event_info s)) cpu s;
                s = enable_counting_on_cpu P cpu s
            in (NMI_HANDLED,
                s\<lparr>PERCPU_NMI_TIMES := (PERCPU_NMI_TIMES s)(cpu := PERCPU_NMI_TIMES s cpu + 1)\<rparr>)))"

definition core_pmu_start_sampling :: "'h platform \<Rightarrow> ('h, 'm) core_st_scheme \<Rightarrow> ('h, 'm) core_st_scheme" where
  "core_pmu_start_sampling P s =
     (let s = core_pmu_clear_msrs P s;
          s = core_pmu_enable_predefined_event P LLC_MISSES (pre_event_init_value s) s
      in core_pmu_enable_counting P s)"

section \<open>/proc/core_pmu\<close>

text \<open>What the file shows: the initial value, and the counts of the CPUs that are online.\<close>

definition core_pmu_proc_show :: "'h platform \<Rightarrow> ('h, 'm) core_st_scheme \<Rightarrow> u64 \<times> (u32 \<times> u64) list" where
  "core_pmu_proc_show P s =
     (pre_event_init_value s,
      map (\<lambda>cpu. (cpu, PERCPU_NMI_TIMES s cpu)) (filter (cpu_online P (world s)) (possible_cpus P)))"

definition core_pmu_proc_write :: "'h platform \<Rightarrow> nat \<Rightarrow> nat \<Rightarrow> string option \<Rightarrow>
    ('h, 'm) core_st_scheme \<Rightarrow> int \<times> ('h, 'm) core_st_scheme" where
  "core_pmu_proc_write P cnt offs buf s =
     (if cnt \<noteq> 2 \<or> offs \<noteq> 0 then (- EINVAL, s)
      else (case buf of
          None \<Rightarrow> (- EFAULT, s)
        | Some ctl \<Rightarrow>
            if ctl ! 0 = CHR ''0'' then
              (int cnt, core_pmu_clear_msrs P (core_pmu_clear_counter P (s\<lparr>pre_event_init_value := 0\<rparr>)))
            else if ctl ! 0 = CHR ''1'' then
              (int cnt, core_pmu_start_sampling P (core_pmu_clear_counter P (s\<lparr>pre_event_init_value := - 32\<rparr>)))
            else if ctl ! 0 = CHR ''2'' then
              (int cnt, core_pmu_start_sampling P (core_pmu_clear_counter P (s\<lparr>pre_event_init_value := - 64\<rparr>)))
            else if ctl ! 0 = CHR ''3'' then
              (int cnt, core_pmu_start_sampling P (core_pmu_clear_counter P (s\<lparr>pre_event_init_value := - 128\<rparr>)))
            else if ctl ! 0 = CHR ''4'' then
              (int cnt, core_pmu_start_sampling P (core_pmu_clear_counter P (s\<lparr>pre_event_init_value := - 256\<rparr>)))
            else (- EINVAL, s)))"

definition core_pmu_proc_create :: "'h platform \<Rightarrow> ('h, 'm) core_st_scheme \<Rightarrow> int \<times> ('h, 'm) core_st_scheme" where
  "core_pmu_proc_create P s =
     (case proc_create P ''core_pmu'' s of (ok, s) \<Rightarrow>
       if ok then (0, s\<lparr>is_proc_registed := True\<rparr>) else (- ENOENT, s))"

definition core_pmu_proc_remove :: "('h, 'm) core_st_scheme \<Rightarrow> ('h, 'm) core_st_scheme" where
  "core_pmu_proc_remove s =
     (if is_proc_registed s then remove_proc_entry ''core_pmu'' s else s)"

section \<open>Loading and unloading\<close>

definition core_pmu_regitser_nmi_handler :: "('h, 'm) core_st_scheme \<Rightarrow> ('h, 'm) core_st_scheme" where
  "core_pmu_regitser_nmi_handler = register_nmi_handler ''CORE_PMU_NMI_HANDLER''"

definition core_pmu_unregister_nmi_handler :: "('h, 'm) core_st_scheme \<Rightarrow> ('h, 'm) core_st_scheme" where
  "core_pmu_unregister_nmi_handler = unregister_nmi_handler ''CORE_PMU_NMI_HANDLER''"

definition core_pmu_init :: "'h platform \<Rightarrow> ('h, 'm) core_st_scheme \<Rightarrow> int \<times> ('h, 'm) core_st_scheme" where
  "core_pmu_init P s =
     (case core_pmu_proc_create P s of (ret, s) \<Rightarrow>
       if ret \<noteq> 0 then (ret, s)
       else
         (let s = snd (cpu_print_info P s);
              s = core_pmu_lapic_init P s;
              s = core_pmu_regitser_nmi_handler s;
              s = s\<lparr>pre_event_init_value := - 256\<rparr>;
              s = s\<lparr>PMU_LATENCY := CPU_BASE_FREQUENCY s * 10\<rparr>
          in (0, core_pmu_start_sampling P s)))"

definition core_pmu_exit :: "'h platform \<Rightarrow> ('h, 'm) core_st_scheme \<Rightarrow> ('h, 'm) core_st_scheme" where
  "core_pmu_exit P s =
     (let s = core_pmu_proc_remove s;
          s = core_pmu_clear_msrs P s
      in core_pmu_unregister_nmi_handler s)"

end
