(* ===== verification/Core_Sampling.thy ===== *)
theory Core_Sampling
  imports Core_Pmu Ref_Machine
begin

text \<open>
  The core PMU module against its registers: the contract \<open>core_msrs\<close> of the five registers of a
  CPU, the effect of a loop over the CPUs as a function of what each CPU shows, and the
  properties of the /proc commands, of the interrupt and of the module's life.
\<close>

section \<open>What a CPU shows\<close>

record core_view =
  pmc :: u64
  sel :: u64
  ctrl :: u64
  status :: u64

definition core_view :: "'h platform \<Rightarrow> 'h \<Rightarrow> u32 \<Rightarrow> core_view" where
  "core_view P h c =
     \<lparr>pmc = rdmsr P h c MSR_IA32_PMC0, sel = rdmsr P h c MSR_IA32_PERFEVTSEL0,
      ctrl = rdmsr P h c MSR_CORE_PERF_GLOBAL_CTRL, status = rdmsr P h c MSR_CORE_PERF_GLOBAL_STATUS\<rparr>"

text \<open>The CPUs a loop reaches: online, and answering the call.\<close>

definition reached :: "'h platform \<Rightarrow> 'h \<Rightarrow> u32 \<Rightarrow> bool" where
  "reached P h c \<longleftrightarrow> c < nr_cpu_ids P \<and> cpu_online P h c \<and> smp_status P h c = 0"

text \<open>\<open>acts P f g\<close>: on a CPU, \<open>f\<close> does \<open>g\<close> to what this CPU shows and nothing to the others.\<close>

definition acts :: "'h platform \<Rightarrow> (u32 \<Rightarrow> 'h \<Rightarrow> 'h) \<Rightarrow> (core_view \<Rightarrow> core_view) \<Rightarrow> bool" where
  "acts P f g \<longleftrightarrow>
     (\<forall>c h. core_view P (f c h) = (core_view P h)(c := g (core_view P h c)) \<and>
        cpu_online P (f c h) = cpu_online P h \<and> smp_status P (f c h) = smp_status P h)"

lemma acts_comp: "acts P f g \<Longrightarrow> acts P f' g' \<Longrightarrow> acts P (\<lambda>c h. f' c (f c h)) (\<lambda>v. g' (g v))"
  by (simp add: acts_def)

lemma loop_acts:
  assumes "acts P f g"
    and "\<And>c h. body c (s\<lparr>world := h\<rparr>) = core_pmu_cpu_function_call P c (\<lambda>c. on_world (f c)) (s\<lparr>world := h\<rparr>)"
  shows "\<exists>w. for_each_online_cpu P body s = s\<lparr>world := w\<rparr> \<and>
    core_view P w = (\<lambda>c. if reached P (world s) c then g (core_view P (world s) c) else core_view P (world s) c) \<and>
    cpu_online P w = cpu_online P (world s) \<and> smp_status P w = smp_status P (world s)"
proof -
  let ?step = "\<lambda>c s. if cpu_online P (world s) c then body c s else s"
  have "\<exists>w. fold ?step cs (s\<lparr>world := h\<rparr>) = s\<lparr>world := w\<rparr> \<and>
      core_view P w = (\<lambda>c. if c \<in> set cs \<and> cpu_online P h c \<and> smp_status P h c = 0
        then g (core_view P h c) else core_view P h c) \<and>
      cpu_online P w = cpu_online P h \<and> smp_status P w = smp_status P h" if "distinct cs" for cs h
    using that
  proof (induction cs arbitrary: h)
    case (Cons c cs)
    let ?h = "if cpu_online P h c \<and> smp_status P h c = 0 then f c h else h"
    have step: "?step c (s\<lparr>world := h\<rparr>) = s\<lparr>world := ?h\<rparr>"
      by (simp add: assms(2) core_pmu_cpu_function_call_def smp_call_function_single_def on_world_def Let_def)
    have keep: "cpu_online P ?h = cpu_online P h" "smp_status P ?h = smp_status P h"
      "core_view P ?h = (if cpu_online P h c \<and> smp_status P h c = 0
         then (core_view P h)(c := g (core_view P h c)) else core_view P h)"
      using assms(1) by (simp_all add: acts_def)
    obtain w where w: "fold ?step cs (s\<lparr>world := ?h\<rparr>) = s\<lparr>world := w\<rparr>"
      "core_view P w = (\<lambda>x. if x \<in> set cs \<and> cpu_online P ?h x \<and> smp_status P ?h x = 0
         then g (core_view P ?h x) else core_view P ?h x)"
      "cpu_online P w = cpu_online P ?h" "smp_status P w = smp_status P ?h"
      using Cons.IH [of ?h] Cons.prems by auto
    have "fold ?step (c # cs) (s\<lparr>world := h\<rparr>) = s\<lparr>world := w\<rparr>"
      unfolding fold_Cons comp_def step by (rule w(1))
    moreover have "core_view P w = (\<lambda>x. if x \<in> set (c # cs) \<and> cpu_online P h x \<and> smp_status P h x = 0
        then g (core_view P h x) else core_view P h x)"
      unfolding w(2) keep using Cons.prems by (auto simp: fun_eq_iff)
    ultimately show ?case using w(3,4) unfolding keep by blast
  qed auto
  from this [OF distinct_possible_cpus, of P "world s"] show ?thesis
    by (simp add: for_each_online_cpu_def reached_def set_possible_cpus)
qed

section \<open>The contract of the registers\<close>

lemma core_rdmsr [simp]: "core_pmu_rdmsr P c a h = rdmsr P h c a"
  by (simp add: core_pmu_rdmsr_def word_halves_join)

lemma core_wrmsr [simp]: "core_pmu_wrmsr P c a v h = wrmsr P c a v h"
  by (simp add: core_pmu_wrmsr_def word_halves_join)

abbreviation core_msr_addrs :: "u32 set" where
  "core_msr_addrs \<equiv> {MSR_IA32_PMC0, MSR_IA32_PERFEVTSEL0, MSR_CORE_PERF_GLOBAL_CTRL}"

text \<open>Counter 0 holds 48 bits, the event select and the control register what is written to them,
  on the CPU that writes. The status register is cleared through the overflow control
  register, by the bits that are 1, and by no other write. A register write and the local
  APIC's set-up take no CPU offline. The values the code gives to the counter, 0 and -32 to -256 in 48 bits, are
  also read back from a counter that takes 32 bits and extends their sign.\<close>

locale core_msrs =
  fixes P :: "'h platform"
  assumes counter: "v < 2 ^ 48 \<Longrightarrow> rdmsr P (wrmsr P c MSR_IA32_PMC0 v h) c MSR_IA32_PMC0 = v"
    and select: "rdmsr P (wrmsr P c MSR_IA32_PERFEVTSEL0 v h) c MSR_IA32_PERFEVTSEL0 = v"
    and control: "rdmsr P (wrmsr P c MSR_CORE_PERF_GLOBAL_CTRL v h) c MSR_CORE_PERF_GLOBAL_CTRL = v"
    and other: "a \<in> core_msr_addrs \<Longrightarrow> b \<in> insert MSR_CORE_PERF_GLOBAL_OVF_CTRL core_msr_addrs \<Longrightarrow>
      (c', a) \<noteq> (c, b) \<Longrightarrow> rdmsr P (wrmsr P c b v h) c' a = rdmsr P h c' a"
    and overflow: "b \<in> insert MSR_CORE_PERF_GLOBAL_OVF_CTRL core_msr_addrs \<Longrightarrow>
      rdmsr P (wrmsr P c b v h) c' MSR_CORE_PERF_GLOBAL_STATUS =
        (if c' = c \<and> b = MSR_CORE_PERF_GLOBAL_OVF_CTRL
         then rdmsr P h c' MSR_CORE_PERF_GLOBAL_STATUS AND NOT v
         else rdmsr P h c' MSR_CORE_PERF_GLOBAL_STATUS)"
    and up: "cpu_online P (wrmsr P c b v h) = cpu_online P h" "smp_status P (wrmsr P c b v h) = smp_status P h"
    and apic: "core_view P (apic_write P c r x h) = core_view P h"
      "cpu_online P (apic_write P c r x h) = cpu_online P h" "smp_status P (apic_write P c r x h) = smp_status P h"
begin

lemmas addr_defs = MSR_IA32_PMC0_def MSR_IA32_PERFEVTSEL0_def MSR_CORE_PERF_GLOBAL_CTRL_def
  MSR_CORE_PERF_GLOBAL_STATUS_def MSR_CORE_PERF_GLOBAL_OVF_CTRL_def

lemma addr_apart:
  "MSR_IA32_PMC0 \<noteq> MSR_IA32_PERFEVTSEL0" "MSR_IA32_PMC0 \<noteq> MSR_CORE_PERF_GLOBAL_CTRL"
  "MSR_IA32_PERFEVTSEL0 \<noteq> MSR_CORE_PERF_GLOBAL_CTRL" "MSR_IA32_PMC0 \<noteq> MSR_CORE_PERF_GLOBAL_OVF_CTRL"
  "MSR_IA32_PERFEVTSEL0 \<noteq> MSR_CORE_PERF_GLOBAL_OVF_CTRL" "MSR_CORE_PERF_GLOBAL_CTRL \<noteq> MSR_CORE_PERF_GLOBAL_OVF_CTRL"
  by (simp_all add: addr_defs)

lemma writes:
  "v < 2 ^ 48 \<Longrightarrow> acts P (\<lambda>c. wrmsr P c MSR_IA32_PMC0 v) (\<lambda>x. x\<lparr>pmc := v\<rparr>)"
  "acts P (\<lambda>c. wrmsr P c MSR_IA32_PERFEVTSEL0 v) (\<lambda>x. x\<lparr>sel := v\<rparr>)"
  "acts P (\<lambda>c. wrmsr P c MSR_CORE_PERF_GLOBAL_CTRL v) (\<lambda>x. x\<lparr>ctrl := v\<rparr>)"
  "acts P (\<lambda>c. wrmsr P c MSR_CORE_PERF_GLOBAL_OVF_CTRL v) (\<lambda>x. x\<lparr>status := status x AND NOT v\<rparr>)"
  using addr_apart by (auto simp: acts_def core_view_def fun_eq_iff up counter select control other overflow)

end

section \<open>The operations on one CPU\<close>

text \<open>The event select of a sampling counter, and the value a counter starts from.\<close>

definition llc_select :: u64 where
  "llc_select = predefined_event_map LLC_MISSES OR USR_MODE OR INT_ENABLE OR ENABLE"

lemma llc_select_eq: "llc_select = 0x51412e"
  by code_simp

abbreviation start_value :: "u64 \<Rightarrow> u64" where
  "start_value v \<equiv> v AND (push_bit 48 1 - 1)"

lemma start_value_mask: "start_value v = v AND mask 48"
  by (simp add: mask_eq_exp_minus_1)

definition cleared :: "core_view \<Rightarrow> core_view" where
  "cleared v = v\<lparr>pmc := 0, sel := 0, ctrl := 0\<rparr>"

definition armed :: "u64 \<Rightarrow> core_view \<Rightarrow> core_view" where
  "armed init v = v\<lparr>pmc := start_value init, sel := llc_select, ctrl := 1\<rparr>"

definition wr_clear :: "'h platform \<Rightarrow> u32 \<Rightarrow> 'h \<Rightarrow> 'h" where
  "wr_clear P c h =
     wrmsr P c MSR_CORE_PERF_GLOBAL_OVF_CTRL 0 (wrmsr P c MSR_CORE_PERF_GLOBAL_CTRL 0
       (wrmsr P c MSR_IA32_PERFEVTSEL0 0 (wrmsr P c MSR_IA32_PMC0 0 h)))"

definition wr_event :: "'h platform \<Rightarrow> u64 \<Rightarrow> u64 \<Rightarrow> u32 \<Rightarrow> 'h \<Rightarrow> 'h" where
  "wr_event P ev init c h = wrmsr P c MSR_IA32_PERFEVTSEL0 ev (wrmsr P c MSR_IA32_PMC0 (start_value init) h)"

lemma clear_eq: "clear_msrs_on_cpu P = (\<lambda>c. on_world (wr_clear P c))"
  by (intro ext) (simp add: clear_msrs_on_cpu_def wr_clear_def on_world_def Let_def)

lemma counting_eq: "enable_counting_on_cpu P = (\<lambda>c. on_world (wrmsr P c MSR_CORE_PERF_GLOBAL_CTRL 1))"
  by (intro ext) (simp add: enable_counting_on_cpu_def on_world_def)

lemma lapic_eq: "lapic_init_on_cpu P = (\<lambda>c. on_world (apic_write P c APIC_LVTPC APIC_DM_NMI))"
  by (simp add: lapic_init_on_cpu_def fun_eq_iff)

lemma event_eq:
  "enable_predefined_event_on_cpu P (Some i) c s =
     on_world (wr_event P (predefined_event_map (pre_evt i) OR USR_MODE OR INT_ENABLE OR ENABLE)
       (pre_event_init_value s) c) s"
  by (simp add: enable_predefined_event_on_cpu_def wr_event_def on_world_def Let_def)

context core_msrs
begin

lemma clear_acts: "acts P (wr_clear P) cleared"
proof -
  have z: "(0 :: u64) < 2 ^ 48" by simp
  have "acts P (wr_clear P) (\<lambda>x. (x\<lparr>pmc := 0, sel := 0, ctrl := 0\<rparr>)\<lparr>status := status (x\<lparr>pmc := 0, sel := 0, ctrl := 0\<rparr>) AND NOT 0\<rparr>)"
    unfolding wr_clear_def by (rule acts_comp [OF acts_comp [OF acts_comp [OF writes(1) [OF z] writes(2)] writes(3)] writes(4)])
  then show ?thesis by (simp add: cleared_def [abs_def])
qed

lemma start_value_less: "start_value v < 2 ^ 48"
  unfolding start_value_mask by (rule and_mask_less') simp

lemma event_acts: "acts P (wr_event P ev init) (\<lambda>x. x\<lparr>pmc := start_value init, sel := ev\<rparr>)"
  unfolding wr_event_def by (rule acts_comp [OF writes(1) [OF start_value_less] writes(2)])

end

section \<open>The loops\<close>

context core_msrs
begin

text \<open>A loop over the CPUs: it changes the hardware only, and what a CPU shows where it got.\<close>

definition loop_result :: "('h, 'm) kern_scheme \<Rightarrow> (core_view \<Rightarrow> core_view) \<Rightarrow> ('h, 'm) kern_scheme \<Rightarrow> bool" where
  "loop_result s g s' \<longleftrightarrow> s' = s\<lparr>world := world s'\<rparr> \<and>
     core_view P (world s') = (\<lambda>c. if reached P (world s) c then g (core_view P (world s) c)
                                   else core_view P (world s) c) \<and>
     reached P (world s') = reached P (world s) \<and> cpu_online P (world s') = cpu_online P (world s)"

lemma loop_resultI:
  assumes "acts P f g"
    and "\<And>c h. body c (s\<lparr>world := h\<rparr>) = core_pmu_cpu_function_call P c (\<lambda>c. on_world (f c)) (s\<lparr>world := h\<rparr>)"
  shows "loop_result s g (for_each_online_cpu P body s)"
proof -
  from loop_acts [OF assms] obtain w where w: "for_each_online_cpu P body s = s\<lparr>world := w\<rparr>"
    "core_view P w = (\<lambda>c. if reached P (world s) c then g (core_view P (world s) c) else core_view P (world s) c)"
    "cpu_online P w = cpu_online P (world s)" "smp_status P w = smp_status P (world s)" by (elim exE conjE) (rule that)
  then show ?thesis by (simp add: loop_result_def reached_def fun_eq_iff)
qed

lemma loop_resultE:
  assumes "loop_result s g s'"
  obtains w where "s' = s\<lparr>world := w\<rparr>" "reached P w = reached P (world s)" "cpu_online P w = cpu_online P (world s)"
    "core_view P w = (\<lambda>c. if reached P (world s) c then g (core_view P (world s) c) else core_view P (world s) c)"
proof (rule that [of "world s'"])
  show "s' = s\<lparr>world := world s'\<rparr>" using assms unfolding loop_result_def by (rule conjunct1)
qed (use assms in \<open>simp_all add: loop_result_def\<close>)

lemma loop_trans:
  assumes "loop_result s g s1" "loop_result s1 g' s2"
  shows "loop_result s (\<lambda>v. g' (g v)) s2"
proof -
  have "s2 = (s\<lparr>world := world s1\<rparr>)\<lparr>world := world s2\<rparr>" using assms by (simp add: loop_result_def)
  then have "s2 = s\<lparr>world := world s2\<rparr>" by simp
  with assms show ?thesis by (simp add: loop_result_def fun_eq_iff)
qed

lemma clear_loop: "loop_result s cleared (core_pmu_clear_msrs P s)"
  unfolding core_pmu_clear_msrs_def by (rule loop_resultI [OF clear_acts]) (simp add: clear_eq)

lemma enable_loop: "loop_result s (\<lambda>v. v\<lparr>ctrl := 1\<rparr>) (core_pmu_enable_counting P s)"
  unfolding core_pmu_enable_counting_def by (rule loop_resultI [OF writes(3)]) (simp add: counting_eq)

lemma lapic_loop: "loop_result s id (core_pmu_lapic_init P s)"
  unfolding core_pmu_lapic_init_def
  by (rule loop_resultI [where f = "\<lambda>c. apic_write P c APIC_LVTPC APIC_DM_NMI"])
    (auto simp: acts_def apic lapic_eq)

lemma event_loop:
  fixes s :: "('h, 'm) core_st_scheme" and th :: u64
  defines "s0 \<equiv> s\<lparr>pre_event_info := \<lparr>pre_evt = LLC_MISSES, threshold = th\<rparr>\<rparr>"
  shows "loop_result s0 (\<lambda>v. v\<lparr>pmc := start_value (pre_event_init_value s), sel := llc_select\<rparr>)
    (core_pmu_enable_predefined_event P LLC_MISSES th s)"
proof -
  have "enable_predefined_event_on_cpu P (Some (pre_event_info (s0\<lparr>world := h\<rparr>))) c (s0\<lparr>world := h'\<rparr>) =
      on_world (wr_event P llc_select (pre_event_init_value s) c) (s0\<lparr>world := h'\<rparr>)" for c h h'
    by (simp add: event_eq s0_def llc_select_def)
  then have "core_pmu_cpu_function_call P c (enable_predefined_event_on_cpu P (Some (pre_event_info (s0\<lparr>world := h\<rparr>))))
      (s0\<lparr>world := h\<rparr>) =
    core_pmu_cpu_function_call P c (\<lambda>c. on_world (wr_event P llc_select (pre_event_init_value s) c)) (s0\<lparr>world := h\<rparr>)" for c h
    by (simp add: core_pmu_cpu_function_call_def smp_call_function_single_def Let_def)
  from loop_resultI [OF event_acts this] show ?thesis
    by (simp add: core_pmu_enable_predefined_event_def Let_def s0_def)
qed

lemma sampling_result:
  fixes s :: "('h, 'm) core_st_scheme"
  shows "loop_result (s\<lparr>pre_event_info := \<lparr>pre_evt = LLC_MISSES, threshold = pre_event_init_value s\<rparr>\<rparr>)
    (armed (pre_event_init_value s)) (core_pmu_start_sampling P s)"
proof -
  let ?p = "\<lambda>s. s\<lparr>pre_event_info := \<lparr>pre_evt = LLC_MISSES, threshold = pre_event_init_value s\<rparr>\<rparr>"
  define s1 where "s1 = core_pmu_clear_msrs P s"
  have c: "loop_result s cleared s1" unfolding s1_def by (rule clear_loop)
  then obtain w where s1: "s1 = s\<lparr>world := w\<rparr>" by (auto simp: loop_result_def)
  with c have c': "loop_result (?p s) cleared (?p s1)" and i: "pre_event_init_value s1 = pre_event_init_value s"
    by (simp_all add: loop_result_def cong: if_cong)
  note e = event_loop [where s = s1 and th = "pre_event_init_value s1"]
  have "(\<lambda>v. (cleared v)\<lparr>pmc := start_value (pre_event_init_value s), sel := llc_select, ctrl := 1\<rparr>) =
      armed (pre_event_init_value s)"
    by (simp add: cleared_def armed_def fun_eq_iff)
  with loop_trans [OF loop_trans [OF c' e] enable_loop] show ?thesis
    by (simp add: core_pmu_start_sampling_def Let_def s1_def [symmetric] i)
qed

end

section \<open>The reference core\<close>

text \<open>The reference machine with a performance monitoring unit in each core: counter 0 has 48
  bits, and a write to the overflow control register clears bits of the status register.\<close>

definition ref_core_wrmsr :: "u32 \<Rightarrow> u32 \<Rightarrow> u64 \<Rightarrow> ref_hw \<Rightarrow> ref_hw" where
  "ref_core_wrmsr c a v h =
     (let m = msrs h c;
          m1 = (if a = MSR_CORE_PERF_GLOBAL_OVF_CTRL
                then m(MSR_CORE_PERF_GLOBAL_STATUS := m MSR_CORE_PERF_GLOBAL_STATUS AND NOT v)
                else if a = MSR_CORE_PERF_GLOBAL_STATUS then m
                else if a = MSR_IA32_PMC0 then m(a := v AND mask 48) else m(a := v))
      in h\<lparr>msrs := (msrs h)(c := m1)\<rparr>)"

definition ref_core :: "ref_hw platform" where
  "ref_core = ref_platform\<lparr>rdmsr := msrs, wrmsr := ref_core_wrmsr\<rparr>"

lemma ref_core_sel [simp]:
  "rdmsr ref_core = msrs" "wrmsr ref_core = ref_core_wrmsr" "cpu_online ref_core = online"
  "smp_status ref_core h c = (if c < 12 \<and> online h c then 0 else - ENXIO)" "apic_write ref_core c a w h = h"
  "nr_cpu_ids ref_core = 12" "proc_create_ok ref_core nm" "this_cpu ref_core = 6" "cpuid ref_core c op = (0, 0, 0, 0)"
  by (simp_all add: ref_core_def)

interpretation ref_core: core_msrs ref_core
  by unfold_locales
    (auto simp: ref_core_wrmsr_def Let_def less_mask_eq [where n = 48, simplified] core_view_def fun_eq_iff
      MSR_IA32_PMC0_def MSR_IA32_PERFEVTSEL0_def MSR_CORE_PERF_GLOBAL_CTRL_def
      MSR_CORE_PERF_GLOBAL_STATUS_def MSR_CORE_PERF_GLOBAL_OVF_CTRL_def)

text \<open>The state when the module has been loaded, and on the reference core.\<close>

definition core_loaded :: "'h \<Rightarrow> 'm \<Rightarrow> ('h, 'm) core_st_scheme" where
  "core_loaded h m =
     \<lparr>world = h, allocs = 0, krefs = (\<lambda>_. 0), procs = [], proc_faults = 0, delays = [], panicked = False,
      nmi_actions = [], preempt_count = 0, PERF_VERSION = 0, PC_PER_CPU = 0, PC_BIT_WIDTH = 0,
      LEN_EBX_TOENUM = 0, PRE_EVENT_MASK = 0, CPU_BASE_FREQUENCY = 0, CPU_BRAND = replicate 48 0,
      PMU_LATENCY = 0, pre_event_info = \<lparr>pre_evt = UNHALTED_CYCLES, threshold = 0\<rparr>, pre_event_init_value = 0,
      PERCPU_NMI_TIMES = (\<lambda>_. 0), is_proc_registed = False, \<dots> = m\<rparr>"

lemma core_loaded_sel [simp]:
  "world (core_loaded h m) = h" "procs (core_loaded h m) = []" "proc_faults (core_loaded h m) = 0"
  "\<not> panicked (core_loaded h m)" "nmi_actions (core_loaded h m) = []"
  "\<not> is_proc_registed (core_loaded h m)"
  by (simp_all add: core_loaded_def)

abbreviation core_st0 :: "ref_hw core_st" where
  "core_st0 \<equiv> core_loaded ref_hw0 ()"

section \<open>Commands\<close>

text \<open>What a CPU is doing: not counting, or counting last-level cache misses with so many to go
  until the interrupt.\<close>

datatype core_mode = Stopped | Armed nat | Unknown

definition core_mode :: "core_view \<Rightarrow> core_mode" where
  "core_mode v =
     (if ctrl v = 0 then Stopped
      else if ctrl v = 1 \<and> sel v = llc_select then Armed (2 ^ 48 - unat (pmc v)) else Unknown)"

text \<open>The misses between two interrupts that a command asks for, 0 to stop.\<close>

definition core_command :: "char \<Rightarrow> nat option" where
  "core_command c =
     (if c = CHR ''0'' then Some 0 else if c = CHR ''1'' then Some 32
      else if c = CHR ''2'' then Some 64 else if c = CHR ''3'' then Some 128
      else if c = CHR ''4'' then Some 256 else None)"

definition commanded :: "nat \<Rightarrow> core_mode" where
  "commanded n = (if n = 0 then Stopped else Armed n)"

lemma core_mode_simps [simp]:
  "core_mode (cleared v) = Stopped"
  "core_mode (armed init v) = Armed (2 ^ 48 - unat (start_value init))"
  by (simp_all add: core_mode_def cleared_def armed_def)

lemma clear_counter_eq:
  fixes s :: "('h, 'm) core_st_scheme"
  shows "core_pmu_clear_counter P s =
    s\<lparr>PERCPU_NMI_TIMES := (\<lambda>c. if c < nr_cpu_ids P \<and> cpu_online P (world s) c then 0 else PERCPU_NMI_TIMES s c)\<rparr>"
proof -
  have "fold (\<lambda>cpu s. if cpu_online P (world s) cpu then s\<lparr>PERCPU_NMI_TIMES := (PERCPU_NMI_TIMES s)(cpu := 0)\<rparr> else s) cs s =
      s\<lparr>PERCPU_NMI_TIMES := (\<lambda>c. if c \<in> set cs \<and> cpu_online P (world s) c then 0 else PERCPU_NMI_TIMES s c)\<rparr>"
    for cs and s :: "('h, 'm) core_st_scheme"
  proof (induction cs arbitrary: s)
    case (Cons c cs)
    then show ?case by (auto simp: fun_eq_iff intro!: arg_cong2 [where f = PERCPU_NMI_TIMES_update])
  qed simp
  from this [of "possible_cpus P"] show ?thesis
    by (simp add: core_pmu_clear_counter_def for_each_online_cpu_def set_possible_cpus)
qed

context core_msrs
begin

lemma command_result:
  fixes s :: "('h, 'm) core_st_scheme" and v :: u64
  defines "s0 \<equiv> core_pmu_clear_counter P (s\<lparr>pre_event_init_value := v\<rparr>)"
  assumes "s' = core_pmu_start_sampling P s0 \<and> g = armed v \<or> s' = core_pmu_clear_msrs P s0 \<and> g = cleared"
  shows "pre_event_init_value s' = v \<and>
    PERCPU_NMI_TIMES s' = (\<lambda>c. if c < nr_cpu_ids P \<and> cpu_online P (world s) c then 0 else PERCPU_NMI_TIMES s c) \<and>
    core_view P (world s') = (\<lambda>c. if reached P (world s) c then g (core_view P (world s) c) else core_view P (world s) c) \<and>
    cpu_online P (world s') = cpu_online P (world s)"
proof -
  have s0: "pre_event_init_value s0 = v" "world s0 = world s"
      "PERCPU_NMI_TIMES s0 = (\<lambda>c. if c < nr_cpu_ids P \<and> cpu_online P (world s) c then 0 else PERCPU_NMI_TIMES s c)"
    by (simp_all add: s0_def clear_counter_eq cong: if_cong)
  from assms(2) show ?thesis
  proof
    assume "s' = core_pmu_start_sampling P s0 \<and> g = armed v"
    then have "s' = core_pmu_start_sampling P s0" "g = armed v" by simp_all
    with sampling_result [of s0] s0 show ?thesis
      by (auto elim!: loop_resultE cong: if_cong)
  next
    assume "s' = core_pmu_clear_msrs P s0 \<and> g = cleared"
    then have "s' = core_pmu_clear_msrs P s0" "g = cleared" by simp_all
    with clear_loop [of s0] s0 show ?thesis
      by (auto elim!: loop_resultE cong: if_cong)
  qed
qed

end

lemma command_write:
  assumes "core_command (ctl ! 0) = Some n"
  shows "core_pmu_proc_write P 2 0 (Some ctl) s =
      (let s0 = core_pmu_clear_counter P (s\<lparr>pre_event_init_value := - of_nat n\<rparr>)
       in (2, if n = 0 then core_pmu_clear_msrs P s0 else core_pmu_start_sampling P s0))"
    and "n \<in> {0, 32, 64, 128, 256}"
  using assms by (auto simp: core_pmu_proc_write_def core_command_def Let_def split: if_splits)

lemma interval: "n \<in> {0, 32, 64, 128, 256} \<Longrightarrow> n \<noteq> 0 \<Longrightarrow> 2 ^ 48 - unat (start_value (- of_nat n)) = n"
  by (auto simp: start_value_mask; code_simp)

text \<open>The file after the counts have been reset.\<close>

lemma counts_shown:
  assumes "pre_event_init_value s' = v" "cpu_online P (world s') = cpu_online P (world s)"
    "PERCPU_NMI_TIMES s' = (\<lambda>c. if c < nr_cpu_ids P \<and> cpu_online P (world s) c then 0 else PERCPU_NMI_TIMES s c)"
  shows "core_pmu_proc_show P s' = (v, map (\<lambda>c. (c, 0)) (filter (cpu_online P (world s)) (possible_cpus P)))"
  using assms by (simp add: core_pmu_proc_show_def set_possible_cpus)

text \<open>C30: a write of two bytes at offset 0 to /proc/core_pmu refines its specification. For 0 every
  CPU the loop reaches stops counting, for 1, 2, 3 and 4 it interrupts after 32, 64, 128 and
  256 last-level cache misses; the file then shows the initial value of the counters and
  counts of 0, and the CPUs that do not answer are as before. Any other write fails and
  changes nothing.\<close>

theorem core_proc_command:
  assumes "core_msrs P" "\<And>ctl. buf = Some ctl \<Longrightarrow> length ctl = cnt"
  shows "case core_pmu_proc_write P cnt offs buf s of (r, s') \<Rightarrow>
    (case (if cnt = 2 \<and> offs = 0 then Option.bind buf (\<lambda>ctl. core_command (hd ctl)) else None) of
       None \<Rightarrow> r \<in> {- EINVAL, - EFAULT} \<and> s' = s
     | Some n \<Rightarrow> r = 2 \<and>
         core_pmu_proc_show P s' =
           (- of_nat n, map (\<lambda>c. (c, 0)) (filter (cpu_online P (world s)) (possible_cpus P))) \<and>
         (\<forall>c. core_mode (core_view P (world s') c) =
           (if reached P (world s) c then commanded n
            else core_mode (core_view P (world s) c))))"
proof (cases "cnt = 2 \<and> offs = 0")
  case False
  then show ?thesis by (auto simp: core_pmu_proc_write_def)
next
  case True
  show ?thesis
  proof (cases buf)
    case None
    then show ?thesis by (simp add: core_pmu_proc_write_def)
  next
    case (Some ctl)
    with assms(2) True have h: "ctl ! 0 = hd ctl" by (cases ctl) auto
    note res = core_msrs.command_result [OF assms(1)]
    show ?thesis
    proof (cases "core_command (hd ctl)")
      case None
      with True Some h show ?thesis by (simp add: core_pmu_proc_write_def core_command_def split: if_splits)
    next
      case n: (Some n)
      define s0 where "s0 = core_pmu_clear_counter P (s\<lparr>pre_event_init_value := - of_nat n\<rparr>)"
      define s' where "s' = (if n = 0 then core_pmu_clear_msrs P s0 else core_pmu_start_sampling P s0)"
      define g where "g = (if n = 0 then cleared else armed (- of_nat n))"
      have w: "core_pmu_proc_write P cnt offs buf s = (2, s')"
        unfolding Some s'_def s0_def conjunct1 [OF True] conjunct2 [OF True]
        by (simp only: command_write(1) [OF n [folded h]] Let_def)
      have g: "core_mode (g v) = commanded n" for v
        using interval [OF command_write(2) [OF n [folded h]]] by (simp add: g_def commanded_def)
      have "s' = core_pmu_start_sampling P s0 \<and> g = armed (- of_nat n) \<or> s' = core_pmu_clear_msrs P s0 \<and> g = cleared"
        by (simp add: s'_def g_def)
      note r = res [where v = "- of_nat n" and s = s, folded s0_def, OF this]
      then have "core_pmu_proc_show P s' = (- of_nat n, map (\<lambda>c. (c, 0)) (filter (cpu_online P (world s)) (possible_cpus P)))"
        by (intro counts_shown) blast+
      with r g n True Some show ?thesis unfolding w by simp
    qed
  qed
qed

lemma core_proc_command_witness:
  "\<exists>s'. core_pmu_proc_write ref_core 2 0 (Some ''2x'') core_st0 = (2, s') \<and>
     fst (core_pmu_proc_show ref_core s') = - 64 \<and>
     core_mode (core_view ref_core (world s') 3) = Armed 64"
  using core_proc_command [OF ref_core.core_msrs_axioms, where buf = "Some ''2x''" and cnt = 2 and offs = 0 and
      s = core_st0]
  by (auto simp: core_command_def commanded_def reached_def ref_hw0_def split: prod.splits)

section \<open>The interrupt\<close>

context core_msrs
begin

lemma nmi_eq:
  fixes s :: "('h, 'm) core_st_scheme"
  assumes "pre_evt (pre_event_info s) = LLC_MISSES" "core_pmu_nmi_handler P c s = (r, s')"
  shows "if bit (status (core_view P (world s) c)) 0
    then r = NMI_HANDLED \<and>
      (\<exists>w. s' = s\<lparr>world := w, PERCPU_NMI_TIMES := (PERCPU_NMI_TIMES s)(c := PERCPU_NMI_TIMES s c + 1)\<rparr> \<and>
        core_view P w = (core_view P (world s))(c := armed (pre_event_init_value s) (core_view P (world s) c)))
    else r = NMI_DONE \<and> s' = s"
proof -
  have b: "rdmsr P (world s) c MSR_CORE_PERF_GLOBAL_STATUS AND 1 = 0 \<longleftrightarrow> \<not> bit (status (core_view P (world s) c)) 0"
    by (auto simp: core_view_def and_one_eq odd_iff_mod_2_eq_one bit_0 even_iff_mod_2_eq_zero)
  let ?v = "pre_event_init_value s"
  let ?w = "wrmsr P c MSR_CORE_PERF_GLOBAL_CTRL 1 (wr_event P llc_select ?v c (wr_clear P c (world s)))"
  have "acts P (\<lambda>c h. wrmsr P c MSR_CORE_PERF_GLOBAL_CTRL 1 (wr_event P llc_select ?v c (wr_clear P c h)))
      (\<lambda>x. (cleared x)\<lparr>pmc := start_value ?v, sel := llc_select, ctrl := 1\<rparr>)"
    by (rule acts_comp [OF acts_comp [OF clear_acts event_acts] writes(3)])
  then have v: "core_view P ?w = (core_view P (world s))(c := armed ?v (core_view P (world s) c))"
    by (simp add: acts_def armed_def cleared_def)
  show ?thesis
  proof (cases "bit (status (core_view P (world s) c)) 0")
    case True
    with assms b have "r = NMI_HANDLED"
      "s' = s\<lparr>world := ?w, PERCPU_NMI_TIMES := (PERCPU_NMI_TIMES s)(c := PERCPU_NMI_TIMES s c + 1)\<rparr>"
      by (auto simp: core_pmu_nmi_handler_def Let_def clear_eq counting_eq event_eq on_world_def llc_select_def)
    with True v show ?thesis by auto
  next
    case False
    with assms b show ?thesis by (simp add: core_pmu_nmi_handler_def Let_def)
  qed
qed

end

text \<open>C31: an interrupt on a CPU whose counter 0 has not overflowed is passed on and changes nothing;
  otherwise it is claimed, the CPU's count goes up by one, and its counter is armed again with
  the initial value; no other CPU is touched.\<close>

theorem core_nmi:
  assumes "core_msrs P" "pre_evt (pre_event_info s) = LLC_MISSES"
  shows "case core_pmu_nmi_handler P c s of (r, s') \<Rightarrow>
    if bit (status (core_view P (world s) c)) 0
    then r = NMI_HANDLED \<and>
      core_view P (world s') = (core_view P (world s))(c := armed (pre_event_init_value s) (core_view P (world s) c)) \<and>
      PERCPU_NMI_TIMES s' = (PERCPU_NMI_TIMES s)(c := PERCPU_NMI_TIMES s c + 1)
    else r = NMI_DONE \<and> s' = s"
proof -
  obtain r s' where h: "core_pmu_nmi_handler P c s = (r, s')" by fastforce
  from core_msrs.nmi_eq [OF assms(1,2) h] h show ?thesis by (auto split: if_splits)
qed

lemma core_nmi_witness:
  "\<exists>s'. core_pmu_nmi_handler ref_core 3
      (core_st0\<lparr>pre_event_info := \<lparr>pre_evt = LLC_MISSES, threshold = 0\<rparr>, pre_event_init_value := - 32,
         world := ref_hw0\<lparr>msrs := (\<lambda>c a. 1)\<rparr>\<rparr>) = (NMI_HANDLED, s') \<and>
     core_mode (core_view ref_core (world s') 3) = Armed 32 \<and> PERCPU_NMI_TIMES s' 3 = 1"
proof -
  let ?s = "core_st0\<lparr>pre_event_info := \<lparr>pre_evt = LLC_MISSES, threshold = 0\<rparr>, pre_event_init_value := - 32,
         world := ref_hw0\<lparr>msrs := (\<lambda>c a. 1)\<rparr>\<rparr>"
  have "2 ^ 48 - unat (start_value (- 32)) = 32" using interval [of 32] by simp
  moreover have "bit (status (core_view ref_core (world ?s) 3)) 0" by (simp add: core_view_def)
  moreover have "PERCPU_NMI_TIMES ?s 3 = 0" by (simp add: core_loaded_def)
  ultimately show ?thesis
    using core_nmi [OF ref_core.core_msrs_axioms, of ?s 3] by (auto split: prod.splits)
qed

text \<open>C32: the handler does not acknowledge the overflow: it writes 0 to a register that clears the
  bits that are 1. Once a CPU has overflowed every later interrupt on it is claimed and
  counted, whoever it was meant for: after \<open>k\<close> of them the count is \<open>k\<close> higher.\<close>

theorem core_nmi_unacknowledged:
  assumes "core_msrs P" "pre_evt (pre_event_info s) = LLC_MISSES"
    and "bit (status (core_view P (world s) c)) 0"
  shows "fst (core_pmu_nmi_handler P c (((snd \<circ> core_pmu_nmi_handler P c) ^^ k) s)) = NMI_HANDLED \<and>
    PERCPU_NMI_TIMES (((snd \<circ> core_pmu_nmi_handler P c) ^^ k) s) c = PERCPU_NMI_TIMES s c + of_nat k"
proof -
  let ?f = "snd \<circ> core_pmu_nmi_handler P c"
  have "pre_evt (pre_event_info ((?f ^^ k) s)) = LLC_MISSES \<and>
      bit (status (core_view P (world ((?f ^^ k) s)) c)) 0 \<and>
      PERCPU_NMI_TIMES ((?f ^^ k) s) c = PERCPU_NMI_TIMES s c + of_nat k"
  proof (induction k)
    case (Suc k)
    define t where "t = (?f ^^ k) s"
    have n: "(?f ^^ Suc k) s = snd (core_pmu_nmi_handler P c t)" by (simp add: t_def)
    note IH = Suc.IH [folded t_def]
    obtain r s' where h: "core_pmu_nmi_handler P c t = (r, s')" by fastforce
    from core_msrs.nmi_eq [OF assms(1) conjunct1 [OF IH] h] IH h show ?case
      unfolding n by (auto simp: armed_def ac_simps split: if_splits)
  qed (use assms in simp)
  note i = this
  obtain r s' where h: "core_pmu_nmi_handler P c ((?f ^^ k) s) = (r, s')" by fastforce
  from core_msrs.nmi_eq [OF assms(1) conjunct1 [OF i] h] i h show ?thesis by (auto split: if_splits)
qed

lemma core_nmi_unacknowledged_witness:
  "PERCPU_NMI_TIMES (((snd \<circ> core_pmu_nmi_handler ref_core 3) ^^ 5)
     (core_st0\<lparr>pre_event_info := \<lparr>pre_evt = LLC_MISSES, threshold = 0\<rparr>, world := ref_hw0\<lparr>msrs := (\<lambda>c a. 1)\<rparr>\<rparr>)) 3 = 5"
proof -
  let ?s = "core_st0\<lparr>pre_event_info := \<lparr>pre_evt = LLC_MISSES, threshold = 0\<rparr>, world := ref_hw0\<lparr>msrs := (\<lambda>c a. 1)\<rparr>\<rparr>"
  have "PERCPU_NMI_TIMES ?s 3 = 0" by (simp add: core_loaded_def)
  with core_nmi_unacknowledged [OF ref_core.core_msrs_axioms, of ?s 3 5] show ?thesis
    by (simp add: core_view_def)
qed

section \<open>The life of the module\<close>

text \<open>While it is loaded a CPU takes interrupts, users write to the file, and the hardware counts.\<close>

inductive core_run :: "'h platform \<Rightarrow> ('h, 'm) core_st_scheme \<Rightarrow> ('h, 'm) core_st_scheme \<Rightarrow> bool"
  for P :: "'h platform" where
  start: "core_run P s s"
| nmi: "core_run P s s1 \<Longrightarrow> core_pmu_nmi_handler P c s1 = (r, s2) \<Longrightarrow> core_run P s s2"
| command: "core_run P s s1 \<Longrightarrow> core_pmu_proc_write P cnt offs buf s1 = (r, s2) \<Longrightarrow> core_run P s s2"
| counting: "core_run P s s1 \<Longrightarrow> core_run P s (s1\<lparr>world := h\<rparr>)"

definition core_ok :: "('h, 'm) core_st_scheme \<Rightarrow> bool" where
  "core_ok s \<longleftrightarrow> is_proc_registed s \<and> procs s = [''core_pmu''] \<and> proc_faults s = 0 \<and>
     nmi_actions s = [''CORE_PMU_NMI_HANDLER''] \<and> pre_evt (pre_event_info s) = LLC_MISSES"

context core_msrs
begin

lemma sampling_ok:
  fixes s :: "('h, 'm) core_st_scheme"
  assumes "is_proc_registed s" "procs s = [''core_pmu'']" "proc_faults s = 0"
    "nmi_actions s = [''CORE_PMU_NMI_HANDLER'']"
  shows "core_ok (core_pmu_start_sampling P s)"
proof -
  from sampling_result [of s] obtain w where "core_pmu_start_sampling P s =
      s\<lparr>pre_event_info := \<lparr>pre_evt = LLC_MISSES, threshold = pre_event_init_value s\<rparr>, world := w\<rparr>"
    by (rule loop_resultE)
  with assms show ?thesis by (simp add: core_ok_def)
qed

lemma clear_ok: "core_ok s \<Longrightarrow> core_ok (core_pmu_clear_msrs P s)"
proof -
  assume s: "core_ok s"
  from clear_loop [of s] obtain w where "core_pmu_clear_msrs P s = s\<lparr>world := w\<rparr>"
    by (rule loop_resultE)
  with s show ?thesis by (simp add: core_ok_def)
qed

lemma run_ok: "core_run P s s' \<Longrightarrow> core_ok s \<Longrightarrow> core_ok s'"
proof (induction rule: core_run.induct)
  case (nmi s s1 c r s2)
  from nmi.IH [OF nmi.prems] have ok: "core_ok s1" .
  then have "pre_evt (pre_event_info s1) = LLC_MISSES" by (simp add: core_ok_def)
  from nmi_eq [OF this nmi.hyps(2)] ok show ?case by (auto simp: core_ok_def split: if_splits)
next
  case (command s s1 cnt offs buf r s2)
  from command.IH [OF command.prems] have ok: "core_ok s1" .
  then have "core_ok (core_pmu_clear_counter P (s1\<lparr>pre_event_init_value := v\<rparr>))" for v
    by (simp add: core_ok_def clear_counter_eq)
  note clear_ok [OF this] sampling_ok [of "core_pmu_clear_counter P (s1\<lparr>pre_event_init_value := v\<rparr>)" for v]
  with command.hyps(2) ok show ?case
    by (auto simp: core_pmu_proc_write_def clear_counter_eq core_ok_def split: if_splits option.splits)
qed (simp_all add: core_ok_def)

lemma init_ok:
  fixes m :: 'm
  assumes "core_pmu_init P (core_loaded h m) = (ret, s)"
  shows "if proc_create_ok P ''core_pmu'' then ret = 0 \<and> core_ok s \<and>
      core_view P (world s) = (\<lambda>c. if reached P h c then armed (- 256) (core_view P h c) else core_view P h c)
    else ret = - ENOENT \<and> s = core_loaded h m"
proof (cases "proc_create_ok P ''core_pmu''")
  case True
  obtain s1 where s1: "s1 = cpu_perf_info P (cpu_brand_frequency P ((core_loaded h m)\<lparr>procs := [''core_pmu''], is_proc_registed := True\<rparr>))"
    and f: "world s1 = h" "is_proc_registed s1" "procs s1 = [''core_pmu'']" "proc_faults s1 = 0" "nmi_actions s1 = []"
    by (auto simp: cpu_perf_info_def cpu_brand_frequency_def split: prod.splits)
  obtain w where l: "core_pmu_lapic_init P s1 = s1\<lparr>world := w\<rparr>"
    "core_view P w = core_view P h" "reached P w = reached P h"
  proof (rule loop_resultE [OF lapic_loop [of s1]])
    fix w assume "core_pmu_lapic_init P s1 = s1\<lparr>world := w\<rparr>" "reached P w = reached P (world s1)"
      "core_view P w = (\<lambda>c. if reached P (world s1) c then id (core_view P (world s1) c) else core_view P (world s1) c)"
    then show thesis by (intro that [of w]) (simp_all add: f cong: if_cong)
  qed
  let ?s2 = "s1\<lparr>world := w, nmi_actions := [''CORE_PMU_NMI_HANDLER''], pre_event_init_value := - 256,
      PMU_LATENCY := CPU_BASE_FREQUENCY s1 * 10\<rparr>"
  have i: "ret = 0" "s = core_pmu_start_sampling P ?s2"
    using assms True f
    by (simp_all add: core_pmu_init_def core_pmu_regitser_nmi_handler_def core_pmu_proc_create_def proc_create_def cpu_print_info_def s1 [symmetric] l(1) Let_def
        register_nmi_handler_def)
  have "core_ok s" unfolding i by (rule sampling_ok) (simp_all add: f)
  with sampling_result [of ?s2] i True show ?thesis
    by (simp add: loop_result_def l cong: if_cong)
next
  case False
  with assms show ?thesis by (simp add: core_pmu_init_def core_pmu_regitser_nmi_handler_def core_pmu_proc_create_def proc_create_def)
qed

end

text \<open>C33: loading fails, leaving nothing, exactly when the /proc entry cannot be made; otherwise every
  CPU that answers interrupts after 256 misses. Whatever happens then, unloading removes the
  entry and the handler it made, and stops the counter of every CPU that answers.\<close>

theorem core_module_life:
  assumes "core_msrs P" "core_pmu_init P (core_loaded h m) = (ret, s)" "core_run P s s'"
  shows "if proc_create_ok P ''core_pmu''
    then ret = 0 \<and>
      (\<forall>c. reached P h c \<longrightarrow> core_mode (core_view P (world s) c) = Armed 256) \<and>
      procs (core_pmu_exit P s') = [] \<and> proc_faults (core_pmu_exit P s') = 0 \<and> nmi_actions (core_pmu_exit P s') = [] \<and>
      (\<forall>c. reached P (world s') c \<longrightarrow> core_mode (core_view P (world (core_pmu_exit P s')) c) = Stopped)
    else ret = - ENOENT \<and> s = core_loaded h m"
proof (cases "proc_create_ok P ''core_pmu''")
  case False
  with core_msrs.init_ok [OF assms(1,2)] show ?thesis by simp
next
  case True
  note i = core_msrs.init_ok [OF assms(1,2)]
  with True have "core_ok s" by simp
  then have ok: "core_ok s'" by (rule core_msrs.run_ok [OF assms(1,3)])
  let ?s = "s'\<lparr>procs := []\<rparr>"
  obtain w where w: "core_pmu_clear_msrs P ?s = ?s\<lparr>world := w\<rparr>"
    "core_view P w = (\<lambda>c. if reached P (world s') c then cleared (core_view P (world s') c) else core_view P (world s') c)"
  proof (rule core_msrs.loop_resultE [OF assms(1) core_msrs.clear_loop [OF assms(1), of ?s]])
    fix w assume "core_pmu_clear_msrs P ?s = ?s\<lparr>world := w\<rparr>"
      "core_view P w = (\<lambda>c. if reached P (world ?s) c then cleared (core_view P (world ?s) c) else core_view P (world ?s) c)"
    then show thesis by (intro that [of w]) (simp_all cong: if_cong)
  qed
  then have "core_pmu_exit P s' = ?s\<lparr>world := w, nmi_actions := []\<rparr>"
    using ok by (simp add: core_pmu_exit_def core_pmu_unregister_nmi_handler_def core_pmu_proc_remove_def remove_proc_entry_def core_ok_def
        unregister_nmi_handler_def Let_def)
  with True i w(2) ok interval [of 256] show ?thesis by (simp add: core_ok_def)
qed

lemma core_module_life_witness:
  "core_mode (core_view ref_core (world (snd (core_pmu_init ref_core core_st0))) 3) = Armed 256 \<and>
   procs (core_pmu_exit ref_core (snd (core_pmu_init ref_core core_st0))) = []"
  using core_module_life [OF ref_core.core_msrs_axioms surjective_pairing core_run.start, of ref_hw0 "()"]
  by (simp add: reached_def ref_hw0_def)

end
