(* ===== verification/Ioapic.thy ===== *)
theory Ioapic
  imports Prelude
begin

text \<open>
  The IO APIC tool, \<open>misc/ioapic.c\<close>: the registers of an IO APIC as bit fields, the accesses through
  its index and data registers, reading and writing a redirection entry, and the listing the
  module prints when it is loaded. Memory-mapped access is the parameter \<open>mmio\<close>.
\<close>

section \<open>Registers\<close>

text \<open>The bit fields, from the low bits up, at their widths.\<close>

record IO_APIC_reg_00 =
  r0_reserved_2 :: "14 word"
  LTS :: "1 word"
  delivery_type :: "1 word"
  r0_reserved_1 :: "8 word"
  ID :: "8 word"

definition reg_00_bits :: "u32 \<Rightarrow> IO_APIC_reg_00" where
  "reg_00_bits raw =
     \<lparr>r0_reserved_2 = ucast raw, LTS = ucast (drop_bit 14 raw), delivery_type = ucast (drop_bit 15 raw),
      r0_reserved_1 = ucast (drop_bit 16 raw), ID = ucast (drop_bit 24 raw)\<rparr>"

record IO_APIC_reg_01 =
  ioapic_version :: "8 word"
  r1_reserved_2 :: "7 word"
  PRQ :: "1 word"
  nr_entries :: "8 word"
  r1_reserved_1 :: "8 word"

definition reg_01_bits :: "u32 \<Rightarrow> IO_APIC_reg_01" where
  "reg_01_bits raw =
     \<lparr>ioapic_version = ucast raw, r1_reserved_2 = ucast (drop_bit 8 raw), PRQ = ucast (drop_bit 15 raw),
      nr_entries = ucast (drop_bit 16 raw), r1_reserved_1 = ucast (drop_bit 24 raw)\<rparr>"

record IO_APIC_reg_02 =
  r2_reserved_2 :: "24 word"
  arbitration :: "4 word"
  r2_reserved_1 :: "4 word"

definition reg_02_bits :: "u32 \<Rightarrow> IO_APIC_reg_02" where
  "reg_02_bits raw =
     \<lparr>r2_reserved_2 = ucast raw, arbitration = ucast (drop_bit 24 raw), r2_reserved_1 = ucast (drop_bit 28 raw)\<rparr>"

record IO_APIC_reg_03 =
  boot_DT :: "1 word"
  r3_reserved_1 :: "31 word"

definition reg_03_bits :: "u32 \<Rightarrow> IO_APIC_reg_03" where
  "reg_03_bits raw = \<lparr>boot_DT = ucast raw, r3_reserved_1 = ucast (drop_bit 1 raw)\<rparr>"

record IO_APIC_route_entry =
  vector :: "8 word"
  delivery_mode :: "3 word"
  dest_mode :: "1 word"
  delivery_status :: "1 word"
  polarity :: "1 word"
  irr :: "1 word"
  trigger :: "1 word"
  mask_bit :: "1 word"
  e_reserved_2 :: "15 word"
  e_reserved_3 :: "24 word"
  dest :: "8 word"

text \<open>The union of an entry and its two 32-bit words.\<close>

definition reu_entry :: "u32 \<Rightarrow> u32 \<Rightarrow> IO_APIC_route_entry" where
  "reu_entry w1 w2 =
     \<lparr>vector = ucast w1, delivery_mode = ucast (drop_bit 8 w1), dest_mode = ucast (drop_bit 11 w1),
      delivery_status = ucast (drop_bit 12 w1), polarity = ucast (drop_bit 13 w1), irr = ucast (drop_bit 14 w1),
      trigger = ucast (drop_bit 15 w1), mask_bit = ucast (drop_bit 16 w1), e_reserved_2 = ucast (drop_bit 17 w1),
      e_reserved_3 = ucast w2, dest = ucast (drop_bit 24 w2)\<rparr>"

definition reu_w1 :: "IO_APIC_route_entry \<Rightarrow> u32" where
  "reu_w1 e =
     ucast (vector e) OR push_bit 8 (ucast (delivery_mode e)) OR push_bit 11 (ucast (dest_mode e)) OR
     push_bit 12 (ucast (delivery_status e)) OR push_bit 13 (ucast (polarity e)) OR push_bit 14 (ucast (irr e)) OR
     push_bit 15 (ucast (trigger e)) OR push_bit 16 (ucast (mask_bit e)) OR push_bit 17 (ucast (e_reserved_2 e))"

definition reu_w2 :: "IO_APIC_route_entry \<Rightarrow> u32" where
  "reu_w2 e = ucast (e_reserved_3 e) OR push_bit 24 (ucast (dest e))"

section \<open>Access\<close>

text \<open>\<open>fix_to_virt\<close> is the kernel's fixed mapping, from the slot of the first IO APIC on. The index
  register is at offset 0, the data register at offset 16.\<close>

record 'h mmio =
  writel :: "u32 \<Rightarrow> u64 \<Rightarrow> 'h \<Rightarrow> 'h"
  readl :: "'h \<Rightarrow> u64 \<Rightarrow> u32"
  fix_to_virt :: "nat \<Rightarrow> u64"
  FIX_IO_APIC_BASE_0 :: nat

abbreviation PAGE_MASK :: u64 where "PAGE_MASK \<equiv> NOT (mask 12)"

definition IO_APIC_BASE :: "'h mmio \<Rightarrow> nat \<Rightarrow> u64" where
  "IO_APIC_BASE M idx = fix_to_virt M (FIX_IO_APIC_BASE_0 M + idx) + (0xfec00000 AND NOT PAGE_MASK)"

definition ioapic_index :: "'h mmio \<Rightarrow> nat \<Rightarrow> u64" where "ioapic_index M apic = IO_APIC_BASE M apic"
definition ioapic_data :: "'h mmio \<Rightarrow> nat \<Rightarrow> u64" where "ioapic_data M apic = IO_APIC_BASE M apic + 16"

definition IO_APIC_READ :: "'h mmio \<Rightarrow> nat \<Rightarrow> u32 \<Rightarrow> 'h \<Rightarrow> u32 \<times> 'h" where
  "IO_APIC_READ M apic reg h =
     (let h = writel M reg (ioapic_index M apic) h in (readl M h (ioapic_data M apic), h))"

definition IO_APIC_WRITE :: "'h mmio \<Rightarrow> nat \<Rightarrow> u32 \<Rightarrow> u32 \<Rightarrow> 'h \<Rightarrow> 'h" where
  "IO_APIC_WRITE M apic reg value h =
     (let h = writel M reg (ioapic_index M apic) h in writel M value (ioapic_data M apic) h)"

definition IO_APIC_READ_ENTRY :: "'h mmio \<Rightarrow> nat \<Rightarrow> u32 \<Rightarrow> 'h \<Rightarrow> IO_APIC_route_entry \<times> 'h" where
  "IO_APIC_READ_ENTRY M apic pin h =
     (let (w1, h) = IO_APIC_READ M apic (0x10 + 2 * pin) h;
          (w2, h) = IO_APIC_READ M apic (0x11 + 2 * pin) h
      in (reu_entry w1 w2, h))"

definition IO_APIC_WRITE_ENTRY :: "'h mmio \<Rightarrow> nat \<Rightarrow> u32 \<Rightarrow> IO_APIC_route_entry \<Rightarrow> 'h \<Rightarrow> 'h" where
  "IO_APIC_WRITE_ENTRY M apic pin e h =
     (let h = IO_APIC_WRITE M apic (0x11 + 2 * pin) (reu_w2 e) h
      in IO_APIC_WRITE M apic (0x10 + 2 * pin) (reu_w1 e) h)"

section \<open>The listing\<close>

text \<open>The entries that are printed, pin 0 to pin \<open>n\<close>.\<close>

fun print_entries :: "'h mmio \<Rightarrow> nat \<Rightarrow> u32 list \<Rightarrow> 'h \<Rightarrow> (u32 \<times> IO_APIC_route_entry) list \<times> 'h" where
  "print_entries M apic [] h = ([], h)"
| "print_entries M apic (i # is) h =
     (let (e, h) = IO_APIC_READ_ENTRY M apic i h; (es, h) = print_entries M apic is h in ((i, e) # es, h))"

definition IO_APIC_PRINT_ENTRIES :: "'h mmio \<Rightarrow> nat \<Rightarrow> nat \<Rightarrow> 'h \<Rightarrow> (u32 \<times> IO_APIC_route_entry) list \<times> 'h" where
  "IO_APIC_PRINT_ENTRIES M apic n h = print_entries M apic (map of_nat [0..<Suc n]) h"

text \<open>The raw registers and the entries that are printed; registers 2 and 3 are read, and printed,
  from a version on only, and not when they repeat another one.\<close>

definition IO_APIC_PRINT_APIC :: "'h mmio \<Rightarrow> nat \<Rightarrow> 'h \<Rightarrow>
    (u32 \<times> u32 \<times> u32 option \<times> u32 option \<times> (u32 \<times> IO_APIC_route_entry) list) \<times> 'h" where
  "IO_APIC_PRINT_APIC M apic h =
     (let (r0, h) = IO_APIC_READ M apic 0 h;
          (r1, h) = IO_APIC_READ M apic 1 h;
          v = ioapic_version (reg_01_bits r1);
          (r2, h) = (if 0x10 \<le> v then map_prod Some id (IO_APIC_READ M apic 2 h) else (None, h));
          (r3, h) = (if 0x20 \<le> v then map_prod Some id (IO_APIC_READ M apic 3 h) else (None, h));
          p2 = (if 0x10 \<le> v \<and> r2 \<noteq> Some r1 then r2 else None);
          p3 = (if 0x20 \<le> v \<and> r3 \<noteq> r2 \<and> r3 \<noteq> Some r1 then r3 else None);
          (es, h) = IO_APIC_PRINT_ENTRIES M apic (unat (nr_entries (reg_01_bits r1))) h
      in ((r0, r1, p2, p3, es), h))"

definition apicinit :: "'h mmio \<Rightarrow> 'h \<Rightarrow> int \<times> 'h" where
  "apicinit M h = (0, snd (IO_APIC_PRINT_APIC M 1 (snd (IO_APIC_PRINT_APIC M 0 h))))"

end
