(* ===== verification/Ioapic_Entries.thy ===== *)
theory Ioapic_Entries
  imports Ioapic
begin

text \<open>
  Redirection entries: unpacking their bit fields, the contract of an IO APIC's index and data
  registers, the order in which an entry is written, what is read back, and what the listing
  shows.
\<close>

section \<open>Bit fields\<close>

lemma field_cong:
  fixes v w :: u32
  assumes "\<And>n. n < LENGTH('a) \<Longrightarrow> bit w (k + n) = bit v (k + n)"
  shows "(ucast (drop_bit k w) :: 'a :: len word) = ucast (drop_bit k v)"
  using assms by (auto intro!: bit_word_eqI simp: bit_simps)

lemma w1_fields:
  "ucast (reu_w1 e) = vector e" "ucast (drop_bit 8 (reu_w1 e)) = delivery_mode e"
  "ucast (drop_bit 11 (reu_w1 e)) = dest_mode e" "ucast (drop_bit 12 (reu_w1 e)) = delivery_status e"
  "ucast (drop_bit 13 (reu_w1 e)) = polarity e" "ucast (drop_bit 14 (reu_w1 e)) = irr e"
  "ucast (drop_bit 15 (reu_w1 e)) = trigger e" "ucast (drop_bit 16 (reu_w1 e)) = mask_bit e"
  "ucast (drop_bit 17 (reu_w1 e)) = e_reserved_2 e"
  by (rule bit_word_eqI; auto simp: reu_w1_def bit_simps dest: bit_imp_le_length)+

lemma w2_fields:
  "ucast (reu_w2 e) = e_reserved_3 e" "ucast (drop_bit 24 (reu_w2 e)) = dest e"
  by (rule bit_word_eqI; auto simp: reu_w2_def bit_simps dest: bit_imp_le_length)+

lemma reu_entry_fields: "reu_entry (reu_w1 e) (reu_w2 e) = e"
  by (simp add: reu_entry_def w1_fields w2_fields)

section \<open>The contract of an IO APIC\<close>

text \<open>\<open>reg h r\<close> is register \<open>r\<close>, \<open>index h\<close> the one the data register stands for. The delivery status,
  the remote IRR and the reserved bits of an entry are the hardware's; the other bits are what
  is written.\<close>

definition rte_hw :: "u32 \<Rightarrow> u32" where
  "rte_hw r = (if bit r 0 then mask 24 else push_bit 12 1 OR push_bit 14 1 OR NOT (mask 17))"

lemma bit_rte_hw:
  "bit (rte_hw r) n \<longleftrightarrow> (if bit r 0 then n < 24 else n = 12 \<or> n = 14 \<or> (17 \<le> n \<and> n < 32))"
  unfolding rte_hw_def by (cases "bit r 0")
    (simp_all only: if_True if_False bit_or_iff bit_push_bit_iff bit_1_iff bit_not_iff bit_mask_iff possible_bit_def,
     auto)

text \<open>The entry the registers \<open>f\<close> hold for a pin.\<close>

definition pin_entry :: "(u32 \<Rightarrow> u32) \<Rightarrow> u32 \<Rightarrow> IO_APIC_route_entry" where
  "pin_entry f p = reu_entry (f (16 + 2 * p)) (f (17 + 2 * p))"

locale io_apic =
  fixes M :: "'h mmio" and apic :: nat and reg :: "'h \<Rightarrow> u32 \<Rightarrow> u32" and index :: "'h \<Rightarrow> u32"
  assumes select: "r < 256 \<Longrightarrow> index (writel M r (ioapic_index M apic) h) = r"
      "reg (writel M r (ioapic_index M apic) h) = reg h"
    and read: "readl M h (ioapic_data M apic) = reg h (index h)"
    and store: "index (writel M v (ioapic_data M apic) h) = index h"
      "16 \<le> index h \<Longrightarrow> r \<noteq> index h \<Longrightarrow> reg (writel M v (ioapic_data M apic) h) r = reg h r"
      "16 \<le> index h \<Longrightarrow> \<not> bit (rte_hw (index h)) n \<Longrightarrow>
         bit (reg (writel M v (ioapic_data M apic) h) (index h)) n = bit v n"
begin

lemma io_read: "r < 256 \<Longrightarrow> fst (IO_APIC_READ M apic r h) = reg h r" "reg (snd (IO_APIC_READ M apic r h)) = reg h"
  by (simp_all add: IO_APIC_READ_def Let_def read select)

lemma io_write:
  assumes "16 \<le> r" "r < 256"
  shows "x \<noteq> r \<Longrightarrow> reg (IO_APIC_WRITE M apic r v h) x = reg h x"
    and "\<not> bit (rte_hw r) n \<Longrightarrow> bit (reg (IO_APIC_WRITE M apic r v h) r) n = bit v n"
  using store(2,3) [of "writel M r (ioapic_index M apic) h"] assms
  by (simp_all add: IO_APIC_WRITE_def select)

text \<open>The registers of a pin.\<close>

lemma pin_regs:
  fixes p :: u32
  assumes "p < 120"
  shows "16 \<le> 16 + 2 * p" "16 + 2 * p < 256" "16 \<le> 17 + 2 * p" "17 + 2 * p < 256"
    "\<not> bit (16 + 2 * p) 0" "bit (17 + 2 * p) 0" "16 + 2 * p \<noteq> 17 + 2 * p"
proof -
  have n: "unat p < 120" using assms by (simp add: word_less_nat_alt)
  then have "unat (16 + 2 * p) = 16 + 2 * unat p" "unat (17 + 2 * p) = 17 + 2 * unat p"
    by (simp_all add: unat_word_ariths take_bit_nat_eq_self)
  with n show "16 \<le> 16 + 2 * p" "16 + 2 * p < 256" "16 \<le> 17 + 2 * p" "17 + 2 * p < 256" "16 + 2 * p \<noteq> 17 + 2 * p"
    by (simp_all add: word_le_nat_alt word_less_nat_alt word_unat_eq_iff)
  show "\<not> bit (16 + 2 * p) 0" "bit (17 + 2 * p) 0" by (simp_all add: bit_0)
qed

lemma read_entry:
  assumes "p < 120"
  shows "fst (IO_APIC_READ_ENTRY M apic p h) = pin_entry (reg h) p" "reg (snd (IO_APIC_READ_ENTRY M apic p h)) = reg h"
  using pin_regs [OF assms] io_read [of "16 + 2 * p" h] io_read [of "17 + 2 * p" "snd (IO_APIC_READ M apic (16 + 2 * p) h)"]
  by (auto simp: IO_APIC_READ_ENTRY_def pin_entry_def split: prod.splits)

lemma high_word:
  fixes e :: IO_APIC_route_entry and h :: 'h
  assumes "p < 120"
  defines "h1 \<equiv> IO_APIC_WRITE M apic (17 + 2 * p) (reu_w2 e) h"
  shows "dest (pin_entry (reg h1) p) = dest e" "r \<noteq> 17 + 2 * p \<Longrightarrow> reg h1 r = reg h r"
    "pin_entry (reg h1) p = (pin_entry (reg h) p)\<lparr>dest := dest e, e_reserved_3 := e_reserved_3 (pin_entry (reg h1) p)\<rparr>"
proof -
  note p = pin_regs [OF assms(1)]
  note w = io_write [OF p(3,4), of _ "reu_w2 e" h, folded h1_def]
  show r: "r \<noteq> 17 + 2 * p \<Longrightarrow> reg h1 r = reg h r" for r using w(1) .
  have "bit (reg h1 (17 + 2 * p)) (24 + n) = bit (reu_w2 e) (24 + n)" for n
    by (rule w(2)) (use p(6) in \<open>simp add: bit_rte_hw\<close>)
  then show d: "dest (pin_entry (reg h1) p) = dest e"
    using field_cong [where 'a = 8 and k = 24 and w = "reg h1 (17 + 2 * p)" and v = "reu_w2 e"] by (simp add: pin_entry_def reu_entry_def w2_fields)
  show "pin_entry (reg h1) p = (pin_entry (reg h) p)\<lparr>dest := dest e, e_reserved_3 := e_reserved_3 (pin_entry (reg h1) p)\<rparr>"
    using d r [OF p(7)] by (simp add: pin_entry_def reu_entry_def)
qed

text \<open>After both writes the fields that are not the hardware's are those of the new entry.\<close>

lemma write_entry:
  fixes e :: IO_APIC_route_entry and h :: 'h
  assumes "p < 120"
  defines "h2 \<equiv> IO_APIC_WRITE_ENTRY M apic p e h"
  shows "pin_entry (reg h2) p = e\<lparr>delivery_status := delivery_status (pin_entry (reg h2) p), irr := irr (pin_entry (reg h2) p),
      e_reserved_2 := e_reserved_2 (pin_entry (reg h2) p), e_reserved_3 := e_reserved_3 (pin_entry (reg h2) p)\<rparr>"
    "r \<noteq> 16 + 2 * p \<Longrightarrow> r \<noteq> 17 + 2 * p \<Longrightarrow> reg h2 r = reg h r"
proof -
  let ?h1 = "IO_APIC_WRITE M apic (17 + 2 * p) (reu_w2 e) h"
  have h2: "h2 = IO_APIC_WRITE M apic (16 + 2 * p) (reu_w1 e) ?h1"
    by (simp add: h2_def IO_APIC_WRITE_ENTRY_def Let_def)
  note p = pin_regs [OF assms(1)]
  note w = io_write [OF p(1,2), of _ "reu_w1 e" ?h1, folded h2]
  note hi = high_word [OF assms(1), where e = e and h = h]
  show "r \<noteq> 16 + 2 * p \<Longrightarrow> r \<noteq> 17 + 2 * p \<Longrightarrow> reg h2 r = reg h r" for r
    using w(1) hi(2) by simp
  have b: "bit (reg h2 (16 + 2 * p)) n = bit (reu_w1 e) n" if "n \<noteq> 12" "n \<noteq> 14" "n < 17" for n
    by (rule w(2)) (use p(5) that in \<open>simp add: bit_rte_hw\<close>)
  note f = field_cong [where w = "reg h2 (16 + 2 * p)" and v = "reu_w1 e", OF b]
  have d: "dest (pin_entry (reg h2) p) = dest e"
    using hi(1) w(1) [of "17 + 2 * p"] p(7) by (simp add: pin_entry_def reu_entry_def)
  have "vector (pin_entry (reg h2) p) = vector e" "delivery_mode (pin_entry (reg h2) p) = delivery_mode e"
    "dest_mode (pin_entry (reg h2) p) = dest_mode e" "polarity (pin_entry (reg h2) p) = polarity e"
    "trigger (pin_entry (reg h2) p) = trigger e" "mask_bit (pin_entry (reg h2) p) = mask_bit e"
    using f [where 'a = 8 and k = 0] f [where 'a = 3 and k = 8] f [where 'a = 1 and k = 11]
      f [where 'a = 1 and k = 13] f [where 'a = 1 and k = 15] f [where 'a = 1 and k = 16]
    by (simp_all add: pin_entry_def reu_entry_def w1_fields)
  with d show "pin_entry (reg h2) p = e\<lparr>delivery_status := delivery_status (pin_entry (reg h2) p), irr := irr (pin_entry (reg h2) p),
      e_reserved_2 := e_reserved_2 (pin_entry (reg h2) p), e_reserved_3 := e_reserved_3 (pin_entry (reg h2) p)\<rparr>"
    by (intro IO_APIC_route_entry.equality) simp_all
qed

text \<open>The listing has the entries of the pins, in order, and changes none.\<close>

lemma listing:
  "(\<And>p. p \<in> set ps \<Longrightarrow> p < 120) \<Longrightarrow>
   fst (print_entries M apic ps h) = map (\<lambda>p. (p, pin_entry (reg h) p)) ps \<and> reg (snd (print_entries M apic ps h)) = reg h"
proof (induction ps arbitrary: h)
  case (Cons p ps)
  obtain e h1 where r: "IO_APIC_READ_ENTRY M apic p h = (e, h1)" by fastforce
  with read_entry [of p h] Cons.prems have "e = pin_entry (reg h) p" "reg h1 = reg h" by auto
  with Cons.IH [of h1] Cons.prems r show ?case by (auto simp: pin_entry_def split: prod.splits)
qed simp

end

section \<open>The reference IO APIC\<close>

record ref_ioapic =
  ref_index :: u32
  ref_regs :: "u32 \<Rightarrow> u32"

definition ref_mmio :: "ref_ioapic mmio" where
  "ref_mmio =
     \<lparr>writel = (\<lambda>v a h. if a = 0x10000 then h\<lparr>ref_index := v\<rparr>
         else if a = 0x10010 then h\<lparr>ref_regs := (ref_regs h)(ref_index h :=
           (v AND NOT (rte_hw (ref_index h))) OR (ref_regs h (ref_index h) AND rte_hw (ref_index h)))\<rparr>
         else h),
      readl = (\<lambda>h a. if a = 0x10010 then ref_regs h (ref_index h) else 0),
      fix_to_virt = (\<lambda>n. 0x10000 + 0x1000 * of_nat n), FIX_IO_APIC_BASE_0 = 0\<rparr>"

lemma ref_mmio_addr: "ioapic_index ref_mmio 0 = 0x10000" "ioapic_data ref_mmio 0 = 0x10010"
proof -
  have "(0xfec00000 AND NOT PAGE_MASK :: u64) = 0" by code_simp
  then show "ioapic_index ref_mmio 0 = 0x10000" "ioapic_data ref_mmio 0 = 0x10010"
    by (simp_all add: ioapic_index_def ioapic_data_def IO_APIC_BASE_def ref_mmio_def)
qed

interpretation ref_ioapic: io_apic ref_mmio 0 ref_regs ref_index
  by unfold_locales (auto simp: ref_mmio_addr, auto simp: ref_mmio_def bit_simps dest: bit_imp_le_length)

section \<open>Properties\<close>

text \<open>C37: the high word of an entry is written first. Until the last register write the low word is
  the old one, so an entry that was masked stays masked, while the destination is already the
  new one: an entry that is unmasked by the write
  sends no interrupt before it is complete.\<close>

theorem ioapic_write_order:
  assumes "io_apic M apic reg index" "pin < 120"
  shows "\<exists>h1. IO_APIC_WRITE_ENTRY M apic pin e h = IO_APIC_WRITE M apic (0x10 + 2 * pin) (reu_w1 e) h1 \<and>
    reg h1 (0x10 + 2 * pin) = reg h (0x10 + 2 * pin) \<and>
    mask_bit (pin_entry (reg h1) pin) = mask_bit (pin_entry (reg h) pin) \<and>
    dest (pin_entry (reg h1) pin) = dest e"
proof -
  let ?h1 = "IO_APIC_WRITE M apic (17 + 2 * pin) (reu_w2 e) h"
  note hi = io_apic.high_word [OF assms(1,2), where e = e and h = h]
  have "reg ?h1 (16 + 2 * pin) = reg h (16 + 2 * pin)"
    using hi(2) io_apic.pin_regs(7) [OF assms] by simp
  then show ?thesis
    using hi(1) by (intro exI [of _ ?h1]) (simp add: IO_APIC_WRITE_ENTRY_def Let_def pin_entry_def reu_entry_def)
qed

lemma ioapic_write_order_witness:
  "\<exists>h1. IO_APIC_WRITE_ENTRY ref_mmio 0 3 (reu_entry 0x31 0x2000000) \<lparr>ref_index = 0, ref_regs = (\<lambda>_. 0x10000)\<rparr> =
      IO_APIC_WRITE ref_mmio 0 (0x10 + 2 * 3) (reu_w1 (reu_entry 0x31 0x2000000)) h1 \<and>
    mask_bit (pin_entry (ref_regs h1) 3) = 1 \<and> dest (pin_entry (ref_regs h1) 3) = 2"
proof -
  have "mask_bit (pin_entry (\<lambda>_. 0x10000) 3) = 1" "dest (reu_entry 0x31 0x2000000) = 2"
    by code_simp+
  with ioapic_write_order [OF ref_ioapic.io_apic_axioms, of 3 "reu_entry 0x31 0x2000000"
      "\<lparr>ref_index = 0, ref_regs = (\<lambda>_. 0x10000)\<rparr>"] show ?thesis by auto
qed

text \<open>C38: an entry that is written is read back, but for the bits that belong to the hardware; no
  other register changes, and reading changes none.\<close>

theorem ioapic_entry_roundtrip:
  assumes "io_apic M apic reg index" "pin < 120"
  shows "case IO_APIC_READ_ENTRY M apic pin (IO_APIC_WRITE_ENTRY M apic pin e h) of (e', h') \<Rightarrow>
    e' = e\<lparr>delivery_status := delivery_status e', irr := irr e', e_reserved_2 := e_reserved_2 e',
      e_reserved_3 := e_reserved_3 e'\<rparr> \<and>
    (\<forall>r. r \<notin> {0x10 + 2 * pin, 0x11 + 2 * pin} \<longrightarrow> reg h' r = reg h r)"
proof -
  let ?h2 = "IO_APIC_WRITE_ENTRY M apic pin e h"
  obtain e' h' where r: "IO_APIC_READ_ENTRY M apic pin ?h2 = (e', h')" by fastforce
  with io_apic.read_entry [OF assms, of ?h2] have "e' = pin_entry (reg ?h2) pin" "reg h' = reg ?h2" by auto
  with r io_apic.write_entry [OF assms, where e = e and h = h] show ?thesis by simp
qed

lemma ioapic_entry_roundtrip_witness:
  "vector (fst (IO_APIC_READ_ENTRY ref_mmio 0 3 (IO_APIC_WRITE_ENTRY ref_mmio 0 3 (reu_entry 0x31 0x2000000)
     \<lparr>ref_index = 0, ref_regs = (\<lambda>_. 0x10000)\<rparr>))) = 0x31"
proof -
  let ?e = "reu_entry 0x31 0x2000000" and ?h = "\<lparr>ref_index = 0, ref_regs = (\<lambda>_. 0x10000)\<rparr>"
  obtain e' h' where r: "IO_APIC_READ_ENTRY ref_mmio 0 3 (IO_APIC_WRITE_ENTRY ref_mmio 0 3 ?e ?h) = (e', h')"
    by fastforce
  with ioapic_entry_roundtrip [OF ref_ioapic.io_apic_axioms, of 3 ?e ?h]
  have "e' = ?e\<lparr>delivery_status := delivery_status e', irr := irr e', e_reserved_2 := e_reserved_2 e',
      e_reserved_3 := e_reserved_3 e'\<rparr>" by simp
  then have "vector e' = vector ?e" by (rule ssubst) simp
  moreover have "vector ?e = 0x31" by code_simp
  ultimately show ?thesis by (simp add: r)
qed

end
