(* ===== verification/Migrate.thy ===== *)
theory Migrate
  imports Prelude
begin

text \<open>
  The page access statistics, \<open>migrate.c\<close>: a timer that walks the page table of a process and
  reports every page that has been accessed. The kernel's page table accessors are the
  parameter \<open>pgtable\<close>. A walk changes no memory: \<open>pte_clear_flags\<close> returns a copy of the entry it is
  given with the flags cleared, and \<open>clear_pte_range\<close> drops the copy.
\<close>

section \<open>Page tables\<close>

text \<open>Pointers to table entries are numbers, \<open>++\<close> adds 1. An \<open>_offset\<close> function is the entry of an
  address, an \<open>_addr_end\<close> function the end of the part of a range that the entry of its first
  address covers. \<open>pid_task\<close> is the list of the areas of a process, \<open>None\<close> for a process that is
  gone and \<open>Some None\<close> for a kernel thread, which has no memory. \<open>tsc n\<close> is the time at the \<open>n\<close>-th
  reading of the time stamp counter.\<close>

record vm_area_struct =
  vm_start :: u64
  vm_end :: u64

record 'h pgtable =
  pgd_offset :: "u64 \<Rightarrow> nat"
  pgd_none :: "'h \<Rightarrow> nat \<Rightarrow> bool"
  pgd_addr_end :: "u64 \<Rightarrow> u64 \<Rightarrow> u64"
  pud_offset :: "'h \<Rightarrow> nat \<Rightarrow> u64 \<Rightarrow> nat"
  pud_none :: "'h \<Rightarrow> nat \<Rightarrow> bool"
  pud_addr_end :: "u64 \<Rightarrow> u64 \<Rightarrow> u64"
  pmd_offset :: "'h \<Rightarrow> nat \<Rightarrow> u64 \<Rightarrow> nat"
  pmd_none :: "'h \<Rightarrow> nat \<Rightarrow> bool"
  pmd_addr_end :: "u64 \<Rightarrow> u64 \<Rightarrow> u64"
  pte_offset_map :: "'h \<Rightarrow> nat \<Rightarrow> u64 \<Rightarrow> nat"
  pte_at :: "'h \<Rightarrow> nat \<Rightarrow> u64"
  pte_none :: "u64 \<Rightarrow> bool"
  pte_present :: "u64 \<Rightarrow> bool"
  pte_young :: "u64 \<Rightarrow> bool"
  pte_pfn :: "u64 \<Rightarrow> u64"
  pid_task :: "'h \<Rightarrow> nat \<Rightarrow> vm_area_struct list option option"
  tsc :: "nat \<Rightarrow> u64"
  cpufreq_quick_get :: u32
  cpu_khz :: u32

abbreviation PAGE_SIZE :: u64 where "PAGE_SIZE \<equiv> 4096"

section \<open>The walk\<close>

text \<open>What the walk reports, in order: the address of a page and its frame. A \<open>do ... while\<close> loop
  whose end is never met does not return, so the walk's result is an option.\<close>

type_synonym reports = "(u64 \<times> u64) list"

definition debug_info :: "u64 \<Rightarrow> u64 \<Rightarrow> reports \<Rightarrow> reports" where
  "debug_info addr pfn log = log @ [(addr, pfn)]"

text \<open>A place for a migration policy: its body is a comment.\<close>

definition collect_statistics :: "u64 \<Rightarrow> reports \<Rightarrow> reports" where
  "collect_statistics pfn log = log"

partial_function (option) clear_pte_range ::
    "'h pgtable \<Rightarrow> 'h \<Rightarrow> nat \<Rightarrow> u64 \<Rightarrow> u64 \<Rightarrow> reports \<Rightarrow> (u64 \<times> reports) option" where
  "clear_pte_range M h pmd addr lim log =
     (let ptecont = pte_at M h (pte_offset_map M h pmd addr);
          log = (if pte_none M ptecont then log
                 else if pte_present M ptecont \<and> pte_young M ptecont
                      then collect_statistics (pte_pfn M ptecont) (debug_info addr (pte_pfn M ptecont) log) else log);
          addr = addr + PAGE_SIZE
      in if addr \<noteq> lim then clear_pte_range M h pmd addr lim log else Some (addr, log))"

text \<open>The loop of the three upper levels, which differ in their accessors only: the entries of a
  range are visited one after the other, an entry that is empty is skipped, and the next level
  walks the part of the range that the others cover.\<close>

partial_function (option) walk_entries ::
    "(u64 \<Rightarrow> u64 \<Rightarrow> u64) \<Rightarrow> (nat \<Rightarrow> bool) \<Rightarrow> (nat \<Rightarrow> u64 \<Rightarrow> u64 \<Rightarrow> reports \<Rightarrow> (u64 \<times> reports) option) \<Rightarrow>
       nat \<Rightarrow> u64 \<Rightarrow> u64 \<Rightarrow> reports \<Rightarrow> (u64 \<times> reports) option" where
  "walk_entries addr_end none below p addr lim log =
     do {
       let nxt = addr_end addr lim;
       (nxt, log) \<leftarrow> (if none p then Some (nxt, log) else below p addr nxt log);
       if nxt \<noteq> lim then walk_entries addr_end none below (p + 1) nxt lim log else Some (nxt, log)
     }"

definition clear_pmd_range :: "'h pgtable \<Rightarrow> 'h \<Rightarrow> nat \<Rightarrow> u64 \<Rightarrow> u64 \<Rightarrow> reports \<Rightarrow> (u64 \<times> reports) option" where
  "clear_pmd_range M h pud addr lim log =
     walk_entries (pmd_addr_end M) (pmd_none M h) (clear_pte_range M h) (pmd_offset M h pud addr) addr lim log"

definition clear_pud_range :: "'h pgtable \<Rightarrow> 'h \<Rightarrow> nat \<Rightarrow> u64 \<Rightarrow> u64 \<Rightarrow> reports \<Rightarrow> (u64 \<times> reports) option" where
  "clear_pud_range M h pgd addr lim log =
     walk_entries (pud_addr_end M) (pud_none M h) (clear_pmd_range M h) (pud_offset M h pgd addr) addr lim log"

definition clear_page_range :: "'h pgtable \<Rightarrow> 'h \<Rightarrow> vm_area_struct \<Rightarrow> reports \<Rightarrow> reports option" where
  "clear_page_range M h vma log =
     map_option snd (walk_entries (pgd_addr_end M) (pgd_none M h) (clear_pud_range M h)
       (pgd_offset M (vm_start vma)) (vm_start vma) (vm_end vma) log)"

definition clear_single_vma :: "'h pgtable \<Rightarrow> 'h \<Rightarrow> vm_area_struct \<Rightarrow> reports \<Rightarrow> reports option" where
  "clear_single_vma M h vma log = clear_page_range M h vma log"

fun clear_vmas :: "'h pgtable \<Rightarrow> 'h \<Rightarrow> vm_area_struct list \<Rightarrow> reports \<Rightarrow> reports option" where
  "clear_vmas M h [] log = Some log"
| "clear_vmas M h (vma # vmas) log = do { log \<leftarrow> clear_single_vma M h vma log; clear_vmas M h vmas log }"

section \<open>The module\<close>

text \<open>The timer has an interval to its next expiry and is queued or not; \<open>sem\<close> is how often the
  semaphore of the memory is held.\<close>

record 'h migrate_st =
  mem :: 'h
  pid :: nat
  timer_interval_ns :: u64
  timer_expires :: u64
  timer_queued :: bool
  t_start :: u64
  t_end :: u64
  average :: u64
  samples :: u64
  tsc_reads :: nat
  sem :: int
  reported :: reports
  dead :: bool

definition GET_START_TIME :: "'h pgtable \<Rightarrow> 'h migrate_st \<Rightarrow> 'h migrate_st" where
  "GET_START_TIME M s =
     s\<lparr>samples := samples s + 1, t_start := tsc M (tsc_reads s), tsc_reads := tsc_reads s + 1\<rparr>"

definition GET_END_TIME :: "'h pgtable \<Rightarrow> 'h migrate_st \<Rightarrow> 'h migrate_st" where
  "GET_END_TIME M s =
     (let s = s\<lparr>t_end := tsc M (tsc_reads s), tsc_reads := tsc_reads s + 1\<rparr>
      in s\<lparr>average := ((average s * (samples s - 1)) + (t_end s - t_start s)) div samples s\<rparr>)"

text \<open>The timer function; the result says whether the timer wants to be queued again.\<close>

definition hrtimer_def :: "'h pgtable \<Rightarrow> 'h migrate_st \<Rightarrow> (bool \<times> 'h migrate_st) option" where
  "hrtimer_def M s =
     (case pid_task M (mem s) (pid s) of
        None \<Rightarrow> Some (False, s)
      | Some None \<Rightarrow> Some (False, s\<lparr>dead := True\<rparr>)
      | Some (Some vmas) \<Rightarrow>
          do {
            let s = GET_START_TIME M s;
            let s = s\<lparr>sem := sem s + 1\<rparr>;
            log \<leftarrow> clear_vmas M (mem s) vmas (reported s);
            let s = s\<lparr>reported := log\<rparr>;
            let s = s\<lparr>sem := sem s - 1\<rparr>;
            let s = GET_END_TIME M s;
            let s = s\<lparr>timer_expires := timer_interval_ns s\<rparr>;
            Some (False, s)
          })"

text \<open>The kernel takes a timer off its queue, calls its function, and queues it again when asked to.\<close>

definition timer_fires :: "'h pgtable \<Rightarrow> 'h migrate_st \<Rightarrow> 'h migrate_st option" where
  "timer_fires M s =
     do {
       (restart, s) \<leftarrow> hrtimer_def M (s\<lparr>timer_queued := False\<rparr>);
       Some (s\<lparr>timer_queued := restart\<rparr>)
     }"

definition migrate_init :: "'h migrate_st \<Rightarrow> int \<times> 'h migrate_st" where
  "migrate_init s =
     (let s = s\<lparr>timer_interval_ns := 2000000000\<rparr>;
          s = s\<lparr>pid := 1\<rparr>
      in (0, s\<lparr>timer_expires := timer_interval_ns s, timer_queued := True\<rparr>))"

text \<open>The statistics that are printed at the end: the frequency of the CPU in MHz and kHz, the average and
  the number of samples, and the average time. With an unknown frequency the code would divide by zero.\<close>

definition TIME_INFO :: "'h pgtable \<Rightarrow> 'h migrate_st \<Rightarrow> (u32 \<times> u32 \<times> u64 \<times> u64 \<times> u64) option" where
  "TIME_INFO M s =
     (let freq = cpufreq_quick_get M;
          freq = (if freq = 0 then cpu_khz M else freq)
      in if freq = 0 then None
         else Some (freq div 1000, freq mod 1000, average s, samples s, 1000 * average s div ucast freq))"

definition migrate_exit :: "'h pgtable \<Rightarrow> 'h migrate_st \<Rightarrow> 'h migrate_st" where
  "migrate_exit M s =
     (let s = s\<lparr>timer_queued := False\<rparr>
      in if TIME_INFO M s = None then s\<lparr>dead := True\<rparr> else s)"

end
