(* ===== verification/Migrate_Walk.thy ===== *)
theory Migrate_Walk
  imports Migrate
begin

text \<open>
  The walk of a page table: the contract of a table level and of the four levels together, the
  walk's result as one report per accessed page, and the running average of the walking times.
\<close>

section \<open>Pages\<close>

text \<open>Page \<open>i\<close> starts at \<open>page_addr i\<close>; \<open>visits F i j\<close> is what \<open>F\<close> reports for the pages from \<open>i\<close> to \<open>j\<close>.\<close>

definition page_addr :: "nat \<Rightarrow> u64" where
  "page_addr i = of_nat (4096 * i)"

definition visits :: "(nat \<Rightarrow> reports) \<Rightarrow> nat \<Rightarrow> nat \<Rightarrow> reports" where
  "visits F i j = concat (map F [i..<j])"

lemma unat_page: "i < 2 ^ 52 \<Longrightarrow> unat (page_addr i) = 4096 * i"
  unfolding page_addr_def by (subst unat_of_nat) (simp add: take_bit_nat_eq_self)

lemma page_inj: "i < 2 ^ 52 \<Longrightarrow> j < 2 ^ 52 \<Longrightarrow> page_addr i = page_addr j \<longleftrightarrow> i = j"
  by (auto dest!: arg_cong [of _ _ unat] simp: unat_page)

lemma page_next: "page_addr i + PAGE_SIZE = page_addr (Suc i)"
  by (simp add: page_addr_def)

lemma visits_append: "i \<le> m \<Longrightarrow> m \<le> j \<Longrightarrow> visits F i m @ visits F m j = visits F i j"
  using upt_add_eq_append [of i m "j - m"] by (simp add: visits_def)

lemma visits_cong: "(\<And>x. i \<le> x \<Longrightarrow> x < j \<Longrightarrow> F x = G x) \<Longrightarrow> visits F i j = visits G i j"
  by (auto simp: visits_def intro!: arg_cong [of _ _ concat])

lemma visits_none [simp]: "visits (\<lambda>x. []) i j = []"
  by (simp add: visits_def)

section \<open>One level\<close>

text \<open>The pages of one entry of \<open>K\<close> pages.\<close>

lemma same_entry:
  fixes K :: nat
  assumes "i \<le> x" "x < y" "y \<le> (i div K + 1) * K" "0 < K"
  shows "x div K = i div K"
proof (rule antisym)
  have "x < (i div K + 1) * K" using assms(2,3) by (rule less_le_trans)
  then have "x div K < i div K + 1" using assms(4) by (simp only: div_less_iff_less_mult)
  then show "x div K \<le> i div K" by simp
qed (use assms(1) in \<open>rule div_le_mono\<close>)

text \<open>Each entry of a level covers \<open>2 ^ k\<close> bytes; \<open>addr_end\<close> cuts a range at the end of the entry of
  its first address.\<close>

locale table_level =
  fixes addr_end :: "u64 \<Rightarrow> u64 \<Rightarrow> u64" and k :: nat
  assumes ends: "unat a < unat e \<Longrightarrow> unat (addr_end a e) = min (unat e) ((unat a div 2 ^ k + 1) * 2 ^ k)"
    and pages: "12 \<le> k"
begin

abbreviation K :: nat where "K \<equiv> 2 ^ (k - 12)"

lemma size: "2 ^ k = 4096 * K"
proof -
  have "(2 :: nat) ^ k = 2 ^ (12 + (k - 12))" using pages by simp
  then show ?thesis by (simp add: power_add)
qed

lemma entry_of: "x < 2 ^ 52 \<Longrightarrow> unat (page_addr x) div 2 ^ k = x div K"
  by (simp add: unat_page size)

lemma ends_page:
  assumes "i < j" "j < 2 ^ 52"
  shows "addr_end (page_addr i) (page_addr j) = page_addr (min j ((i div K + 1) * K))"
proof -
  let ?n = "min j ((i div K + 1) * K)"
  have n: "?n < 2 ^ 52" using assms(2) by simp
  have "unat (addr_end (page_addr i) (page_addr j)) = min (4096 * j) ((i div K + 1) * (4096 * K))"
    using ends [of "page_addr i" "page_addr j"] assms entry_of [of i] by (simp add: unat_page size)
  also have "\<dots> = 4096 * ?n" by (simp add: min_def algebra_simps)
  also have "\<dots> = unat (page_addr ?n)" by (rule unat_page [OF n, symmetric])
  finally show ?thesis by (simp only: word_unat_eq_iff)
qed

text \<open>One turn of the loop: the rest of the entry of page \<open>i\<close>, to page \<open>n\<close>, and what is left.\<close>

lemma walk_turn:
  assumes "i < j" "j < 2 ^ 52" "n = min j ((i div K + 1) * K)"
  shows "i < n \<and> n \<le> j \<and> n \<le> (i div K + 1) * K \<and> (n < j \<longrightarrow> n div K = i div K + 1) \<and>
    walk_entries addr_end none below p (page_addr i) (page_addr j) log =
      do {
        (nxt, log) \<leftarrow> (if none p then Some (page_addr n, log) else below p (page_addr i) (page_addr n) log);
        if nxt \<noteq> page_addr j then walk_entries addr_end none below (p + 1) nxt (page_addr j) log else Some (nxt, log)
      }"
proof -
  have "i mod K < K" by simp
  then have "i < (i div K + 1) * K" using div_mod_decomp [of i K] by (simp only: add_mult_distrib)
  moreover have "n div K = i div K + 1" if "n < j"
  proof -
    have "n = (i div K + 1) * K" using that assms(3) by (simp add: min_def split: if_splits)
    then show ?thesis by simp
  qed
  moreover have "addr_end (page_addr i) (page_addr j) = page_addr n" unfolding assms(3) by (rule ends_page [OF assms(1,2)])
  ultimately show ?thesis using assms(1,3) by (subst walk_entries.simps) simp
qed

text \<open>The walk of a level, when the entries of its table are next to each other and the walk of the
  level below reports what \<open>rep\<close> says.\<close>

lemma walk:
  assumes "i < j" "j < 2 ^ 52"
    and law: "\<And>x z. i \<le> x \<Longrightarrow> x \<le> z \<Longrightarrow> z < j \<Longrightarrow> ent z = ent x + (z div K - x div K)"
    and below: "\<And>p x y log. x < y \<Longrightarrow> y \<le> j \<Longrightarrow> y \<le> (x div K + 1) * K \<Longrightarrow>
      below p (page_addr x) (page_addr y) log = Some (page_addr y, log @ visits (rep p) x y)"
  shows "walk_entries addr_end none below (ent i) (page_addr i) (page_addr j) log =
    Some (page_addr j, log @ visits (\<lambda>x. if none (ent x) then [] else rep (ent x) x) i j)"
  using assms(1) law
proof (induction "j - i" arbitrary: i log rule: less_induct)
  case less
  let ?r = "\<lambda>x. if none (ent x) then [] else rep (ent x) x"
  obtain n where nd: "n = min j ((i div K + 1) * K)" by blast
  note turn = walk_turn [OF less.prems(1) assms(2) nd, of none below "ent i" log]
  have n: "i < n" "n \<le> j" "n \<le> (i div K + 1) * K" using turn by simp_all
  have same: "ent x = ent i" if "i \<le> x" "x < n" for x
    using same_entry [OF that n(3)] less.prems(2) [OF order_refl that(1)] that(2) n(2) by simp
  have v: "visits ?r i n = visits (if none (ent i) then \<lambda>x. [] else rep (ent i)) i n"
  proof (rule visits_cong)
    fix x assume "i \<le> x" "x < n"
    then have "ent x = ent i" by (rule same)
    then show "?r x = (if none (ent i) then \<lambda>x. [] else rep (ent i)) x" by simp
  qed
  have first: "(if none (ent i) then Some (page_addr n, log) else below (ent i) (page_addr i) (page_addr n) log) =
      Some (page_addr n, log @ visits ?r i n)"
    unfolding v by (simp add: below [OF n])
  show ?case
  proof (cases "n = j")
    case True
    with turn first show ?thesis by simp
  next
    case False
    with n(2) have nj: "n < j" by simp
    then have "ent n = ent i + 1" using less.prems(2) [of i n] n(1) turn by simp
    moreover have "walk_entries addr_end none below (ent n) (page_addr n) (page_addr j) (log @ visits ?r i n) =
        Some (page_addr j, (log @ visits ?r i n) @ visits ?r n j)"
      using less.hyps [OF _ nj less.prems(2)] n(1) nj by simp
    moreover have "page_addr n \<noteq> page_addr j" using page_inj [of n j] nj assms(2) by simp
    ultimately show ?thesis using turn first visits_append [of i n j ?r] n(1,2) by simp
  qed
qed

end

text \<open>A level below another one: an entry of the upper level has a table of its own, so the entries of the lower
  level are next to each other within it.\<close>

locale nested_levels = up: table_level up_end m + table_level addr_end k for up_end m addr_end k
begin

lemma entries_law:
  assumes "\<And>a b. unat a \<le> unat b \<Longrightarrow> unat a div 2 ^ m = unat b div 2 ^ m \<Longrightarrow>
      off b = off a + (unat b div 2 ^ k - unat a div 2 ^ k)"
    and "j < 2 ^ 52" "j \<le> (i div up.K + 1) * up.K" "i \<le> x" "x \<le> z" "z < j"
  shows "off (page_addr z) = off (page_addr x) + (z div K - x div K)"
proof -
  have b: "x < 2 ^ 52" "z < 2 ^ 52" using assms by linarith+
  have "unat (page_addr x) \<le> unat (page_addr z)" by (simp add: unat_page [OF b(1)] unat_page [OF b(2)] assms(5))
  moreover have "x div up.K = i div up.K" "z div up.K = i div up.K"
    using same_entry [OF assms(4) le_less_trans [OF assms(5,6)] assms(3)]
      same_entry [OF order_trans [OF assms(4,5)] assms(6,3)] by simp_all
  then have "unat (page_addr x) div 2 ^ m = unat (page_addr z) div 2 ^ m"
    by (simp only: up.entry_of [OF b(1)] up.entry_of [OF b(2)])
  ultimately show ?thesis
    using assms(1) [of "page_addr x" "page_addr z"] by (simp only: entry_of [OF b(1)] entry_of [OF b(2)])
qed

end

section \<open>The table\<close>

text \<open>The contract of the kernel's accessors on four levels: the entries of a table are next to each
  other, in the order of the addresses they cover. The kernel takes nine bits of an address as the index of the
  top level, so the law for \<open>pgd_offset\<close> is about addresses below \<open>2 ^ 47\<close>, the only ones that an area of a
  process has.\<close>

locale page_table =
  fixes M :: "'h pgtable"
  assumes pgd: "table_level (pgd_addr_end M) 39" and pud: "table_level (pud_addr_end M) 30"
    and pmd: "table_level (pmd_addr_end M) 21"
    and pgd_next: "unat a \<le> unat b \<Longrightarrow>
      pgd_offset M b = pgd_offset M a + (unat b div 2 ^ 39 - unat a div 2 ^ 39)"
    and pud_next: "unat a \<le> unat b \<Longrightarrow> unat a div 2 ^ 39 = unat b div 2 ^ 39 \<Longrightarrow>
      pud_offset M h g b = pud_offset M h g a + (unat b div 2 ^ 30 - unat a div 2 ^ 30)"
    and pmd_next: "unat a \<le> unat b \<Longrightarrow> unat a div 2 ^ 30 = unat b div 2 ^ 30 \<Longrightarrow>
      pmd_offset M h u b = pmd_offset M h u a + (unat b div 2 ^ 21 - unat a div 2 ^ 21)"

sublocale page_table \<subseteq> pgd: table_level "pgd_addr_end M" 39 by (rule pgd)

sublocale page_table \<subseteq> pud: nested_levels "pgd_addr_end M" 39 "pud_addr_end M" 30
  by (rule nested_levels.intro [OF pgd pud])

sublocale page_table \<subseteq> pmd: nested_levels "pud_addr_end M" 30 "pmd_addr_end M" 21
  by (rule nested_levels.intro [OF pud pmd])

text \<open>What there is to report of a page, from each level down.\<close>

definition pte_report :: "'h pgtable \<Rightarrow> 'h \<Rightarrow> nat \<Rightarrow> nat \<Rightarrow> reports" where
  "pte_report M h m i =
     (let pte = pte_at M h (pte_offset_map M h m (page_addr i))
      in if \<not> pte_none M pte \<and> pte_present M pte \<and> pte_young M pte then [(page_addr i, pte_pfn M pte)] else [])"

definition pmd_report :: "'h pgtable \<Rightarrow> 'h \<Rightarrow> nat \<Rightarrow> nat \<Rightarrow> reports" where
  "pmd_report M h u i =
     (let m = pmd_offset M h u (page_addr i) in if pmd_none M h m then [] else pte_report M h m i)"

definition pud_report :: "'h pgtable \<Rightarrow> 'h \<Rightarrow> nat \<Rightarrow> nat \<Rightarrow> reports" where
  "pud_report M h g i =
     (let u = pud_offset M h g (page_addr i) in if pud_none M h u then [] else pmd_report M h u i)"

definition page_report :: "'h pgtable \<Rightarrow> 'h \<Rightarrow> nat \<Rightarrow> reports" where
  "page_report M h i =
     (let g = pgd_offset M (page_addr i) in if pgd_none M h g then [] else pud_report M h g i)"

lemma pte_walk:
  assumes "i < j" "j < 2 ^ 52"
  shows "clear_pte_range M h m (page_addr i) (page_addr j) log = Some (page_addr j, log @ visits (pte_report M h m) i j)"
  using assms
proof (induction "j - i" arbitrary: i log)
  case (Suc d)
  let ?log = "log @ pte_report M h m i"
  have unf: "clear_pte_range M h m (page_addr i) (page_addr j) log =
      (if page_addr (Suc i) \<noteq> page_addr j then clear_pte_range M h m (page_addr (Suc i)) (page_addr j) ?log
       else Some (page_addr (Suc i), ?log))"
    by (subst clear_pte_range.simps) (simp add: Let_def pte_report_def debug_info_def collect_statistics_def page_next)
  have v: "visits (pte_report M h m) i j = pte_report M h m i @ visits (pte_report M h m) (Suc i) j"
    using Suc.prems(1) by (simp add: visits_def upt_conv_Cons)
  show ?case
  proof (cases "Suc i = j")
    case True
    then show ?thesis unfolding unf v by (simp add: visits_def)
  next
    case False
    with Suc.prems have lt: "Suc i < j" by simp
    moreover have "page_addr (Suc i) \<noteq> page_addr j" using page_inj [of "Suc i" j] lt Suc.prems(2) by simp
    ultimately show ?thesis unfolding unf v using Suc.hyps(1) [of "Suc i" ?log] Suc.hyps(2) Suc.prems(2) by simp
  qed
qed simp

context page_table
begin

lemma pmd_walk:
  assumes "i < j" "j < 2 ^ 52" "j \<le> (i div 2 ^ (30 - 12) + 1) * 2 ^ (30 - 12)"
  shows "clear_pmd_range M h u (page_addr i) (page_addr j) log = Some (page_addr j, log @ visits (pmd_report M h u) i j)"
  unfolding clear_pmd_range_def pmd_report_def Let_def
proof (rule pmd.walk [where ent = "\<lambda>x. pmd_offset M h u (page_addr x)", OF assms(1,2)])
  show "pmd_offset M h u (page_addr z) = pmd_offset M h u (page_addr x) + (z div pmd.K - x div pmd.K)"
    if "i \<le> x" "x \<le> z" "z < j" for x z
    by (rule pmd.entries_law [OF pmd_next assms(2,3) that])
qed (use assms(2) in \<open>simp add: pte_walk\<close>)

lemma pud_walk:
  assumes "i < j" "j < 2 ^ 52" "j \<le> (i div 2 ^ (39 - 12) + 1) * 2 ^ (39 - 12)"
  shows "clear_pud_range M h g (page_addr i) (page_addr j) log = Some (page_addr j, log @ visits (pud_report M h g) i j)"
  unfolding clear_pud_range_def pud_report_def Let_def
proof (rule pud.walk [where ent = "\<lambda>x. pud_offset M h g (page_addr x)", OF assms(1,2)])
  show "pud_offset M h g (page_addr z) = pud_offset M h g (page_addr x) + (z div pud.K - x div pud.K)"
    if "i \<le> x" "x \<le> z" "z < j" for x z
    by (rule pud.entries_law [OF pud_next assms(2,3) that])
qed (use assms(2) in \<open>simp add: pmd_walk\<close>)

lemma page_walk:
  assumes "i < j" "j < 2 ^ 52"
  shows "clear_page_range M h \<lparr>vm_start = page_addr i, vm_end = page_addr j\<rparr> log =
    Some (log @ visits (page_report M h) i j)"
proof -
  have "walk_entries (pgd_addr_end M) (pgd_none M h) (clear_pud_range M h) (pgd_offset M (page_addr i))
      (page_addr i) (page_addr j) log = Some (page_addr j, log @ visits (page_report M h) i j)"
    unfolding page_report_def Let_def
  proof (rule pgd.walk [where ent = "\<lambda>x. pgd_offset M (page_addr x)", OF assms])
    show "pgd_offset M (page_addr z) = pgd_offset M (page_addr x) + (z div pgd.K - x div pgd.K)"
      if "i \<le> x" "x \<le> z" "z < j" for x z
    proof -
      have b: "x < 2 ^ 52" "z < 2 ^ 52" using that assms(2) by linarith+
      then show ?thesis
        using pgd_next [of "page_addr x" "page_addr z"] that(2) pgd.entry_of by (simp add: unat_page)
    qed
  qed (use assms(2) in \<open>simp add: pud_walk\<close>)
  then show ?thesis by (simp add: clear_page_range_def)
qed

end

section \<open>The reference process\<close>

text \<open>A process with one area of three pages, the first and the last accessed; memory is the array of
  its page table entries, and the upper levels are the numbers of the address ranges.\<close>

definition ref_ends :: "nat \<Rightarrow> u64 \<Rightarrow> u64 \<Rightarrow> u64" where
  "ref_ends k a e = of_nat (min (unat e) ((unat a div 2 ^ k + 1) * 2 ^ k))"

definition ref_pgtable :: "(nat \<Rightarrow> u64) pgtable" where
  "ref_pgtable =
     \<lparr>pgd_offset = (\<lambda>a. unat a div 2 ^ 39), pgd_none = (\<lambda>h p. p \<noteq> 0), pgd_addr_end = ref_ends 39,
      pud_offset = (\<lambda>h g a. unat a div 2 ^ 30), pud_none = (\<lambda>h p. p \<noteq> 0), pud_addr_end = ref_ends 30,
      pmd_offset = (\<lambda>h u a. unat a div 2 ^ 21), pmd_none = (\<lambda>h p. p \<noteq> 2), pmd_addr_end = ref_ends 21,
      pte_offset_map = (\<lambda>h m a. unat a div 4096), pte_at = (\<lambda>h p. h p),
      pte_none = (\<lambda>v. v = 0), pte_present = (\<lambda>v. bit v 0), pte_young = (\<lambda>v. bit v 5),
      pte_pfn = (\<lambda>v. drop_bit 12 v),
      pid_task = (\<lambda>h n. if n = 1 then Some (Some [\<lparr>vm_start = 0x400000, vm_end = 0x403000\<rparr>]) else None),
      tsc = (\<lambda>n. of_nat (n * n)), cpufreq_quick_get = 0, cpu_khz = 2400000\<rparr>"

definition ref_ptes :: "nat \<Rightarrow> u64" where
  "ref_ptes n = (if n = 0x400 then 0x1021 else if n = 0x401 then 0x2001 else if n = 0x402 then 0x3021 else 0)"

lemma ref_level: "12 \<le> k \<Longrightarrow> table_level (ref_ends k) k"
proof
  fix a e :: u64 assume "unat a < unat e"
  have "unat e < 2 ^ 64" using unsigned_less [of e] by simp
  then have "min (unat e) ((unat a div 2 ^ k + 1) * 2 ^ k) < 2 ^ 64" by (rule min.strict_coboundedI1)
  then show "unat (ref_ends k a e) = min (unat e) ((unat a div 2 ^ k + 1) * 2 ^ k)"
    unfolding ref_ends_def by (subst unat_of_nat) (simp add: take_bit_nat_eq_self)
qed

interpretation ref_table: page_table ref_pgtable
proof unfold_locales
  fix a e :: u64 assume l: "unat a < unat e"
  show "unat (pgd_addr_end ref_pgtable a e) = min (unat e) ((unat a div 2 ^ 39 + 1) * 2 ^ 39)"
    "unat (pud_addr_end ref_pgtable a e) = min (unat e) ((unat a div 2 ^ 30 + 1) * 2 ^ 30)"
    "unat (pmd_addr_end ref_pgtable a e) = min (unat e) ((unat a div 2 ^ 21 + 1) * 2 ^ 21)"
    using table_level.ends [OF ref_level l, of 39] table_level.ends [OF ref_level l, of 30]
      table_level.ends [OF ref_level l, of 21]
    by (simp_all only: ref_pgtable_def pgtable.select_convs order.refl)
qed (simp_all add: ref_pgtable_def div_le_mono)

section \<open>Properties\<close>

text \<open>An area the kernel makes: whole pages, at least one.\<close>

definition vma_ok :: "vm_area_struct \<Rightarrow> bool" where
  "vma_ok v \<longleftrightarrow> (\<exists>i j. i < j \<and> j < 2 ^ 52 \<and> vm_start v = page_addr i \<and> vm_end v = page_addr j)"

definition vma_pages :: "vm_area_struct \<Rightarrow> nat list" where
  "vma_pages v = [unat (vm_start v) div 4096..<unat (vm_end v) div 4096]"

lemma vmas_walk:
  assumes "page_table M"
  shows "(\<And>v. v \<in> set vmas \<Longrightarrow> vma_ok v) \<Longrightarrow>
    clear_vmas M h vmas log = Some (log @ concat (map (\<lambda>v. concat (map (page_report M h) (vma_pages v))) vmas))"
proof (induction vmas arbitrary: log)
  case (Cons v vmas)
  have "vma_ok v" using Cons.prems by simp
  then obtain i j where ij: "i < j" "j < 2 ^ 52" "vm_start v = page_addr i" "vm_end v = page_addr j"
    unfolding vma_ok_def by blast
  then have v: "i < j" "j < 2 ^ 52" "v = \<lparr>vm_start = page_addr i, vm_end = page_addr j\<rparr>" by simp_all
  then have p: "vma_pages v = [i..<j]" by (simp add: vma_pages_def unat_page)
  have "clear_single_vma M h v log = Some (log @ concat (map (page_report M h) (vma_pages v)))"
    unfolding clear_single_vma_def p using page_table.page_walk [OF assms v(1,2), of h log] by (simp add: v(3) visits_def)
  with Cons show ?case by simp
qed simp

text \<open>C34: each time the timer fires on a live process the walk of its page table ends. It has reported
  exactly the present pages that were accessed, of every area, in the order of their addresses,
  whatever tables were missing. The memory is as before, so no accessed bit has been cleared;
  the semaphore is released; and the timer is not queued again.\<close>

theorem migrate_walk:
  assumes "page_table M" "pid_task M (mem s) (pid s) = Some (Some vmas)" "\<And>v. v \<in> set vmas \<Longrightarrow> vma_ok v"
  shows "\<exists>s'. timer_fires M s = Some s' \<and>
    reported s' = reported s @ concat (map (\<lambda>v. concat (map (page_report M (mem s)) (vma_pages v))) vmas) \<and>
    mem s' = mem s \<and> sem s' = sem s \<and> dead s' = dead s \<and> \<not> timer_queued s'"
  using assms(2) vmas_walk [OF assms(1,3), of vmas "mem s" "reported s"]
  by (simp add: timer_fires_def hrtimer_def_def GET_START_TIME_def GET_END_TIME_def Let_def)

abbreviation ref_migrate :: "(nat \<Rightarrow> u64) migrate_st" where
  "ref_migrate \<equiv> snd (migrate_init
     \<lparr>mem = ref_ptes, pid = 0, timer_interval_ns = 0, timer_expires = 0, timer_queued = False, t_start = 0,
      t_end = 0, average = 0, samples = 0, tsc_reads = 0, sem = 0, reported = [], dead = False\<rparr>)"

lemma migrate_walk_witness:
  "\<exists>s'. timer_fires ref_pgtable ref_migrate = Some s' \<and> reported s' = [(0x400000, 1), (0x402000, 3)] \<and>
     mem s' = ref_ptes"
proof -
  let ?v = "\<lparr>vm_start = 0x400000, vm_end = 0x403000\<rparr> :: vm_area_struct"
  have v: "vma_ok ?v"
    unfolding vma_ok_def by (intro exI [of _ "0x400"] exI [of _ "0x403"]) (simp add: page_addr_def)
  have r: "concat (map (page_report ref_pgtable ref_ptes) (vma_pages ?v)) = [(0x400000, 1), (0x402000, 3)]"
    by (simp add: vma_pages_def upt_rec page_report_def pud_report_def pmd_report_def pte_report_def ref_pgtable_def
        ref_ptes_def page_addr_def Let_def bit_simps)
  have m: "mem ref_migrate = ref_ptes" "pid ref_migrate = 1" "reported ref_migrate = []"
    by (simp_all add: migrate_init_def Let_def)
  have "pid_task ref_pgtable (mem ref_migrate) (pid ref_migrate) = Some (Some [?v])"
    unfolding m by (simp add: ref_pgtable_def)
  from migrate_walk [OF ref_table.page_table_axioms this] v r m show ?thesis by auto
qed

text \<open>The time the \<open>n\<close>-th measurement takes.\<close>

definition duration :: "'h pgtable \<Rightarrow> nat \<Rightarrow> nat" where
  "duration M n = unat (tsc M (2 * n + 1) - tsc M (2 * n))"

lemma average_step:
  fixes N S Q P R d n :: nat
  assumes "N \<le> S" "2 * S \<le> 2 * N + Q" "P \<le> N + d" "N + d < P + Suc n" "R = Q + 2 * n"
  shows "P \<le> S + d \<and> 2 * (S + d) \<le> 2 * P + R"
  using assms by simp

text \<open>One measurement, while nothing overflows.\<close>

lemma average_turn:
  assumes "tsc_reads t = 2 * n" "unat (samples t) = n" "Suc n < 2 ^ 64"
    and "n * unat (average t) + unat (tsc M (2 * n + 1) - tsc M (2 * n)) < 2 ^ 64"
  shows "unat (average (GET_END_TIME M (GET_START_TIME M t))) =
    (n * unat (average t) + unat (tsc M (2 * n + 1) - tsc M (2 * n))) div Suc n"
proof -
  let ?d = "tsc M (2 * n + 1) - tsc M (2 * n)"
  have c: "unat (samples t + 1) = Suc n" "samples t + 1 - 1 = samples t"
    using assms(2,3) by (simp_all add: unat_word_ariths take_bit_nat_eq_self)
  have "unat (average t * samples t) = n * unat (average t)"
    using assms(2,4) by (simp add: unat_word_ariths take_bit_nat_eq_self mult.commute)
  then have m: "unat (average t * samples t + ?d) = n * unat (average t) + unat ?d"
    using assms(4) by (simp add: unat_word_ariths(1) take_bit_nat_eq_self)
  have a: "average (GET_END_TIME M (GET_START_TIME M t)) = (average t * samples t + ?d) div (samples t + 1)"
    using assms(1) c(2) by (simp add: GET_END_TIME_def GET_START_TIME_def Let_def)
  show ?thesis unfolding a unat_div m c(1) by simp
qed

text \<open>C35: the running average that the module prints never exceeds the true average of the walking
  times, and after \<open>n\<close> of them it is at most \<open>(n - 1) / 2\<close> cycles below it, as long as their sum
  fits in 64 bits.\<close>

theorem migrate_average:
  assumes "samples s = 0" "average s = 0" "tsc_reads s = 0"
    and "sum_list (map (duration M) [0..<n]) < 2 ^ 64" "n < 2 ^ 64"
  shows "let s' = ((\<lambda>s. GET_END_TIME M (GET_START_TIME M s)) ^^ n) s; total = sum_list (map (duration M) [0..<n])
    in unat (samples s') = n \<and> n * unat (average s') \<le> total \<and>
       2 * total \<le> 2 * (n * unat (average s')) + n * (n - 1)"
proof -
  let ?f = "\<lambda>s. GET_END_TIME M (GET_START_TIME M s)"
  let ?sum = "\<lambda>n. sum_list (map (duration M) [0..<n])"
  have "tsc_reads ((?f ^^ n) s) = 2 * n \<and> unat (samples ((?f ^^ n) s)) = n \<and>
      n * unat (average ((?f ^^ n) s)) \<le> ?sum n \<and>
      2 * ?sum n \<le> 2 * (n * unat (average ((?f ^^ n) s))) + n * (n - 1)"
    using assms(4,5)
  proof (induction n)
    case (Suc n)
    define t where "t = (?f ^^ n) s"
    have small: "?sum n < 2 ^ 64" "n < 2 ^ 64" using Suc.prems by simp_all
    note IH = Suc.IH [OF small, folded t_def]
    have f: "(?f ^^ Suc n) s = ?f t" by (simp add: t_def)
    have c: "unat (samples t + 1) = Suc n"
      using IH Suc.prems(2) by (simp add: unat_word_ariths take_bit_nat_eq_self)
    let ?d = "tsc M (2 * n + 1) - tsc M (2 * n)"
    define q where "q = (n * unat (average t) + unat ?d) div Suc n"
    have q: "unat (average (?f t)) = q"
      unfolding q_def by (rule average_turn) (use IH Suc.prems in \<open>simp_all add: duration_def\<close>)
    have "Suc n * q \<le> n * unat (average t) + unat ?d" "n * unat (average t) + unat ?d < Suc n * q + Suc n"
      using div_mult_mod_eq [of "n * unat (average t) + unat ?d" "Suc n"]
        mod_less_divisor [of "Suc n" "n * unat (average t) + unat ?d"]
      by (simp_all only: q_def mult.commute [of "Suc n"]) linarith+
    moreover have "n * unat (average t) \<le> ?sum n" "2 * ?sum n \<le> 2 * (n * unat (average t)) + n * (n - 1)"
      using IH by blast+
    moreover have "Suc n * (Suc n - 1) = n * (n - 1) + 2 * n" by (cases n) simp_all
    ultimately have bounds: "Suc n * q \<le> ?sum n + unat ?d \<and>
        2 * (?sum n + unat ?d) \<le> 2 * (Suc n * q) + Suc n * (Suc n - 1)"
      by (intro average_step)
    have fields: "samples (?f t) = samples t + 1" "tsc_reads (?f t) = 2 * Suc n"
      using IH by (simp_all add: GET_END_TIME_def GET_START_TIME_def Let_def)
    have sum: "?sum (Suc n) = ?sum n + unat ?d" by (simp add: duration_def)
    from bounds c show ?case unfolding f q sum fields by blast
  qed (use assms in simp)
  then show ?thesis by (simp add: Let_def)
qed

lemma migrate_average_witness:
  "let s' = ((\<lambda>s. GET_END_TIME ref_pgtable (GET_START_TIME ref_pgtable s)) ^^ 3) ref_migrate
   in unat (samples s') = 3 \<and> 3 * unat (average s') \<le> 15 \<and> 15 \<le> 3 * unat (average s') + 3"
proof -
  have s: "sum_list (map (duration ref_pgtable) [0..<3]) = 15"
    by (simp add: upt_rec duration_def ref_pgtable_def)
  show ?thesis
    using migrate_average [of ref_migrate ref_pgtable 3] unfolding s
    by (simp add: migrate_init_def Let_def)
qed

text \<open>C36: the time that is printed in nanoseconds when the module is unloaded is the time in whole microseconds: the
  frequency is in kHz, so \<open>a\<close> cycles take \<open>1000000 * a / freq\<close> nanoseconds, and the code multiplies
  by 1000 only. With an unknown frequency unloading divides by zero.\<close>

theorem migrate_time_unit:
  assumes "1000 * unat (average s) < 2 ^ 64"
    and "freq = (if cpufreq_quick_get M = 0 then cpu_khz M else cpufreq_quick_get M)"
  shows "case TIME_INFO M s of
      None \<Rightarrow> freq = 0 \<and> dead (migrate_exit M s)
    | Some (mhz, khz, avg, n, t) \<Rightarrow> freq \<noteq> 0 \<and> \<not> timer_queued (migrate_exit M s) \<and>
        unat mhz * 1000 + unat khz = unat freq \<and> avg = average s \<and> n = samples s \<and>
        unat t = (1000000 * unat (average s) div unat freq) div 1000"
proof -
  have "unat freq < 2 ^ 32" using unsigned_less [of freq] by simp
  then have f: "unat (ucast freq :: u64) = unat freq"
    by (simp add: unsigned_ucast_eq take_bit_nat_eq_self)
  have u: "unat (1000 * average s) = 1000 * unat (average s)"
    using assms(1) by (simp add: unat_word_ariths take_bit_nat_eq_self)
  have "unat (1000 * average s div ucast freq) = 1000 * unat (average s) div unat freq"
    by (simp add: unat_div u f)
  also have "\<dots> = (1000000 * unat (average s) div unat freq) div 1000"
    by (simp add: div_mult2_eq [symmetric] mult.commute [of "unat freq"])
  finally have t: "unat (1000 * average s div ucast freq) = (1000000 * unat (average s) div unat freq) div 1000" .
  have "unat (freq div 1000) * 1000 + unat (freq mod 1000) = unat freq"
    by (simp add: unat_div unat_mod)
  with t show ?thesis
    by (auto simp: TIME_INFO_def Let_def assms(2) [symmetric] migrate_exit_def)
qed

lemma migrate_time_unit_witness:
  "case TIME_INFO ref_pgtable (ref_migrate\<lparr>average := 2400000\<rparr>) of None \<Rightarrow> False
   | Some (mhz, khz, avg, n, t) \<Rightarrow> unat mhz * 1000 + unat khz = 2400000 \<and> unat t = 1000"
  using migrate_time_unit [of "ref_migrate\<lparr>average := 2400000\<rparr>" 2400000 ref_pgtable]
  by (auto simp: ref_pgtable_def split: option.splits)

end
