(* ===== verification/Uncore_Nhmep.thy ===== *)
theory Uncore_Nhmep
  imports Platform
begin

text \<open>
  The stand-alone module for Nehalem-EP, \<open>uncore_nhmep.c\<close>: a timer reads the counter of remote
  writes of a package, has the CPU of the other package wait for the time these writes would
  have taken longer, and resets the counter. It shares nothing with the other modules. Functions
  that print are given by the values they print.
\<close>

section \<open>Registers\<close>

definition NHM_MSR_IA32_PERFEVTSEL0 :: u32 where "NHM_MSR_IA32_PERFEVTSEL0 = 0x186"
definition NHM_MSR_CORE_PERF_GLOBAL_CTRL :: u32 where "NHM_MSR_CORE_PERF_GLOBAL_CTRL = 0x38F"
definition NHM_MSR_IA32_MISC_ENABLE :: u32 where "NHM_MSR_IA32_MISC_ENABLE = 0x1a0"
definition MSR_IA32_PERFMON_ENABLE :: u64 where "MSR_IA32_PERFMON_ENABLE = push_bit 7 1"
definition MSR_IA32_DEBUG_CTL :: u32 where "MSR_IA32_DEBUG_CTL = 0x1d9"
definition MSR_IA32_ENABLE_UNCORE_PMI :: u64 where "MSR_IA32_ENABLE_UNCORE_PMI = push_bit 13 1"

definition NHM_UNCORE_PMC_VALUE_MASK :: u64 where "NHM_UNCORE_PMC_VALUE_MASK = push_bit 48 1 - 1"

definition NHM_UNCORE_GLOBAL_CTRL :: u32 where "NHM_UNCORE_GLOBAL_CTRL = 0x391"
definition NHM_UNCORE_GLOBAL_STATUS :: u32 where "NHM_UNCORE_GLOBAL_STATUS = 0x392"
definition NHM_UNCORE_GLOBAL_OVF_CTRL :: u32 where "NHM_UNCORE_GLOBAL_OVF_CTRL = 0x393"
definition NHM_UNCORE_PMCO :: u32 where "NHM_UNCORE_PMCO = 0x3b0"
definition NHM_UNCORE_PERFEVTSEL0 :: u32 where "NHM_UNCORE_PERFEVTSEL0 = 0x3c0"
definition NHM_UNCORE_PMC_BASE :: u32 where "NHM_UNCORE_PMC_BASE = NHM_UNCORE_PMCO"
definition NHM_UNCORE_SEL_BASE :: u32 where "NHM_UNCORE_SEL_BASE = NHM_UNCORE_PERFEVTSEL0"

lemmas nhm_base_defs =
  NHM_UNCORE_PMC_BASE_def NHM_UNCORE_SEL_BASE_def NHM_UNCORE_PMCO_def NHM_UNCORE_PERFEVTSEL0_def

definition NHM_PEREVTSEL_EVENT_MASK :: u64 where "NHM_PEREVTSEL_EVENT_MASK = 0xff"
definition NHM_PEREVTSEL_UNIT_MASK :: u64 where "NHM_PEREVTSEL_UNIT_MASK = push_bit 8 0xff"
definition NHM_PEREVTSEL_OCC_CTR_RST :: u64 where "NHM_PEREVTSEL_OCC_CTR_RST = push_bit 17 1"
definition NHM_PEREVTSEL_EDGE_DETECT :: u64 where "NHM_PEREVTSEL_EDGE_DETECT = push_bit 18 1"
definition NHM_PEREVTSEL_INVERT :: u64 where "NHM_PEREVTSEL_INVERT = push_bit 23 1"
definition NHM_PEREVTSEL_PMI_ENABLE :: u64 where "NHM_PEREVTSEL_PMI_ENABLE = push_bit 20 1"
definition NHM_PEREVTSEL_COUNT_ENABLE :: u64 where "NHM_PEREVTSEL_COUNT_ENABLE = push_bit 22 1"

definition NHM_UNCORE_GLOBAL_CTRL_EN_PMC0 :: u64 where "NHM_UNCORE_GLOBAL_CTRL_EN_PMC0 = push_bit 0 1"
definition NHM_UNCORE_GLOBAL_CTRL_EN_PMC1 :: u64 where "NHM_UNCORE_GLOBAL_CTRL_EN_PMC1 = push_bit 1 1"
definition NHM_UNCORE_GLOBAL_CTRL_EN_PMC2 :: u64 where "NHM_UNCORE_GLOBAL_CTRL_EN_PMC2 = push_bit 2 1"
definition NHM_UNCORE_GLOBAL_CTRL_EN_PMC3 :: u64 where "NHM_UNCORE_GLOBAL_CTRL_EN_PMC3 = push_bit 3 1"
definition NHM_UNCORE_GLOBAL_CTRL_EN_PMC4 :: u64 where "NHM_UNCORE_GLOBAL_CTRL_EN_PMC4 = push_bit 4 1"
definition NHM_UNCORE_GLOBAL_CTRL_EN_PMC5 :: u64 where "NHM_UNCORE_GLOBAL_CTRL_EN_PMC5 = push_bit 5 1"
definition NHM_UNCORE_GLOBAL_CTRL_EN_PMC6 :: u64 where "NHM_UNCORE_GLOBAL_CTRL_EN_PMC6 = push_bit 6 1"
definition NHM_UNCORE_GLOBAL_CTRL_EN_PMC7 :: u64 where "NHM_UNCORE_GLOBAL_CTRL_EN_PMC7 = push_bit 7 1"
definition NHM_UNCORE_GLOBAL_CTRL_EN_PMI_CORE0 :: u64 where "NHM_UNCORE_GLOBAL_CTRL_EN_PMI_CORE0 = push_bit 48 1"
definition NHM_UNCORE_GLOBAL_CTRL_EN_PMI_CORE1 :: u64 where "NHM_UNCORE_GLOBAL_CTRL_EN_PMI_CORE1 = push_bit 49 1"
definition NHM_UNCORE_GLOBAL_CTRL_EN_PMI_CORE2 :: u64 where "NHM_UNCORE_GLOBAL_CTRL_EN_PMI_CORE2 = push_bit 50 1"
definition NHM_UNCORE_GLOBAL_CTRL_EN_PMI_CORE3 :: u64 where "NHM_UNCORE_GLOBAL_CTRL_EN_PMI_CORE3 = push_bit 51 1"
definition NHM_UNCORE_GLOBAL_CTRL_EN_FRZ :: u64 where "NHM_UNCORE_GLOBAL_CTRL_EN_FRZ = push_bit 63 1"
definition NHM_UNCORE_GLOBAL_CTRL_EN_PMI :: u64 where
  "NHM_UNCORE_GLOBAL_CTRL_EN_PMI =
     NHM_UNCORE_GLOBAL_CTRL_EN_PMI_CORE0 OR NHM_UNCORE_GLOBAL_CTRL_EN_PMI_CORE1 OR
     NHM_UNCORE_GLOBAL_CTRL_EN_PMI_CORE2 OR NHM_UNCORE_GLOBAL_CTRL_EN_PMI_CORE3"
definition NHM_UNCORE_GLOBAL_OVF_FC0 :: u64 where "NHM_UNCORE_GLOBAL_OVF_FC0 = push_bit 32 1"
definition NHM_UNCORE_GLOBAL_OVF_PMI :: u64 where "NHM_UNCORE_GLOBAL_OVF_PMI = push_bit 61 1"
definition NHM_UNCORE_GLOBAL_OVF_CHG :: u64 where "NHM_UNCORE_GLOBAL_OVF_CHG = push_bit 63 1"

definition NHM_UNCORE_PMC_MASK :: u64 where
  "NHM_UNCORE_PMC_MASK =
     NHM_UNCORE_GLOBAL_CTRL_EN_PMC0 OR NHM_UNCORE_GLOBAL_CTRL_EN_PMC1 OR
     NHM_UNCORE_GLOBAL_CTRL_EN_PMC2 OR NHM_UNCORE_GLOBAL_CTRL_EN_PMC3 OR
     NHM_UNCORE_GLOBAL_CTRL_EN_PMC4 OR NHM_UNCORE_GLOBAL_CTRL_EN_PMC5 OR
     NHM_UNCORE_GLOBAL_CTRL_EN_PMC6 OR NHM_UNCORE_GLOBAL_CTRL_EN_PMC7"
definition NHM_UNCORE_GLOBAL_CTRL_MASK :: u64 where
  "NHM_UNCORE_GLOBAL_CTRL_MASK = NHM_UNCORE_PMC_MASK OR NHM_UNCORE_GLOBAL_CTRL_EN_PMI"
definition NHM_UNCORE_GLOBAL_STATUS_MASK :: u64 where
  "NHM_UNCORE_GLOBAL_STATUS_MASK =
     NHM_UNCORE_PMC_MASK OR NHM_UNCORE_GLOBAL_OVF_PMI OR NHM_UNCORE_GLOBAL_OVF_CHG"
definition NHM_UNCORE_GLOBAL_OVF_CTRL_MASK :: u64 where
  "NHM_UNCORE_GLOBAL_OVF_CTRL_MASK = NHM_UNCORE_GLOBAL_STATUS_MASK OR NHM_UNCORE_GLOBAL_OVF_FC0"

text \<open>The pairs of a counter and its event select, by their id: the registers that the macro
  \<open>for_each_pmc_pair\<close> goes through. The ids are numbers, from \<open>PMC_PID0\<close> on.\<close>

definition PMC_PID0 :: u32 where "PMC_PID0 = 0"
definition PMC_PID_MAX :: nat where "PMC_PID_MAX = 8"

definition pmc_pairs :: "(u32 \<times> u32) list" where
  "pmc_pairs = map (\<lambda>i. (NHM_UNCORE_PMC_BASE + of_nat i, NHM_UNCORE_SEL_BASE + of_nat i)) [0..<PMC_PID_MAX]"

section \<open>Events\<close>

datatype nhm_uncore_event_id =
    nhm_qhl_request_ioh_reads
  | nhm_qhl_request_ioh_writes
  | nhm_qhl_request_remote_reads
  | nhm_qhl_request_remote_writes
  | nhm_qhl_request_local_reads
  | nhm_qhl_request_local_writes
  | nhm_qmc_normal_reads_any
  | nhm_qmc_writes_full_any
  | nhm_qmc_writes_partial_any

text \<open>The numbers of the events, from 1 on, index the array of descriptions.\<close>

primrec nhm_event_number :: "nhm_uncore_event_id \<Rightarrow> nat" where
  "nhm_event_number nhm_qhl_request_ioh_reads = 1"
| "nhm_event_number nhm_qhl_request_ioh_writes = 2"
| "nhm_event_number nhm_qhl_request_remote_reads = 3"
| "nhm_event_number nhm_qhl_request_remote_writes = 4"
| "nhm_event_number nhm_qhl_request_local_reads = 5"
| "nhm_event_number nhm_qhl_request_local_writes = 6"
| "nhm_event_number nhm_qmc_normal_reads_any = 7"
| "nhm_event_number nhm_qmc_writes_full_any = 8"
| "nhm_event_number nhm_qmc_writes_partial_any = 9"

text \<open>The descriptions: without a comma after the first, C joins the first two string literals, and
  the last place of the array stays \<open>NULL\<close>.\<close>

definition EVENT_DESC :: "string option list" where
  "EVENT_DESC =
     map Some [''BLANK'' @
      ''Read requests from the IOH'',
      ''Write requests from the IOH'',
      ''Read requests from a remote socket'',
      ''Write requests from a remote socket'',
      ''Read requests from the local socket'',
      ''Write requests from the local socket'',
      ''Quickpath Memory Controller read requests'',
      ''Full cache line writes to DRAM'',
      ''Partial cache line writes to DRAM''] @ [None]"

primrec nhm_uncore_event_map :: "nhm_uncore_event_id \<Rightarrow> u64" where
  "nhm_uncore_event_map nhm_qhl_request_ioh_reads = 0x0120"
| "nhm_uncore_event_map nhm_qhl_request_ioh_writes = 0x0220"
| "nhm_uncore_event_map nhm_qhl_request_remote_reads = 0x0420"
| "nhm_uncore_event_map nhm_qhl_request_remote_writes = 0x0820"
| "nhm_uncore_event_map nhm_qhl_request_local_reads = 0x1020"
| "nhm_uncore_event_map nhm_qhl_request_local_writes = 0x2020"
| "nhm_uncore_event_map nhm_qmc_normal_reads_any = 0x072c"
| "nhm_uncore_event_map nhm_qmc_writes_full_any = 0x072f"
| "nhm_uncore_event_map nhm_qmc_writes_partial_any = 0x382f"

text \<open>The instructions, on the CPU they run on; a value goes in two halves, edx:eax.\<close>

definition uncore_cpuid :: "'h platform \<Rightarrow> u32 \<Rightarrow> u32 \<Rightarrow> u32 \<times> u32 \<times> u32 \<times> u32" where
  "uncore_cpuid P cpu op = cpuid P cpu op"

definition uncore_rdmsr :: "'h platform \<Rightarrow> u32 \<Rightarrow> u32 \<Rightarrow> 'h \<Rightarrow> u64" where
  "uncore_rdmsr P cpu addr h =
     (let edx = ucast (drop_bit 32 (rdmsr P h cpu addr)) :: u32; eax = ucast (rdmsr P h cpu addr) :: u32
      in push_bit 32 (ucast edx) OR ucast eax)"

text \<open>The write faults on a reserved bit. No handler of the module is there for the fault, so the kernel dies.\<close>

definition uncore_wrmsr :: "'h platform \<Rightarrow> u32 \<Rightarrow> u32 \<Rightarrow> u64 \<Rightarrow> ('h, 'm) kern_scheme \<Rightarrow> ('h, 'm) kern_scheme" where
  "uncore_wrmsr P cpu addr value s =
     (let edx = ucast (drop_bit 32 value) :: u32; eax = ucast value :: u32;
          v = push_bit 32 (ucast edx) OR ucast eax
      in if wrmsr_gp P addr v then die s else on_world (wrmsr P cpu addr v) s)"

section \<open>Globals\<close>

text \<open>The timer is queued with an interval, or not queued.\<close>

record 'h nhm_st = "'h nmi_kern" +
  nhm_PERF_VERSION :: u32
  nhm_CPU_BASE_FREQUENCY :: u64
  nhm_CPU_BRAND :: "u8 list"
  OVF_COUNT :: "u32 \<Rightarrow> int"
  m_addr :: u32
  m_value :: u64
  NMI_REGISTED :: bool
  FREEZE :: bool
  PMC :: u32
  SURVIVOR :: u32
  XYZ :: u32
  INITVAL :: u64
  UNCORE_PMU_TIMER :: "u64 option"
  TIMER_INITED :: bool
  DELAY_JIFFIES :: u64
  INTERVAL_NS :: u64
  WRITE_LATENCY_DELTA :: u64

definition get_cpu :: "('h, 'm) nhm_st_scheme \<Rightarrow> ('h, 'm) nhm_st_scheme" where
  "get_cpu s = s\<lparr>preempt_count := preempt_count s + 1\<rparr>"

definition put_cpu :: "('h, 'm) nhm_st_scheme \<Rightarrow> ('h, 'm) nhm_st_scheme" where
  "put_cpu s = s\<lparr>preempt_count := preempt_count s - 1\<rparr>"

text \<open>The description of the CPU. Its family, model and stepping are only printed, and so is whether the extended
  functions of \<open>cpuid\<close> are missing and whether its PMU is disabled.\<close>

definition nhm_cpu_no_extended :: "'h platform \<Rightarrow> bool" where
  "nhm_cpu_no_extended P = (case uncore_cpuid P (this_cpu P) 0x80000000 of (eax, _) \<Rightarrow> eax < 0x80000004)"

definition nhm_cpu_brand_info :: "'h platform \<Rightarrow> ('h, 'm) nhm_st_scheme \<Rightarrow> ('h, 'm) nhm_st_scheme" where
  "nhm_cpu_brand_info P s =
     s\<lparr>nhm_CPU_BRAND := concat (map (\<lambda>i. case uncore_cpuid P (this_cpu P) (0x80000002 + of_nat i) of
           (eax, ebx, ecx, edx) \<Rightarrow> le_bytes eax @ le_bytes ebx @ le_bytes ecx @ le_bytes edx) [0..<3]),
       nhm_CPU_BASE_FREQUENCY := 2400000000\<rparr>"

definition cpu_version_info :: "'h platform \<Rightarrow> u32 \<times> u32 \<times> u32" where
  "cpu_version_info P =
     (case uncore_cpuid P (this_cpu P) 0x01 of (eax, _) \<Rightarrow>
       let fid = drop_bit 8 (eax AND 0xf00);
           model = drop_bit 4 (eax AND 0xf0);
           sid = eax AND 0xf;
           model = (if fid = 0xf \<or> fid = 0x6 then model OR drop_bit 12 (eax AND 0xf0000) else model);
           fid = (if fid = 0xf then fid + drop_bit 20 (eax AND 0xff00000) else fid)
       in (fid, model, sid))"

definition nhm_pmu_disabled :: "'h platform \<Rightarrow> 'h \<Rightarrow> bool" where
  "nhm_pmu_disabled P h =
     (let msr = ucast (uncore_rdmsr P (this_cpu P) NHM_MSR_IA32_MISC_ENABLE h) :: u32
      in ucast msr AND MSR_IA32_PERFMON_ENABLE = 0)"

definition nhm_cpu_perf_info :: "'h platform \<Rightarrow> ('h, 'm) nhm_st_scheme \<Rightarrow> ('h, 'm) nhm_st_scheme" where
  "nhm_cpu_perf_info P s = (case uncore_cpuid P (this_cpu P) 0x0a of (eax, _) \<Rightarrow> s\<lparr>nhm_PERF_VERSION := eax AND 0xff\<rparr>)"

text \<open>The messages, the brand up to its final zero, and the state.\<close>

definition uncore_cpu_info :: "'h platform \<Rightarrow> ('h, 'm) nhm_st_scheme \<Rightarrow>
    (bool \<times> u8 list \<times> (u32 \<times> u32 \<times> u32) \<times> u32 \<times> bool) \<times> ('h, 'm) nhm_st_scheme" where
  "uncore_cpu_info P s =
     (let s = nhm_cpu_brand_info P s;
          s = nhm_cpu_perf_info P s
      in ((nhm_cpu_no_extended P, takeWhile (\<lambda>c. c \<noteq> 0) (nhm_CPU_BRAND s), cpu_version_info P,
           nhm_PERF_VERSION s, nhm_pmu_disabled P (world s)), s))"

section \<open>The unit of a package\<close>

text \<open>What a CPU prints: the two global registers, and the pairs whose event select is not zero.\<close>

definition nhm_uncore_show_msrs :: "'h platform \<Rightarrow> u32 \<Rightarrow> 'h \<Rightarrow> (u32 \<times> u64 \<times> u64 \<times> (nat \<times> u64 \<times> u64) list) list" where
  "nhm_uncore_show_msrs P cpu h =
     [(cpu, uncore_rdmsr P cpu NHM_UNCORE_GLOBAL_CTRL h, uncore_rdmsr P cpu NHM_UNCORE_GLOBAL_STATUS h,
       filter (\<lambda>(i, a, b). b \<noteq> 0)
         (map (\<lambda>(i, pmc, sel). (i, uncore_rdmsr P cpu pmc h, uncore_rdmsr P cpu sel h)) (enumerate 0 pmc_pairs)))]"

definition nhm_uncore_show_all :: "'h platform \<Rightarrow> ('h, 'm) kern_scheme \<Rightarrow>
    (u32 \<times> u64 \<times> u64 \<times> (nat \<times> u64 \<times> u64) list) list" where
  "nhm_uncore_show_all P =
     printed (\<lambda>s.
       let s = snd (smp_call_function_single P 0 (\<lambda>cpu. print_on (nhm_uncore_show_msrs P cpu)) s)
       in snd (smp_call_function_single P 6 (\<lambda>cpu. print_on (nhm_uncore_show_msrs P cpu)) s))"

definition nhm_uncore_clear_ovf :: "'h platform \<Rightarrow> u64 \<Rightarrow> u32 \<Rightarrow> ('h, 'm) kern_scheme \<Rightarrow> ('h, 'm) kern_scheme" where
  "nhm_uncore_clear_ovf P pmcmask cpu =
     uncore_wrmsr P cpu NHM_UNCORE_GLOBAL_OVF_CTRL (pmcmask OR (NHM_UNCORE_GLOBAL_OVF_PMI OR NHM_UNCORE_GLOBAL_OVF_CHG))"

definition nhm_uncore_clear_status :: "'h platform \<Rightarrow> u32 \<Rightarrow> ('h, 'm) kern_scheme \<Rightarrow> ('h, 'm) kern_scheme" where
  "nhm_uncore_clear_status P cpu = uncore_wrmsr P cpu NHM_UNCORE_GLOBAL_OVF_CTRL NHM_UNCORE_GLOBAL_OVF_CTRL_MASK"

definition nhm_uncore_clear_ctrl :: "'h platform \<Rightarrow> u32 \<Rightarrow> ('h, 'm) kern_scheme \<Rightarrow> ('h, 'm) kern_scheme" where
  "nhm_uncore_clear_ctrl P cpu = uncore_wrmsr P cpu NHM_UNCORE_GLOBAL_CTRL 0"

definition nhm_uncore_clear_msrs :: "'h platform \<Rightarrow> u32 \<Rightarrow> ('h, 'm) kern_scheme \<Rightarrow> ('h, 'm) kern_scheme" where
  "nhm_uncore_clear_msrs P cpu s =
     (let s = nhm_uncore_clear_ctrl P cpu s;
          s = nhm_uncore_clear_status P cpu s
      in fold (\<lambda>(pmc, sel) s. uncore_wrmsr P cpu sel 0 (uncore_wrmsr P cpu pmc 0 s)) pmc_pairs s)"

definition nhm_uncore_clear_all :: "'h platform \<Rightarrow> ('h, 'm) kern_scheme \<Rightarrow> ('h, 'm) kern_scheme" where
  "nhm_uncore_clear_all P s =
     (let s = snd (smp_call_function_single P 0 (nhm_uncore_clear_msrs P) s)
      in snd (smp_call_function_single P 6 (nhm_uncore_clear_msrs P) s))"

definition nhm_uncore_set_event :: "'h platform \<Rightarrow> u32 \<Rightarrow> nhm_uncore_event_id \<Rightarrow> u64 \<Rightarrow> u32 \<Rightarrow>
    ('h, 'm) kern_scheme \<Rightarrow> ('h, 'm) kern_scheme" where
  "nhm_uncore_set_event P pmcid evt pmcval cpu s =
     (let pmcval = pmcval AND NHM_UNCORE_PMC_VALUE_MASK;
          selval = nhm_uncore_event_map evt OR NHM_PEREVTSEL_COUNT_ENABLE OR NHM_PEREVTSEL_PMI_ENABLE
      in uncore_wrmsr P cpu (pmcid + NHM_UNCORE_SEL_BASE) selval
           (uncore_wrmsr P cpu (pmcid + NHM_UNCORE_PMC_BASE) pmcval s))"

text \<open>\<open>mask\<close> is not initialised: its content is what the stack holds.\<close>

definition nhm_uncore_enable_counting :: "'h platform \<Rightarrow> bool \<Rightarrow> u32 \<Rightarrow>
    ('h, 'm) kern_scheme \<Rightarrow> ('h, 'm) kern_scheme" where
  "nhm_uncore_enable_counting P frz cpu =
     (let msk = stack_junk64 P;
          msk = (if frz then msk OR NHM_UNCORE_GLOBAL_CTRL_EN_FRZ else msk);
          msk = msk OR NHM_UNCORE_PMC_MASK;
          msk = msk OR NHM_UNCORE_GLOBAL_CTRL_EN_PMI
      in uncore_wrmsr P cpu NHM_UNCORE_GLOBAL_CTRL msk)"

definition nhm_uncore_disable_counting :: "'h platform \<Rightarrow> u32 \<Rightarrow> ('h, 'm) kern_scheme \<Rightarrow> ('h, 'm) kern_scheme" where
  "nhm_uncore_disable_counting P cpu = uncore_wrmsr P cpu NHM_UNCORE_GLOBAL_CTRL 0"

section \<open>Interrupts\<close>

definition enable_pmi_on_cpu :: "'h platform \<Rightarrow> u32 \<Rightarrow> ('h, 'm) kern_scheme \<Rightarrow> ('h, 'm) kern_scheme" where
  "enable_pmi_on_cpu P cpu s =
     (let msr = uncore_rdmsr P cpu MSR_IA32_DEBUG_CTL (world s)
      in if msr AND MSR_IA32_ENABLE_UNCORE_PMI = 0
         then uncore_wrmsr P cpu MSR_IA32_DEBUG_CTL (msr OR MSR_IA32_ENABLE_UNCORE_PMI) s else s)"

definition nhm_lapic_init_on_cpu :: "'h platform \<Rightarrow> u32 \<Rightarrow> 'h \<Rightarrow> 'h" where
  "nhm_lapic_init_on_cpu P cpu = apic_write P cpu APIC_LVTPC APIC_DM_NMI"

definition nhm_uncore_pmi_enable :: "'h platform \<Rightarrow> ('h, 'm) kern_scheme \<Rightarrow> ('h, 'm) kern_scheme" where
  "nhm_uncore_pmi_enable P =
     for_each_online_cpu P (\<lambda>cpu s.
       let s = snd (smp_call_function_single P cpu (enable_pmi_on_cpu P) s)
       in snd (smp_call_function_single P cpu (\<lambda>cpu. on_world (nhm_lapic_init_on_cpu P cpu)) s))"

definition remote_rdmsr :: "'h platform \<Rightarrow> u32 \<Rightarrow> ('h, 'm) nhm_st_scheme \<Rightarrow> ('h, 'm) nhm_st_scheme" where
  "remote_rdmsr P cpu s = s\<lparr>m_value := uncore_rdmsr P cpu (m_addr s) (world s)\<rparr>"

definition remote_restart :: "'h platform \<Rightarrow> u64 \<Rightarrow> u32 \<Rightarrow> ('h, 'm) nhm_st_scheme \<Rightarrow> ('h, 'm) nhm_st_scheme" where
  "remote_restart P ovfpmc cpu s =
     (let s = nhm_uncore_clear_ovf P ovfpmc cpu s;
          s = nhm_uncore_set_event P (PMC s) nhm_qhl_request_remote_writes (INITVAL s) cpu s
      in nhm_uncore_enable_counting P (FREEZE s) cpu s)"

text \<open>The handler returns without \<open>put_cpu\<close> when no counter has overflowed.\<close>

definition nhm_uncore_nmi_handler :: "'h platform \<Rightarrow> u32 \<Rightarrow> ('h, 'm) nhm_st_scheme \<Rightarrow>
    nmi_result \<times> ('h, 'm) nhm_st_scheme" where
  "nhm_uncore_nmi_handler P cpu s =
     (let s = get_cpu s;
          (sts, s) =
            (if cpu = SURVIVOR s
             then (let s = s\<lparr>m_addr := NHM_UNCORE_GLOBAL_STATUS\<rparr>;
                       s = snd (smp_call_function_single P (XYZ s) (remote_rdmsr P) s)
                   in (m_value s, s))
             else (uncore_rdmsr P cpu NHM_UNCORE_GLOBAL_STATUS (world s), s));
          ovfpmc = sts AND NHM_UNCORE_PMC_MASK
      in if ovfpmc = 0 then (NMI_DONE, s)
         else (NMI_HANDLED, put_cpu (s\<lparr>OVF_COUNT := (OVF_COUNT s)(cpu := OVF_COUNT s cpu + 1)\<rparr>)))"

definition uncore_nmi_register :: "('h, 'm) nhm_st_scheme \<Rightarrow> ('h, 'm) nhm_st_scheme" where
  "uncore_nmi_register s = (register_nmi_handler ''NHM_UNCORE_HANLDER'' s)\<lparr>NMI_REGISTED := True\<rparr>"

definition uncore_nmi_unregister :: "('h, 'm) nhm_st_scheme \<Rightarrow> ('h, 'm) nhm_st_scheme" where
  "uncore_nmi_unregister s =
     (if NMI_REGISTED s then unregister_nmi_handler ''NHM_UNCORE_HANLDER'' s else s)"

section \<open>The timer\<close>

text \<open>The call is not waited for, and the function gets the address of a variable on the stack of its caller. On
  the caller's own CPU it runs before the call returns and reads the variable. Another CPU runs it later:
  \<open>late\<close> is \<open>None\<close> when that is soon enough to find the variable, and \<open>Some v\<close> when the stack has
  been used again and holds \<open>v\<close> there.\<close>

definition uncore_pmu_delay :: "u64 \<Rightarrow> u32 \<Rightarrow> ('h, 'm) kern_scheme \<Rightarrow> ('h, 'm) kern_scheme" where
  "uncore_pmu_delay ns cpu s = udelay (ns div 1000) cpu s"

definition uncore_pmu_delay_cpu :: "'h platform \<Rightarrow> u64 option \<Rightarrow> u32 \<Rightarrow> u64 \<Rightarrow>
    ('h, 'm) kern_scheme \<Rightarrow> ('h, 'm) kern_scheme" where
  "uncore_pmu_delay_cpu P late cpu ns s =
     (let slot = (if cpu = this_cpu P then ns else case late of None \<Rightarrow> ns | Some v \<Rightarrow> v)
      in snd (smp_call_function_single P cpu (uncore_pmu_delay slot) s))"

definition writes_to_delay :: "('h, 'm) nhm_st_scheme \<Rightarrow> u64 \<Rightarrow> u64" where
  "writes_to_delay s nr_writes = nr_writes * WRITE_LATENCY_DELTA s"

text \<open>The result says that the timer wants to be queued again.\<close>

definition uncore_pmu_hrtimer_cb :: "'h platform \<Rightarrow> u64 option \<Rightarrow> ('h, 'm) nhm_st_scheme \<Rightarrow>
    bool \<times> ('h, 'm) nhm_st_scheme" where
  "uncore_pmu_hrtimer_cb P late s =
     (let s = s\<lparr>DELAY_JIFFIES := DELAY_JIFFIES s + 1\<rparr>;
          remote_writes = uncore_rdmsr P (this_cpu P) NHM_UNCORE_PMCO (world s);
          delay_ns = writes_to_delay s remote_writes;
          s = uncore_pmu_delay_cpu P late (SURVIVOR s) delay_ns s;
          s = uncore_wrmsr P (this_cpu P) NHM_UNCORE_PMCO 0 s
      in (True, s\<lparr>UNCORE_PMU_TIMER := Some (INTERVAL_NS s)\<rparr>))"

definition uncore_pmu_hrtimer_init :: "('h, 'm) nhm_st_scheme \<Rightarrow> ('h, 'm) nhm_st_scheme" where
  "uncore_pmu_hrtimer_init s = s\<lparr>UNCORE_PMU_TIMER := None, TIMER_INITED := True\<rparr>"

definition uncore_pmu_hrtimer_start :: "u64 \<Rightarrow> ('h, 'm) nhm_st_scheme \<Rightarrow> ('h, 'm) nhm_st_scheme" where
  "uncore_pmu_hrtimer_start time s = (if TIMER_INITED s then s\<lparr>UNCORE_PMU_TIMER := Some time\<rparr> else s)"

definition uncore_pmu_hrtimer_cancel :: "('h, 'm) nhm_st_scheme \<Rightarrow> ('h, 'm) nhm_st_scheme" where
  "uncore_pmu_hrtimer_cancel s = (if TIMER_INITED s then s\<lparr>UNCORE_PMU_TIMER := None\<rparr> else s)"

section \<open>Loading and unloading\<close>

definition uncore_pmu_main :: "'h platform \<Rightarrow> ('h, 'm) nhm_st_scheme \<Rightarrow> ('h, 'm) nhm_st_scheme" where
  "uncore_pmu_main P s =
     (let s = s\<lparr>TIMER_INITED := False, NMI_REGISTED := False, SURVIVOR := 6, XYZ := 0, INITVAL := - 100,
            FREEZE := False, PMC := PMC_PID0, INTERVAL_NS := 1000000, WRITE_LATENCY_DELTA := 150\<rparr>;
          s = uncore_pmu_hrtimer_init s;
          s = nhm_uncore_clear_all P s;
          s = nhm_uncore_set_event P (PMC s) nhm_qhl_request_remote_writes (INITVAL s) (this_cpu P) s;
          s = nhm_uncore_enable_counting P (FREEZE s) (this_cpu P) s
      in uncore_pmu_hrtimer_start 1 s)"

text \<open>What \<open>read\<close> prints: two registers of every CPU that is online and answers.\<close>

definition read_on_cpu :: "'h platform \<Rightarrow> u32 \<Rightarrow> 'h \<Rightarrow> (u32 \<times> u64 \<times> u64) list" where
  "read_on_cpu P cpu h =
     [(cpu, uncore_rdmsr P cpu NHM_MSR_CORE_PERF_GLOBAL_CTRL h, uncore_rdmsr P cpu NHM_MSR_IA32_PERFEVTSEL0 h)]"

definition nhm_read :: "'h platform \<Rightarrow> ('h, 'm) kern_scheme \<Rightarrow> (u32 \<times> u64 \<times> u64) list" where
  "nhm_read P =
     printed (for_each_online_cpu P (\<lambda>cpu s. snd (smp_call_function_single P cpu (\<lambda>cpu. print_on (read_on_cpu P cpu)) s)))"

definition uncore_pmu_init :: "'h platform \<Rightarrow> ('h, 'm) nhm_st_scheme \<Rightarrow> int \<times> ('h, 'm) nhm_st_scheme" where
  "uncore_pmu_init P s =
     (let s = get_cpu s;
          s = snd (uncore_cpu_info P s);
          s = uncore_pmu_main P s
      in (0, put_cpu s))"

definition uncore_pmu_exit :: "'h platform \<Rightarrow> ('h, 'm) nhm_st_scheme \<Rightarrow> ('h, 'm) nhm_st_scheme" where
  "uncore_pmu_exit P s =
     (let s = get_cpu s;
          s = nhm_uncore_clear_all P s;
          s = uncore_nmi_unregister s;
          s = uncore_pmu_hrtimer_cancel s
      in put_cpu s)"

end
