(* ===== verification/Nhmep_Sampling.thy ===== *)
theory Nhmep_Sampling
  imports Uncore_Nhmep Ref_Machine
begin

text \<open>
  The Nehalem-EP module against the registers of its packages: what it has set up when it is
  loaded and when loading faults, what every run of the timer charges, and what it leaves behind.
\<close>

section \<open>The contract of the registers\<close>

lemma nhm_rdmsr [simp]: "uncore_rdmsr P c a h = rdmsr P h c a"
  by (simp add: uncore_rdmsr_def word_halves_join)

lemma nhm_wrmsr: "uncore_wrmsr P c a v s = (if wrmsr_gp P a v then die s else on_world (wrmsr P c a v) s)"
  by (simp add: uncore_wrmsr_def word_halves_join)

abbreviation "nhm_counters \<equiv> map fst pmc_pairs"
abbreviation "nhm_selects \<equiv> map snd pmc_pairs"

abbreviation nhm_regs :: "u32 set" where
  "nhm_regs \<equiv> set (nhm_counters @ nhm_selects) \<union> {NHM_UNCORE_GLOBAL_CTRL}"

text \<open>The addresses of the unit, one after the other.\<close>

lemma nhm_addrs:
  "pmc_pairs = [(0x3b0, 0x3c0), (0x3b1, 0x3c1), (0x3b2, 0x3c2), (0x3b3, 0x3c3), (0x3b4, 0x3c4), (0x3b5, 0x3c5),
     (0x3b6, 0x3c6), (0x3b7, 0x3c7)]"
  by code_simp

lemma nhm_regs_apart:
  "NHM_UNCORE_PMC_BASE \<in> set nhm_counters" "NHM_UNCORE_SEL_BASE \<in> set nhm_selects"
  "NHM_UNCORE_PMC_BASE \<noteq> NHM_UNCORE_SEL_BASE" "NHM_UNCORE_PMC_BASE \<noteq> NHM_UNCORE_GLOBAL_CTRL"
  "NHM_UNCORE_SEL_BASE \<noteq> NHM_UNCORE_GLOBAL_CTRL"
  by (simp_all add: nhm_addrs nhm_base_defs NHM_UNCORE_GLOBAL_CTRL_def)

text \<open>The bits of an event select that the source names.\<close>

definition nhm_sel_bits :: u64 where
  "nhm_sel_bits =
     NHM_PEREVTSEL_EVENT_MASK OR NHM_PEREVTSEL_UNIT_MASK OR NHM_PEREVTSEL_OCC_CTR_RST OR
     NHM_PEREVTSEL_EDGE_DETECT OR NHM_PEREVTSEL_PMI_ENABLE OR NHM_PEREVTSEL_COUNT_ENABLE OR NHM_PEREVTSEL_INVERT"

text \<open>The CPUs of a package share the unit: \<open>pkg\<close> is the package of a CPU. A register holds what is written,
  unless the write faults: a counter has 48 bits, the event selects and the overflow control register have at
  least the bits that the source names, and \<open>ctrl_bits\<close> are the bits of the control register, the named ones
  among them. The overflow control register is none of the others.\<close>

locale nhm_msrs =
  fixes P :: "'h platform" and pkg :: "u32 \<Rightarrow> nat" and ctrl_bits :: u64
  assumes gp_counter: "b \<in> set nhm_counters \<Longrightarrow> wrmsr_gp P b v \<longleftrightarrow> 2 ^ 48 \<le> v"
    and gp_select: "b \<in> set nhm_selects \<Longrightarrow> v AND NOT nhm_sel_bits = 0 \<Longrightarrow> \<not> wrmsr_gp P b v"
    and gp_ctrl: "wrmsr_gp P NHM_UNCORE_GLOBAL_CTRL v \<longleftrightarrow> v AND NOT ctrl_bits \<noteq> 0"
    and gp_ovf: "v AND NOT NHM_UNCORE_GLOBAL_OVF_CTRL_MASK = 0 \<Longrightarrow> \<not> wrmsr_gp P NHM_UNCORE_GLOBAL_OVF_CTRL v"
    and ctrl_named: "(NHM_UNCORE_GLOBAL_CTRL_MASK OR NHM_UNCORE_GLOBAL_CTRL_EN_FRZ) AND NOT ctrl_bits = 0"
    and write_read: "b \<in> nhm_regs \<Longrightarrow> \<not> wrmsr_gp P b v \<Longrightarrow> a \<in> nhm_regs \<Longrightarrow>
      rdmsr P (wrmsr P c b v h) c' a = (if pkg c' = pkg c \<and> a = b then v else rdmsr P h c' a)"
    and ovf: "a \<in> nhm_regs \<Longrightarrow> rdmsr P (wrmsr P c NHM_UNCORE_GLOBAL_OVF_CTRL v h) c' a = rdmsr P h c' a"
    and up: "smp_status P (wrmsr P c b v h) = smp_status P h"
begin

lemma zero_ok: "b \<in> nhm_regs \<Longrightarrow> \<not> wrmsr_gp P b 0"
  using gp_counter [of b 0] gp_select [of b 0] gp_ctrl [of 0] by auto

lemma write_zero: "b \<in> nhm_regs \<Longrightarrow> uncore_wrmsr P c b 0 s = on_world (wrmsr P c b 0) s"
  by (simp only: nhm_wrmsr zero_ok if_False)

lemma write_ovf:
  "uncore_wrmsr P c NHM_UNCORE_GLOBAL_OVF_CTRL NHM_UNCORE_GLOBAL_OVF_CTRL_MASK s =
   on_world (wrmsr P c NHM_UNCORE_GLOBAL_OVF_CTRL NHM_UNCORE_GLOBAL_OVF_CTRL_MASK) s"
  using gp_ovf [of NHM_UNCORE_GLOBAL_OVF_CTRL_MASK] by (simp add: nhm_wrmsr)

text \<open>Clearing some pairs: no write faults, and their registers are 0.\<close>

lemma clear_pairs:
  assumes "set ps \<subseteq> set pmc_pairs"
  shows "\<exists>h. fold (\<lambda>(pmc, sel) s. uncore_wrmsr P c sel 0 (uncore_wrmsr P c pmc 0 s)) ps s = s\<lparr>world := h\<rparr> \<and>
    smp_status P h = smp_status P (world s) \<and>
    (\<forall>a \<in> nhm_regs. \<forall>c'. rdmsr P h c' a =
      (if pkg c' = pkg c \<and> a \<in> set (map fst ps @ map snd ps) then 0 else rdmsr P (world s) c' a))"
  using assms
proof (induction ps arbitrary: s)
  case Nil
  then show ?case by (intro exI [of _ "world s"]) simp
next
  case (Cons p ps)
  obtain x y where p: "p = (x, y)" by fastforce
  with Cons.prems have r: "x \<in> nhm_regs" "y \<in> nhm_regs" by force+
  let ?s = "uncore_wrmsr P c y 0 (uncore_wrmsr P c x 0 s)"
  have e: "?s = s\<lparr>world := wrmsr P c y 0 (wrmsr P c x 0 (world s))\<rparr>"
    by (simp only: write_zero [OF r(1)] write_zero [OF r(2)]) (simp add: on_world_def)
  have w: "rdmsr P (world ?s) c' a = (if pkg c' = pkg c \<and> a \<in> {x, y} then 0 else rdmsr P (world s) c' a)"
    if "a \<in> nhm_regs" for c' a
    using write_read [OF r(1) zero_ok [OF r(1)] that] write_read [OF r(2) zero_ok [OF r(2)] that] by (auto simp: e)
  from Cons.prems have "set ps \<subseteq> set pmc_pairs" by simp
  from Cons.IH [OF this, of ?s] obtain h where
    h: "fold (\<lambda>(pmc, sel) s. uncore_wrmsr P c sel 0 (uncore_wrmsr P c pmc 0 s)) ps ?s = ?s\<lparr>world := h\<rparr>"
      "smp_status P h = smp_status P (world ?s)"
      "\<forall>a \<in> nhm_regs. \<forall>c'. rdmsr P h c' a =
        (if pkg c' = pkg c \<and> a \<in> set (map fst ps @ map snd ps) then 0 else rdmsr P (world ?s) c' a)" by blast
  have "\<forall>a \<in> nhm_regs. \<forall>c'. rdmsr P h c' a =
      (if pkg c' = pkg c \<and> a \<in> set (map fst (p # ps) @ map snd (p # ps)) then 0 else rdmsr P (world s) c' a)"
    using h(3) w by (auto simp: p)
  moreover have "?s\<lparr>world := h\<rparr> = s\<lparr>world := h\<rparr>" "smp_status P (world ?s) = smp_status P (world s)"
    by (simp_all add: e up)
  ultimately show ?case using h(1,2) by (intro exI [of _ h]) (simp add: p)
qed

text \<open>After a clear of a package all its registers are 0.\<close>

lemma clear_msrs:
  "\<exists>h. nhm_uncore_clear_msrs P c s = s\<lparr>world := h\<rparr> \<and> smp_status P h = smp_status P (world s) \<and>
    (\<forall>a \<in> nhm_regs. \<forall>c'. rdmsr P h c' a = (if pkg c' = pkg c then 0 else rdmsr P (world s) c' a))"
proof -
  let ?s = "nhm_uncore_clear_status P c (nhm_uncore_clear_ctrl P c s)"
  have g: "NHM_UNCORE_GLOBAL_CTRL \<in> nhm_regs" by simp
  have e: "?s = s\<lparr>world := wrmsr P c NHM_UNCORE_GLOBAL_OVF_CTRL NHM_UNCORE_GLOBAL_OVF_CTRL_MASK
      (wrmsr P c NHM_UNCORE_GLOBAL_CTRL 0 (world s))\<rparr>"
    by (simp only: nhm_uncore_clear_status_def nhm_uncore_clear_ctrl_def write_zero [OF g] write_ovf)
      (simp add: on_world_def)
  have w: "rdmsr P (world ?s) c' a =
      (if pkg c' = pkg c \<and> a = NHM_UNCORE_GLOBAL_CTRL then 0 else rdmsr P (world s) c' a)"
    if "a \<in> nhm_regs" for c' a
    using ovf [OF that] write_read [OF g zero_ok [OF g] that] by (simp add: e)
  obtain h where h: "nhm_uncore_clear_msrs P c s = ?s\<lparr>world := h\<rparr>" "smp_status P h = smp_status P (world ?s)"
    "\<forall>a \<in> nhm_regs. \<forall>c'. rdmsr P h c' a =
      (if pkg c' = pkg c \<and> a \<in> set (nhm_counters @ nhm_selects) then 0 else rdmsr P (world ?s) c' a)"
    using clear_pairs [OF order_refl, of c ?s] unfolding nhm_uncore_clear_msrs_def Let_def by blast
  have "\<forall>a \<in> nhm_regs. \<forall>c'. rdmsr P h c' a = (if pkg c' = pkg c then 0 else rdmsr P (world s) c' a)"
    using h(3) w by auto
  moreover have "?s\<lparr>world := h\<rparr> = s\<lparr>world := h\<rparr>" "smp_status P (world ?s) = smp_status P (world s)"
    by (simp_all add: e up)
  ultimately show ?thesis using h(1,2) by (intro exI [of _ h]) simp
qed

lemma clear_all:
  assumes "smp_status P (world s) 0 = 0" "smp_status P (world s) 6 = 0"
  shows "\<exists>h. nhm_uncore_clear_all P s = s\<lparr>world := h\<rparr> \<and> smp_status P h = smp_status P (world s) \<and>
    (\<forall>a \<in> nhm_regs. \<forall>c. pkg c = pkg 0 \<or> pkg c = pkg 6 \<longrightarrow> rdmsr P h c a = 0)"
proof -
  obtain h1 where h1: "nhm_uncore_clear_msrs P 0 s = s\<lparr>world := h1\<rparr>" "smp_status P h1 = smp_status P (world s)"
    "\<forall>a \<in> nhm_regs. \<forall>c'. rdmsr P h1 c' a = (if pkg c' = pkg 0 then 0 else rdmsr P (world s) c' a)"
    using clear_msrs by blast
  obtain h where h: "nhm_uncore_clear_msrs P 6 (s\<lparr>world := h1\<rparr>) = s\<lparr>world := h1\<rparr>\<lparr>world := h\<rparr>"
    "smp_status P h = smp_status P h1"
    "\<forall>a \<in> nhm_regs. \<forall>c'. rdmsr P h c' a = (if pkg c' = pkg 6 then 0 else rdmsr P h1 c' a)"
    using clear_msrs [of 6 "s\<lparr>world := h1\<rparr>"] by auto
  have "nhm_uncore_clear_all P s = s\<lparr>world := h\<rparr>"
    using assms h1(1,2) h(1) by (simp add: nhm_uncore_clear_all_def smp_call_function_single_def Let_def)
  then show ?thesis using h1(2,3) h(2,3) by (intro exI [of _ h]) simp
qed

text \<open>The event of the module: counter 0 starts from \<open>-100\<close> in 48 bits. Enabling faults exactly when the
  uninitialised mask has a bit that the control register does not have.\<close>

lemma event_ok:
  "\<not> wrmsr_gp P NHM_UNCORE_PMC_BASE (2 ^ 48 - 100)"
  "\<not> wrmsr_gp P NHM_UNCORE_SEL_BASE (0x0820 OR NHM_PEREVTSEL_COUNT_ENABLE OR NHM_PEREVTSEL_PMI_ENABLE)"
proof -
  show "\<not> wrmsr_gp P NHM_UNCORE_PMC_BASE (2 ^ 48 - 100)"
    using gp_counter [OF nhm_regs_apart(1)] by simp
  have "(0x0820 OR NHM_PEREVTSEL_COUNT_ENABLE OR NHM_PEREVTSEL_PMI_ENABLE) AND NOT nhm_sel_bits = 0"
    by code_simp
  then show "\<not> wrmsr_gp P NHM_UNCORE_SEL_BASE (0x0820 OR NHM_PEREVTSEL_COUNT_ENABLE OR NHM_PEREVTSEL_PMI_ENABLE)"
    by (rule gp_select [OF nhm_regs_apart(2)])
qed

lemma mask_gp:
  "wrmsr_gp P NHM_UNCORE_GLOBAL_CTRL (stack_junk64 P OR NHM_UNCORE_GLOBAL_CTRL_MASK) \<longleftrightarrow>
   stack_junk64 P AND NOT ctrl_bits \<noteq> 0"
proof -
  have "NHM_UNCORE_GLOBAL_CTRL_MASK AND NOT ctrl_bits = 0"
    using ctrl_named by (simp add: bit.conj_disj_distrib2 or_eq_0_iff)
  then show ?thesis by (simp add: gp_ctrl bit.conj_disj_distrib2)
qed

lemma set_event_eq:
  "nhm_uncore_set_event P 0 nhm_qhl_request_remote_writes (- 100) c s =
   s\<lparr>world := wrmsr P c NHM_UNCORE_SEL_BASE (0x0820 OR NHM_PEREVTSEL_COUNT_ENABLE OR NHM_PEREVTSEL_PMI_ENABLE)
     (wrmsr P c NHM_UNCORE_PMC_BASE (2 ^ 48 - 100) (world s))\<rparr>"
proof -
  have m: "- 100 AND NHM_UNCORE_PMC_VALUE_MASK = 2 ^ 48 - 100"
    by (simp add: NHM_UNCORE_PMC_VALUE_MASK_def)
  show ?thesis
    using event_ok by (simp add: nhm_uncore_set_event_def Let_def m nhm_wrmsr on_world_def)
qed

lemma enable_eq:
  "nhm_uncore_enable_counting P False c s =
   (if stack_junk64 P AND NOT ctrl_bits \<noteq> 0 then die s
    else s\<lparr>world := wrmsr P c NHM_UNCORE_GLOBAL_CTRL (stack_junk64 P OR NHM_UNCORE_GLOBAL_CTRL_MASK) (world s)\<rparr>)"
  using mask_gp
  by (simp add: nhm_uncore_enable_counting_def Let_def NHM_UNCORE_GLOBAL_CTRL_MASK_def nhm_wrmsr on_world_def or.assoc)

text \<open>What the module has set up once it is loaded: counter 0 of the package it was loaded on counts
  remote writes from \<open>-100\<close>, and the timer is queued. The control register has the mask with everything
  that happened to be on the stack, unless that made the write fault.\<close>

lemma init_facts:
  assumes "smp_status P (world s) 0 = 0" "smp_status P (world s) 6 = 0" "uncore_pmu_init P s = (r, t)"
  shows "r = 0" "SURVIVOR t = 6" "WRITE_LATENCY_DELTA t = 150" "INTERVAL_NS t = 1000000"
    "UNCORE_PMU_TIMER t = Some 1" "TIMER_INITED t" "\<not> NMI_REGISTED t" "delays t = delays s"
    "preempt_count t = preempt_count s" "nmi_actions t = nmi_actions s"
    "smp_status P (world t) = smp_status P (world s)"
    "panicked t \<longleftrightarrow> panicked s \<or> stack_junk64 P AND NOT ctrl_bits \<noteq> 0"
    "rdmsr P (world t) (this_cpu P) NHM_UNCORE_PMC_BASE = 2 ^ 48 - 100"
    "rdmsr P (world t) (this_cpu P) NHM_UNCORE_SEL_BASE =
      0x0820 OR NHM_PEREVTSEL_COUNT_ENABLE OR NHM_PEREVTSEL_PMI_ENABLE"
    "\<not> panicked t \<Longrightarrow>
      rdmsr P (world t) (this_cpu P) NHM_UNCORE_GLOBAL_CTRL = stack_junk64 P OR NHM_UNCORE_GLOBAL_CTRL_MASK"
proof -
  obtain s1 where s1: "snd (uncore_cpu_info P (get_cpu s)) = s1" and f: "world s1 = world s" "delays s1 = delays s"
    "preempt_count s1 = preempt_count s + 1" "nmi_actions s1 = nmi_actions s" "panicked s1 = panicked s"
    by (cases "cpuid P (this_cpu P) 0x0a")
      (auto simp: uncore_cpu_info_def uncore_cpuid_def Let_def nhm_cpu_brand_info_def nhm_cpu_perf_info_def get_cpu_def)
  let ?s2 = "s1\<lparr>NMI_REGISTED := False, SURVIVOR := 6, XYZ := 0, INITVAL := - 100, FREEZE := False, PMC := 0,
            INTERVAL_NS := 1000000, WRITE_LATENCY_DELTA := 150, UNCORE_PMU_TIMER := None, TIMER_INITED := True\<rparr>"
  obtain h where h: "nhm_uncore_clear_all P ?s2 = ?s2\<lparr>world := h\<rparr>" "smp_status P h = smp_status P (world s)"
    using clear_all [of ?s2] assms(1,2) by (auto simp: f)
  let ?e = "wrmsr P (this_cpu P) NHM_UNCORE_SEL_BASE (0x0820 OR NHM_PEREVTSEL_COUNT_ENABLE OR NHM_PEREVTSEL_PMI_ENABLE)
     (wrmsr P (this_cpu P) NHM_UNCORE_PMC_BASE (2 ^ 48 - 100) h)"
  let ?bad = "stack_junk64 P AND NOT ctrl_bits \<noteq> 0"
  let ?w = "if ?bad then ?e
    else wrmsr P (this_cpu P) NHM_UNCORE_GLOBAL_CTRL (stack_junk64 P OR NHM_UNCORE_GLOBAL_CTRL_MASK) ?e"
  have t: "r = 0" "t = s1\<lparr>NMI_REGISTED := False, SURVIVOR := 6, XYZ := 0, INITVAL := - 100,
            FREEZE := False, PMC := 0, INTERVAL_NS := 1000000, WRITE_LATENCY_DELTA := 150,
            TIMER_INITED := True, world := ?w, UNCORE_PMU_TIMER := Some 1, preempt_count := preempt_count s,
            panicked := panicked s \<or> ?bad\<rparr>"
    using assms(3) f
    by (auto simp: uncore_pmu_init_def Let_def s1 uncore_pmu_main_def uncore_pmu_hrtimer_init_def h(1) set_event_eq
        enable_eq die_def uncore_pmu_hrtimer_start_def put_cpu_def PMC_PID0_def)
  show "r = 0" "SURVIVOR t = 6" "WRITE_LATENCY_DELTA t = 150" "INTERVAL_NS t = 1000000"
    "UNCORE_PMU_TIMER t = Some 1" "TIMER_INITED t" "\<not> NMI_REGISTED t" "delays t = delays s"
    "preempt_count t = preempt_count s" "nmi_actions t = nmi_actions s"
    "panicked t \<longleftrightarrow> panicked s \<or> ?bad" "smp_status P (world t) = smp_status P (world s)"
    by (simp_all add: t f up h(2))
  have e: "rdmsr P ?e (this_cpu P) a = (if a = NHM_UNCORE_SEL_BASE then 0x0820 OR NHM_PEREVTSEL_COUNT_ENABLE OR
      NHM_PEREVTSEL_PMI_ENABLE else if a = NHM_UNCORE_PMC_BASE then 2 ^ 48 - 100 else rdmsr P h (this_cpu P) a)"
    if "a \<in> nhm_regs" for a
    using that event_ok nhm_regs_apart by (simp add: write_read)
  have w: "rdmsr P (world t) (this_cpu P) a =
      (if a = NHM_UNCORE_GLOBAL_CTRL \<and> \<not> ?bad then stack_junk64 P OR NHM_UNCORE_GLOBAL_CTRL_MASK
       else rdmsr P ?e (this_cpu P) a)" if "a \<in> nhm_regs" for a
    using write_read [OF _ _ that, of NHM_UNCORE_GLOBAL_CTRL] mask_gp by (auto simp: t(2))
  show "rdmsr P (world t) (this_cpu P) NHM_UNCORE_PMC_BASE = 2 ^ 48 - 100"
    "rdmsr P (world t) (this_cpu P) NHM_UNCORE_SEL_BASE =
      0x0820 OR NHM_PEREVTSEL_COUNT_ENABLE OR NHM_PEREVTSEL_PMI_ENABLE"
    using w [of NHM_UNCORE_PMC_BASE] e [of NHM_UNCORE_PMC_BASE] w [of NHM_UNCORE_SEL_BASE]
      e [of NHM_UNCORE_SEL_BASE] nhm_regs_apart by simp_all
  show "rdmsr P (world t) (this_cpu P) NHM_UNCORE_GLOBAL_CTRL = stack_junk64 P OR NHM_UNCORE_GLOBAL_CTRL_MASK"
    if "\<not> panicked t"
  proof -
    have "\<not> ?bad" using that by (simp add: t(2))
    with w [of NHM_UNCORE_GLOBAL_CTRL] show ?thesis by simp
  qed
qed

text \<open>What a run of the timer does: it never faults.\<close>

lemma cb_eq:
  "uncore_pmu_hrtimer_cb P late s = (True,
     s\<lparr>DELAY_JIFFIES := DELAY_JIFFIES s + 1, UNCORE_PMU_TIMER := Some (INTERVAL_NS s),
       delays := (let ns = rdmsr P (world s) (this_cpu P) NHM_UNCORE_PMC_BASE * WRITE_LATENCY_DELTA s
         in if smp_status P (world s) (SURVIVOR s) = 0
            then (SURVIVOR s, (if SURVIVOR s = this_cpu P then ns else case late of None \<Rightarrow> ns | Some v \<Rightarrow> v) div 1000) # delays s
            else delays s),
       world := wrmsr P (this_cpu P) NHM_UNCORE_PMC_BASE 0 (world s)\<rparr>)"
proof -
  have b: "NHM_UNCORE_PMC_BASE \<in> nhm_regs" using nhm_regs_apart(1) by simp
  show ?thesis
    by (simp add: write_zero [OF b, unfolded NHM_UNCORE_PMC_BASE_def] uncore_pmu_hrtimer_cb_def uncore_pmu_delay_cpu_def uncore_pmu_delay_def writes_to_delay_def
        smp_call_function_single_def udelay_def on_world_def Let_def NHM_UNCORE_PMC_BASE_def
        split: option.split)
qed

lemma counter_reset:
  "rdmsr P (wrmsr P (this_cpu P) NHM_UNCORE_PMC_BASE 0 h) (this_cpu P) NHM_UNCORE_PMC_BASE = 0"
  using nhm_regs_apart(1) zero_ok [of NHM_UNCORE_PMC_BASE] by (simp add: write_read)

end

section \<open>The runs of the timer\<close>

text \<open>The runs since the module was loaded, the first one first: before a run the hardware has counted \<open>k\<close> more
  remote writes in the 48 bits of the counter, and \<open>late\<close> says what the other CPU found on the stack. No CPU goes
  away meanwhile.\<close>

inductive nhm_samples :: "'h platform \<Rightarrow> ('h, 'm) nhm_st_scheme \<Rightarrow> (nat \<times> u64 option) list \<Rightarrow>
    ('h, 'm) nhm_st_scheme \<Rightarrow> bool" for P :: "'h platform" where
  loaded: "nhm_samples P s [] s"
| run: "nhm_samples P s rs s1 \<Longrightarrow> smp_status P h = smp_status P (world s1) \<Longrightarrow>
    unat (rdmsr P h (this_cpu P) NHM_UNCORE_PMC_BASE) =
      (unat (rdmsr P (world s1) (this_cpu P) NHM_UNCORE_PMC_BASE) + k) mod 2 ^ 48 \<Longrightarrow>
    UNCORE_PMU_TIMER s1 \<noteq> None \<Longrightarrow> uncore_pmu_hrtimer_cb P late (s1\<lparr>world := h\<rparr>) = (again, s2) \<Longrightarrow>
    nhm_samples P s (rs @ [(k, late)]) s2"

text \<open>The microseconds of each run: 150 ns for each write, or what was found on the stack. The counter starts
  from \<open>c\<close>, and every run resets it.\<close>

fun nhm_delays :: "nat \<Rightarrow> (nat \<times> u64 option) list \<Rightarrow> u64 list" where
  "nhm_delays c [] = []"
| "nhm_delays c ((k, None) # rs) = of_nat ((c + k) mod 2 ^ 48 * 150 div 1000) # nhm_delays 0 rs"
| "nhm_delays c ((k, Some v) # rs) = v div 1000 # nhm_delays 0 rs"

lemma nhm_delays_snoc:
  "nhm_delays c (rs @ [(k, late)]) = nhm_delays c rs @ nhm_delays (if rs = [] then c else 0) [(k, late)]"
  by (induction c rs rule: nhm_delays.induct) (auto split: if_splits)

lemma write_delay_usec:
  assumes "unat (x :: u64) < 2 ^ 48"
  shows "x * 150 div 1000 = of_nat (unat x * 150 div 1000)"
proof -
  have "unat (x * 150) = unat x * 150" using assms by (simp add: unat_word_ariths)
  moreover have "unat x * 150 div 1000 < 2 ^ 64" using assms by simp
  ultimately show ?thesis by (simp add: word_unat_eq_iff unat_div unat_of_nat take_bit_nat_eq_self)
qed

context nhm_msrs
begin

lemma samples_charge:
  assumes "nhm_samples P t rs t'" "SURVIVOR t = 6" "WRITE_LATENCY_DELTA t = 150" "smp_status P (world t) 6 = 0"
    and "6 \<noteq> this_cpu P"
  shows "delays t' = map (Pair 6) (rev (nhm_delays (unat (rdmsr P (world t) (this_cpu P) NHM_UNCORE_PMC_BASE)) rs)) @ delays t \<and>
    SURVIVOR t' = 6 \<and> WRITE_LATENCY_DELTA t' = 150 \<and> INTERVAL_NS t' = INTERVAL_NS t \<and>
    smp_status P (world t') = smp_status P (world t) \<and> panicked t' = panicked t \<and>
    UNCORE_PMU_TIMER t' = (if rs = [] then UNCORE_PMU_TIMER t else Some (INTERVAL_NS t)) \<and>
    rdmsr P (world t') (this_cpu P) NHM_UNCORE_PMC_BASE =
      (if rs = [] then rdmsr P (world t) (this_cpu P) NHM_UNCORE_PMC_BASE else 0)"
  using assms
proof (induction rule: nhm_samples.induct)
  case (run s rs s1 h k late again s2)
  let ?x = "rdmsr P h (this_cpu P) NHM_UNCORE_PMC_BASE"
  let ?c = "unat (rdmsr P (world s) (this_cpu P) NHM_UNCORE_PMC_BASE)"
  note IH = run.IH [OF run.prems]
  have x: "unat ?x = ((if rs = [] then ?c else 0) + k) mod 2 ^ 48"
    using IH run.hyps(3) by simp
  then have "unat ?x < 2 ^ 48" by simp
  note d = write_delay_usec [OF this]
  have s2: "s2 = snd (uncore_pmu_hrtimer_cb P late (s1\<lparr>world := h\<rparr>))" using run.hyps by simp
  have "delays s2 = map (Pair 6) (rev (nhm_delays (if rs = [] then ?c else 0) [(k, late)])) @ delays s1"
    using IH run.prems run.hyps(2) d x by (cases late) (simp_all add: s2 cb_eq)
  then show ?case
    using IH run.hyps(2) by (simp add: s2 cb_eq counter_reset up nhm_delays_snoc)
qed simp

end

section \<open>A machine\<close>

text \<open>CPUs 0 to 5 are package 0, CPUs 6 to 11 package 1; a package's registers are those of its first CPU. The
  control register has the named bits and the one of the fixed counter. The module is loaded on CPU 0,
  as its source asks for, with \<open>j\<close> on the stack.\<close>

definition ref_pkg :: "u32 \<Rightarrow> nat" where
  "ref_pkg c = (if c < 6 then 0 else 6)"

definition ref_ctrl_bits :: u64 where
  "ref_ctrl_bits = NHM_UNCORE_GLOBAL_CTRL_MASK OR NHM_UNCORE_GLOBAL_CTRL_EN_FRZ OR NHM_UNCORE_GLOBAL_OVF_FC0"

definition ref_nhm_gp :: "u32 \<Rightarrow> u64 \<Rightarrow> bool" where
  "ref_nhm_gp a v =
     (if a \<in> set nhm_counters then 2 ^ 48 \<le> v
      else if a \<in> set nhm_selects then v AND NOT nhm_sel_bits \<noteq> 0
      else if a = NHM_UNCORE_GLOBAL_CTRL then v AND NOT ref_ctrl_bits \<noteq> 0
      else if a = NHM_UNCORE_GLOBAL_OVF_CTRL then v AND NOT NHM_UNCORE_GLOBAL_OVF_CTRL_MASK \<noteq> 0
      else False)"

definition ref_nhm_wrmsr :: "u32 \<Rightarrow> u32 \<Rightarrow> u64 \<Rightarrow> ref_hw \<Rightarrow> ref_hw" where
  "ref_nhm_wrmsr c a v h =
     (let p = of_nat (ref_pkg c); m = msrs h p;
          m1 = (if a = NHM_UNCORE_GLOBAL_OVF_CTRL
                then m(NHM_UNCORE_GLOBAL_STATUS := m NHM_UNCORE_GLOBAL_STATUS AND NOT v)
                else m(a := v))
      in h\<lparr>msrs := (msrs h)(p := m1)\<rparr>)"

definition ref_nhm :: "u64 \<Rightarrow> ref_hw platform" where
  "ref_nhm j = ref_platform\<lparr>rdmsr := (\<lambda>h c. msrs h (of_nat (ref_pkg c))), wrmsr := ref_nhm_wrmsr,
     wrmsr_gp := ref_nhm_gp, this_cpu := 0, stack_junk64 := j\<rparr>"

lemma ref_nhm_sel [simp]:
  "rdmsr (ref_nhm j) h c a = msrs h (of_nat (ref_pkg c)) a" "wrmsr (ref_nhm j) = ref_nhm_wrmsr"
  "wrmsr_gp (ref_nhm j) = ref_nhm_gp" "stack_junk64 (ref_nhm j) = j"
  "smp_status (ref_nhm j) h c = (if c < 12 \<and> online h c then 0 else - ENXIO)" "this_cpu (ref_nhm j) = 0"
  by (simp_all add: ref_nhm_def)

lemma ref_nhm_pkg: "(of_nat (ref_pkg c) :: u32) = of_nat (ref_pkg c') \<longleftrightarrow> ref_pkg c = ref_pkg c'"
  by (simp add: ref_pkg_def)

lemma nhm_kinds_apart:
  "set nhm_counters \<inter> set nhm_selects = {}" "NHM_UNCORE_GLOBAL_CTRL \<notin> set (nhm_counters @ nhm_selects)"
  "NHM_UNCORE_GLOBAL_OVF_CTRL \<notin> nhm_regs" "NHM_UNCORE_GLOBAL_STATUS \<notin> nhm_regs"
  by (simp_all add: nhm_addrs NHM_UNCORE_GLOBAL_CTRL_def NHM_UNCORE_GLOBAL_STATUS_def NHM_UNCORE_GLOBAL_OVF_CTRL_def)

interpretation ref_nhm: nhm_msrs "ref_nhm j" ref_pkg ref_ctrl_bits for j
proof unfold_locales
  fix b :: u32 and v :: u64
  assume b: "b \<in> set nhm_counters"
  then show "wrmsr_gp (ref_nhm j) b v \<longleftrightarrow> 2 ^ 48 \<le> v" by (simp add: ref_nhm_gp_def)
next
  fix b :: u32 and v :: u64
  assume b: "b \<in> set nhm_selects" "v AND NOT nhm_sel_bits = 0"
  then have "b \<notin> set nhm_counters" using nhm_kinds_apart(1) by blast
  with b show "\<not> wrmsr_gp (ref_nhm j) b v" by (simp add: ref_nhm_gp_def)
next
  fix v :: u64
  show "wrmsr_gp (ref_nhm j) NHM_UNCORE_GLOBAL_CTRL v \<longleftrightarrow> v AND NOT ref_ctrl_bits \<noteq> 0"
    using nhm_kinds_apart(2) by (simp add: ref_nhm_gp_def)
next
  fix v :: u64
  assume "v AND NOT NHM_UNCORE_GLOBAL_OVF_CTRL_MASK = 0"
  then show "\<not> wrmsr_gp (ref_nhm j) NHM_UNCORE_GLOBAL_OVF_CTRL v"
    using nhm_kinds_apart(3) by (simp add: ref_nhm_gp_def)
next
  show "(NHM_UNCORE_GLOBAL_CTRL_MASK OR NHM_UNCORE_GLOBAL_CTRL_EN_FRZ) AND NOT ref_ctrl_bits = 0" by code_simp
next
  fix a b c c' :: u32 and v :: u64 and h
  assume "b \<in> nhm_regs"
  then have "b \<noteq> NHM_UNCORE_GLOBAL_OVF_CTRL" using nhm_kinds_apart(3) by blast
  then show "rdmsr (ref_nhm j) (wrmsr (ref_nhm j) c b v h) c' a =
      (if ref_pkg c' = ref_pkg c \<and> a = b then v else rdmsr (ref_nhm j) h c' a)"
    by (auto simp: ref_nhm_wrmsr_def Let_def ref_nhm_pkg)
next
  fix a c c' :: u32 and v :: u64 and h
  assume "a \<in> nhm_regs"
  then have "a \<noteq> NHM_UNCORE_GLOBAL_STATUS" using nhm_kinds_apart(4) by blast
  then show "rdmsr (ref_nhm j) (wrmsr (ref_nhm j) c NHM_UNCORE_GLOBAL_OVF_CTRL v h) c' a = rdmsr (ref_nhm j) h c' a"
    by (simp add: ref_nhm_wrmsr_def Let_def ref_nhm_pkg)
next
  fix b c :: u32 and v :: u64 and h
  show "smp_status (ref_nhm j) (wrmsr (ref_nhm j) c b v h) = smp_status (ref_nhm j) h"
    by (simp add: ref_nhm_wrmsr_def Let_def fun_eq_iff)
qed

definition nhm_loaded :: "'h \<Rightarrow> 'h nhm_st" where
  "nhm_loaded h =
     \<lparr>world = h, allocs = 0, krefs = (\<lambda>_. 0), procs = [], proc_faults = 0, delays = [], panicked = False,
      nmi_actions = [], preempt_count = 0, nhm_PERF_VERSION = 0, nhm_CPU_BASE_FREQUENCY = 0,
      nhm_CPU_BRAND = replicate 48 0, OVF_COUNT = (\<lambda>_. 0),
      m_addr = 0, m_value = 0, NMI_REGISTED = False, FREEZE = False, PMC = 0, SURVIVOR = 0, XYZ = 0, INITVAL = 0,
      UNCORE_PMU_TIMER = None, TIMER_INITED = False, DELAY_JIFFIES = 0, INTERVAL_NS = 0, WRITE_LATENCY_DELTA = 0\<rparr>"

lemma nhm_loaded_up:
  "smp_status (ref_nhm j) (world (nhm_loaded ref_hw0)) 0 = 0" "smp_status (ref_nhm j) (world (nhm_loaded ref_hw0)) 6 = 0"
  by (simp_all add: nhm_loaded_def ref_hw0_def)

section \<open>Sampling\<close>

text \<open>C39: On a machine where CPU 6 is in another package than the CPU of the timer, every run of the timer asks
  CPU 6 to wait, once: for the time of the remote writes of the timer's package since the last run, 150 ns each in
  whole microseconds, if CPU 6 finds the variable in time, and for whatever it finds on the stack otherwise. The
  first run charges the start value \<open>2 ^ 48 - 100\<close> as well, which stands for writes that never happened (up to
  the 100th write, which takes the counter to 0 and makes it 100 too few). No run faults, and the timer is queued
  again after each.\<close>

theorem nhm_delays_charged:
  assumes "nhm_msrs P pkg ctrl_bits" "smp_status P (world s) 0 = 0" "smp_status P (world s) 6 = 0"
    and "pkg 6 \<noteq> pkg (this_cpu P)" "uncore_pmu_init P s = (r, t)" "nhm_samples P t rs t'"
  shows "delays t' = map (\<lambda>d. (6, d)) (rev (nhm_delays (2 ^ 48 - 100) rs)) @ delays s \<and>
    panicked t' = panicked t \<and> UNCORE_PMU_TIMER t' = Some (if rs = [] then 1 else 1000000)"
proof -
  note f = nhm_msrs.init_facts [OF assms(1-3,5)]
  have "smp_status P (world t) 6 = 0" "6 \<noteq> this_cpu P" using assms(3,4) f(11) by auto
  note c = nhm_msrs.samples_charge [OF assms(1,6) f(2,3) this]
  have "unat (rdmsr P (world t) (this_cpu P) NHM_UNCORE_PMC_BASE) = 2 ^ 48 - 100" by (simp add: f(13))
  with c show ?thesis by (simp add: f(4,5,8))
qed

text \<open>On the machine above any writes can happen between the runs.\<close>

lemma ref_nhm_samples:
  assumes "UNCORE_PMU_TIMER t \<noteq> None"
  shows "\<exists>t'. nhm_samples (ref_nhm j) t rs t' \<and> UNCORE_PMU_TIMER t' \<noteq> None"
proof (induction rs rule: rev_induct)
  case Nil
  show ?case using assms nhm_samples.loaded by blast
next
  case (snoc r rs)
  obtain k late where r: "r = (k, late)" by fastforce
  from snoc obtain s1 where s1: "nhm_samples (ref_nhm j) t rs s1" "UNCORE_PMU_TIMER s1 \<noteq> None" by blast
  define c where "c = (unat (rdmsr (ref_nhm j) (world s1) 0 NHM_UNCORE_PMC_BASE) + k) mod 2 ^ 48"
  define h where "h = (world s1)\<lparr>msrs := (\<lambda>_ _. of_nat c)\<rparr>"
  obtain again s2 where s2: "uncore_pmu_hrtimer_cb (ref_nhm j) late (s1\<lparr>world := h\<rparr>) = (again, s2)" by fastforce
  have "c < 2 ^ 48" by (simp add: c_def)
  then have "unat (rdmsr (ref_nhm j) h 0 NHM_UNCORE_PMC_BASE) = c"
    by (simp add: h_def unat_of_nat take_bit_nat_eq_self)
  then have "nhm_samples (ref_nhm j) t (rs @ [(k, late)]) s2"
    using nhm_samples.run [OF s1(1) _ _ s1(2) s2, of k] by (simp add: h_def c_def fun_eq_iff)
  moreover have "UNCORE_PMU_TIMER s2 \<noteq> None" using s2 by (auto simp: ref_nhm.cb_eq)
  ultimately show ?case using r by blast
qed

text \<open>70 writes before the first run, 1000 before the second; the third finds 5000 on the stack.\<close>

lemma nhm_delays_charged_witness:
  "\<exists>t t'. uncore_pmu_init (ref_nhm 0) (nhm_loaded ref_hw0) = (0, t) \<and>
     nhm_samples (ref_nhm 0) t [(70, None), (1000, None), (7, Some 5000)] t' \<and>
     delays t' = [(6, 5), (6, 150), (6, 42221246506593)]"
proof -
  obtain r t where t: "uncore_pmu_init (ref_nhm 0) (nhm_loaded ref_hw0) = (r, t)" by fastforce
  note f = ref_nhm.init_facts [OF nhm_loaded_up t]
  obtain t' where t': "nhm_samples (ref_nhm 0) t [(70, None), (1000, None), (7, Some 5000)] t'"
    using ref_nhm_samples [of t] f(5) by blast
  have "ref_pkg 6 \<noteq> ref_pkg (this_cpu (ref_nhm 0))" by (simp add: ref_pkg_def)
  from nhm_delays_charged [OF ref_nhm.nhm_msrs_axioms nhm_loaded_up this t t']
  have "delays t' = [(6, 5), (6, 150), (6, 42221246506593)]" by (simp add: nhm_loaded_def)
  with t t' f(1) show ?thesis by blast
qed

section \<open>The life of the module\<close>

text \<open>While it is loaded the timer runs and the hardware counts; no CPU goes away.\<close>

inductive nhm_run :: "'h platform \<Rightarrow> ('h, 'm) nhm_st_scheme \<Rightarrow> ('h, 'm) nhm_st_scheme \<Rightarrow> bool"
  for P :: "'h platform" where
  start: "nhm_run P s s"
| timer: "nhm_run P s s1 \<Longrightarrow> UNCORE_PMU_TIMER s1 \<noteq> None \<Longrightarrow> uncore_pmu_hrtimer_cb P late s1 = (again, s2) \<Longrightarrow>
    nhm_run P s s2"
| counting: "nhm_run P s s1 \<Longrightarrow> smp_status P h = smp_status P (world s1) \<Longrightarrow> nhm_run P s (s1\<lparr>world := h\<rparr>)"

lemma nhm_run_facts:
  assumes "nhm_run P s s'" "nhm_msrs P pkg ctrl_bits"
  shows "TIMER_INITED s' = TIMER_INITED s \<and> NMI_REGISTED s' = NMI_REGISTED s \<and> panicked s' = panicked s \<and>
    preempt_count s' = preempt_count s \<and> nmi_actions s' = nmi_actions s \<and>
    smp_status P (world s') = smp_status P (world s) \<and> (UNCORE_PMU_TIMER s \<noteq> None \<longrightarrow> UNCORE_PMU_TIMER s' \<noteq> None)"
  using assms(1)
  by (induction rule: nhm_run.induct) (auto simp: nhm_msrs.cb_eq [OF assms(2)] nhm_msrs.up [OF assms(2)])

text \<open>C40: Loading enables the counters with a mask that was never initialised, and the kernel dies exactly when
  the stack held a bit that the control register does not have. When it survives, loading has returned 0, the timer
  is queued, the event is set, and all counters and interrupts are enabled, with the stack's bits among them: the
  freeze bit, which the module does not ask for, is the stack's. Whatever the timer and the hardware do then,
  nothing faults, and unloading clears every register of the packages of CPU 0 and CPU 6, leaves the
  timer not queued, and leaves the NMI handlers and the preemption depth as they were before loading.\<close>

theorem nhm_module_life:
  assumes "nhm_msrs P pkg ctrl_bits" "smp_status P (world s) 0 = 0" "smp_status P (world s) 6 = 0"
    and "\<not> panicked s" "uncore_pmu_init P s = (r, t)" "nhm_run P t t'"
  shows "(panicked t \<longleftrightarrow> stack_junk64 P AND NOT ctrl_bits \<noteq> 0) \<and>
    (\<not> panicked t \<longrightarrow> r = 0 \<and> UNCORE_PMU_TIMER t = Some 1 \<and>
      rdmsr P (world t) (this_cpu P) NHM_UNCORE_SEL_BASE = 0x0820 OR NHM_PEREVTSEL_COUNT_ENABLE OR NHM_PEREVTSEL_PMI_ENABLE \<and>
      rdmsr P (world t) (this_cpu P) NHM_UNCORE_GLOBAL_CTRL = stack_junk64 P OR NHM_UNCORE_GLOBAL_CTRL_MASK \<and>
      \<not> panicked (uncore_pmu_exit P t') \<and> UNCORE_PMU_TIMER (uncore_pmu_exit P t') = None \<and>
      nmi_actions (uncore_pmu_exit P t') = nmi_actions s \<and> preempt_count (uncore_pmu_exit P t') = preempt_count s \<and>
      (\<forall>a \<in> nhm_regs. \<forall>c. pkg c = pkg 0 \<or> pkg c = pkg 6 \<longrightarrow> rdmsr P (world (uncore_pmu_exit P t')) c a = 0))"
proof -
  note f = nhm_msrs.init_facts [OF assms(1-3,5)]
  note g = nhm_run_facts [OF assms(6,1)]
  let ?s = "t'\<lparr>preempt_count := preempt_count s + 1\<rparr>"
  obtain h where h: "nhm_uncore_clear_all P ?s = ?s\<lparr>world := h\<rparr>"
    "\<forall>a \<in> nhm_regs. \<forall>c. pkg c = pkg 0 \<or> pkg c = pkg 6 \<longrightarrow> rdmsr P h c a = 0"
    using nhm_msrs.clear_all [OF assms(1), of ?s] assms(2,3) f g by auto
  have "uncore_pmu_exit P t' = t'\<lparr>world := h, UNCORE_PMU_TIMER := None\<rparr>"
    using f g by (simp add: uncore_pmu_exit_def h(1) uncore_nmi_unregister_def uncore_pmu_hrtimer_cancel_def
        get_cpu_def put_cpu_def Let_def)
  with h(2) f g assms(4) show ?thesis by simp
qed

text \<open>With an empty stack word the module lives; with bit 8 in it the kernel dies.\<close>

lemma nhm_module_life_witness:
  "rdmsr (ref_nhm 0) (world (snd (uncore_pmu_init (ref_nhm 0) (nhm_loaded ref_hw0)))) 0 NHM_UNCORE_GLOBAL_CTRL =
     NHM_UNCORE_GLOBAL_CTRL_MASK \<and>
   rdmsr (ref_nhm 0) (world (uncore_pmu_exit (ref_nhm 0) (snd (uncore_pmu_init (ref_nhm 0) (nhm_loaded ref_hw0))))) 6
     NHM_UNCORE_GLOBAL_CTRL = 0 \<and>
   panicked (snd (uncore_pmu_init (ref_nhm 0x100) (nhm_loaded ref_hw0)))"
proof -
  have p: "\<not> panicked (nhm_loaded ref_hw0)" by (simp add: nhm_loaded_def)
  note l = nhm_module_life [OF ref_nhm.nhm_msrs_axioms nhm_loaded_up p surjective_pairing nhm_run.start]
  have "(0x100 :: u64) AND NOT ref_ctrl_bits \<noteq> 0" by code_simp
  then have "panicked (snd (uncore_pmu_init (ref_nhm 0x100) (nhm_loaded ref_hw0)))"
    using l [of "0x100"] by simp
  moreover have n: "\<not> panicked (snd (uncore_pmu_init (ref_nhm 0) (nhm_loaded ref_hw0)))"
    using l [of 0] by simp
  moreover have "NHM_UNCORE_GLOBAL_CTRL \<in> nhm_regs" by simp
  ultimately show ?thesis using mp [OF conjunct2 [OF l [of 0]] n] by (metis ref_nhm_sel(4,6) or.left_neutral)
qed

section \<open>The interrupt handler and the descriptions\<close>

text \<open>The handler, which no code registers, leaves preemption disabled one level deeper whenever no counter has
  overflowed.\<close>

lemma nhm_nmi_preempt:
  assumes "nhm_uncore_nmi_handler P c s = (r, s')"
  shows "preempt_count s' = preempt_count s + (case r of NMI_DONE \<Rightarrow> 1 | NMI_HANDLED \<Rightarrow> 0)"
  using assms
  by (auto simp: nhm_uncore_nmi_handler_def get_cpu_def put_cpu_def remote_rdmsr_def smp_call_function_single_def
      Let_def split: if_splits)

text \<open>An event is described by the text of the event after it, and the last one has no description.\<close>

lemma event_desc_shifted:
  "EVENT_DESC ! nhm_event_number nhm_qhl_request_remote_reads = Some ''Write requests from a remote socket''"
  "EVENT_DESC ! nhm_event_number nhm_qhl_request_remote_writes = Some ''Read requests from the local socket''"
  "EVENT_DESC ! nhm_event_number nhm_qmc_writes_full_any = Some ''Partial cache line writes to DRAM''"
  "EVENT_DESC ! nhm_event_number nhm_qmc_writes_partial_any = None"
  by (simp_all add: EVENT_DESC_def)

end
