(* ===== verification/Spec2Isabelle.thy ===== *)
theory Spec2Isabelle
  imports Box_Properties Emulation_Commands Module_Types Core_Sampling Ioapic_Entries Migrate_Walk Nhmep_Sampling
begin

text \<open>
  A model of the NVM emulator, a set of Linux kernel modules that make the memory of one socket
  look like non-volatile memory, and the theorems that make it correct. All sources are under
  \<open>src/\<close>.

  \<^bold>\<open>The program.\<close> The main module has three layers. The bottom one describes the uncore
  monitoring hardware: \<open>uncore_pmu.h\<close> (boxes, box types, methods) and \<open>uncore_hswep.c\<close> (the registers,
  box types and methods of Haswell-EP, among them those of its memory controllers). The middle one keeps the
  boxes and controllers the machine has: \<open>uncore_pmu.c\<close> finds the PCI devices and the MSR boxes, links a box
  per device into the list of its type, and releases them; \<open>uncore_imc.c\<close> does so for the memory
  controllers and throttles their DIMMs. The top one is the emulation: \<open>emulate_nvm.c\<close> has the home agent of node 1
  count remote reads and, from a timer, delays the CPU that runs the benchmark for the time the reads would have
  taken longer; it sets the bandwidth through the controllers; \<open>emulate_nvm_proc.c\<close> and \<open>uncore_proc.c\<close>
  give it its /proc files. The other modules stand alone: \<open>core_pmu.c\<close> with \<open>core_proc.c\<close> samples
  last level cache misses by interrupts, \<open>migrate.c\<close> reports the pages a process has accessed,
  \<open>uncore_nhmep.c\<close> is the emulator for Nehalem-EP, \<open>misc/ioapic.c\<close> reads and writes an IO APIC.

  \<^bold>\<open>What is a parameter.\<close> The kernel and the hardware are the record \<open>platform\<close> of theory
  \<open>Platform\<close>, over an arbitrary type of hardware states. What the code relies on is stated as locales:
  \<open>pmon_pci\<close>, \<open>pmon_msr\<close> (the registers of a box, theory \<open>Hswep_Contract\<close>), \<open>msr_space\<close> (a write reaches the
  registers of one MSR box only), \<open>imc_regs\<close> (the DIMM
  registers), \<open>emulation_apart\<close> (both kept apart), \<open>cpu_hotplug\<close>, \<open>core_msrs\<close>, \<open>nhm_msrs\<close>, \<open>io_apic\<close>, \<open>page_table\<close>. Theory \<open>Ref_Machine\<close> is
  a two-socket machine that satisfies them; the witnesses are evaluated there. The part of the kernel's state the
  module is responsible for (references on devices, /proc entries, allocations, NMI handlers,
  the delays that ran) is explicit, and an access the kernel would die of sets \<open>panicked\<close>. A
  register write of \<open>uncore_nhmep.c\<close> is one when it sets a reserved bit (\<open>wrmsr_gp\<close>), since that module writes a
  variable it has not initialised; the other files write only values that the registers define.

  \<^bold>\<open>Theories, bottom up.\<close>
  \<^item> \<open>Prelude\<close>: words, errno values, masks and halves of words, lists and maps.
  \<^item> \<open>Platform\<close>: the parameter, the kernel services, the device scan loop \<open>pci_scan\<close>.
  \<^item> \<open>Uncore_Types\<close>: the structures and inline functions of \<open>uncore_pmu.h\<close>. \<open>Box_Contract\<close>: the contract
    of one box (\<open>pmon_box\<close>) and what a sampling period and a session do under it.
  \<^item> \<open>Hswep_Regs\<close>, \<open>Hswep_Box\<close>: registers, methods and box types of \<open>uncore_hswep.c\<close>. \<open>Hswep_Contract\<close>: they
    satisfy the contract of a box, and no method of an MSR box reaches another box. \<open>Box_Properties\<close>: sampling,
    round trips, boxes kept apart.
  \<^item> \<open>Hswep_Init\<close>, \<open>Uncore_Pmu\<close>: the globals and all operations of \<open>uncore_pmu.c\<close> but loading and
    unloading. \<open>Registry\<close>: the contract between the scan loop and the code that registers a device, with the
    balance of references proved once for PCI boxes and memory controllers. \<open>Box_Lists\<close>, \<open>Box_Scan\<close>,
    \<open>Box_Init\<close>: the invariant of the heap and the lists, and initialisation and release.
  \<^item> \<open>Uncore_Imc\<close>, \<open>Imc_Contract\<close>, \<open>Imc_Init\<close>: the memory controllers, throttling, initialisation.
  \<^item> \<open>Emulate_Nvm\<close>: every operation of the emulation and of both /proc files. \<open>Emulate_Latency\<close>:
    the delays against the reads that happened. \<open>Emulate_Control\<close>: CPUs taken down and brought up, the bandwidth
    command. \<open>Emulation_Commands\<close>: bandwidth commands while the latency model runs.
  \<^item> \<open>Uncore_Module\<close>: \<open>uncore_init\<close>, \<open>uncore_exit\<close> and the events of the loaded module as a step
    relation. \<open>Module_Parts\<close>, \<open>Module_Life\<close>: its invariant from loading to unloading. \<open>Module_Report\<close>: what
    is printed at load against the devices and the table of MSR boxes. \<open>Emulation_Session\<close>: from loading to
    the delays. \<open>Module_Types\<close>: the type discipline of boxes, node ids and timers.
  \<^item> \<open>Core_Pmu\<close>, \<open>Core_Sampling\<close>; \<open>Migrate\<close>, \<open>Migrate_Walk\<close>; \<open>Uncore_Nhmep\<close>, \<open>Nhmep_Sampling\<close>;
    \<open>Ioapic\<close>, \<open>Ioapic_Entries\<close>: the stand-alone modules, in each pair first the definitions and then the
    contract of the hardware with the properties.

  \<^bold>\<open>How the state corresponds.\<close> The records extend each other as the sources do: \<open>kern\<close> (kernel),
  \<open>pmu_st\<close> (globals of \<open>uncore_pmu.c\<close>), \<open>imc_st\<close> (of \<open>uncore_imc.c\<close>), \<open>emu_st\<close> (of the emulation and
  of both /proc files), so a function of a lower layer runs unchanged on the state of a higher one. Pointers to
  boxes are addresses of \<open>box_heap\<close>; a freed address is not in its domain. A function pointer is a value of a
  datatype (\<open>ops_ref\<close>, \<open>hrtimer_fn\<close>) and the tables of methods are arguments.
  Errors are the negative numbers of the code; an uninitialised variable of the code is an argument (\<open>junk\<close>) or a
  \<open>stack_junk\<close> value of the platform. A function that prints is modelled by the values it prints, in their order,
  without the words around them; printing itself changes no state of the module (\<open>with_log\<close> and \<open>print_on\<close> of
  theory \<open>Platform\<close> add the values to a log). Integers have the width of the code, and arithmetic wraps as there.

  \<^bold>\<open>What the lemmas show.\<close> Of the main module: from loading on the delays are those of the remote reads that
  happened; loading ends and either leaves the invariant or nothing; the report it prints lists exactly
  the devices and boxes of the machine; every event keeps the invariant; every live box has a type of the static
  tables, the node, device and timer that go with it; unloading leaves nothing and gives every reference back;
  the total delay is right to the microsecond that each division truncates, and to a multiple of \<open>2 ^ 48\<close> reads when
  the counter wraps within a period; the lists hold one box per device; controllers are throttled all or none; latency and bandwidth do not disturb
  each other in any interleaving of timer runs and commands. Of the others: the /proc commands of the core
  module refine a three-state specification and its interrupt handler is characterised; the page walk
  equals the list of accessed pages; an entry of the IO APIC is written in the safe order and read back; loading
  the Nehalem module kills the kernel exactly when its uninitialised mask has a reserved bit, and the delays
  of all runs of its timer are given: those of the writes since the last run, but for the start value that the first
  run charges and for runs whose argument the other CPU read too late. Where the code does not
  do what it means to, the theorem states what it does.

  \<^bold>\<open>Termination.\<close> No fuel is used. A loop whose end depends on the kernel is a
  \<open>partial_function (option)\<close>, with \<open>None\<close> for a run that never ends: \<open>pci_scan\<close>, \<open>pcibus_loop\<close> and the
  page walks. The theorems about them say that the result is \<open>Some\<close>, under the contract of the
  iterator (\<open>enumerates\<close>) and of the page table.

  \<^bold>\<open>Not modelled.\<close> The words of the messages (only the values in them); the readers of the time stamp counter,
  which nothing uses; empty functions (\<open>apicexit\<close>) and the empty table \<open>HSWEX_E7_IMC\<close>; the module and
  file operation tables, which the kernel reads; constants no function uses. Concurrency within a function is not
  modelled: events are interleaved as whole calls, as the code runs them with interrupts or preemption off, and a
  function sent to another CPU runs at the call; what a late start changes, the argument that
  \<open>uncore_pmu_delay_cpu\<close> leaves on its stack, is an argument of the timer's run.
\<close>

end
